theory Spec2Isabelle
  imports Complex_Main
begin

section \<open>Numbers, arrays and outcomes\<close>

text \<open>
  The strategy code computes on one-dimensional numpy arrays of floats. An array is a list
  of reals here: rounding, overflow and the values inf and nan are outside the reals. Where
  numpy would produce inf or nan (a division or a modulo by zero; it warns and goes on) the
  model stops with \<open>NonFinite\<close>: what the code computes from there on is not modelled.
  The exceptions Python raises are the other two values of \<open>error\<close>: \<open>ValueError\<close>
  (operands that cannot be broadcast together, a minimum or maximum of an empty array) and
  \<open>ZeroDivisionError\<close> (a division of Python scalars by zero).
  A function that contains the \<open>while True\<close> loop returns an option: \<open>None\<close> is
  "never returns".
\<close>

type_synonym ndarray = "real list"

datatype error = ValueError | ZeroDivisionError | NonFinite

definition and_then :: "error + 'a \<Rightarrow> ('a \<Rightarrow> error + 'b) \<Rightarrow> error + 'b" where
  "and_then m f = (case m of Inl e \<Rightarrow> Inl e | Inr x \<Rightarrow> f x)"

text \<open>numpy broadcasting of two one-dimensional arrays: equal lengths pair up, an array of
  length one is repeated against the other, anything else raises.\<close>

definition broadcast :: "ndarray \<Rightarrow> ndarray \<Rightarrow> error + (real \<times> real) list" where
  "broadcast xs ys =
     (if length xs = length ys then Inr (zip xs ys)
      else if length xs = 1 then Inr (map (\<lambda>y. (hd xs, y)) ys)
      else if length ys = 1 then Inr (map (\<lambda>x. (x, hd ys)) xs)
      else Inl ValueError)"

definition np_op :: "(real \<Rightarrow> real \<Rightarrow> real) \<Rightarrow> ndarray \<Rightarrow> ndarray \<Rightarrow> error + ndarray" where
  "np_op f xs ys = and_then (broadcast xs ys) (\<lambda>ps. Inr (map (\<lambda>(x, y). f x y) ps))"

definition np_div :: "ndarray \<Rightarrow> ndarray \<Rightarrow> error + ndarray" where
  "np_div xs ys =
     and_then (broadcast xs ys) (\<lambda>ps.
       if list_ex (\<lambda>(x, y). y = 0) ps then Inl NonFinite
       else Inr (map (\<lambda>(x, y). x / y) ps))"

fun cumsum_from :: "real \<Rightarrow> ndarray \<Rightarrow> ndarray" where
  "cumsum_from acc [] = []"
| "cumsum_from acc (x # xs) = (acc + x) # cumsum_from (acc + x) xs"

definition cumsum :: "ndarray \<Rightarrow> ndarray" where
  "cumsum xs = cumsum_from 0 xs"

definition np_min :: "ndarray \<Rightarrow> error + real" where
  "np_min xs = (case xs of [] \<Rightarrow> Inl ValueError | x # r \<Rightarrow> Inr (fold min r x))"

definition np_max :: "ndarray \<Rightarrow> error + real" where
  "np_max xs = (case xs of [] \<Rightarrow> Inl ValueError | x # r \<Rightarrow> Inr (fold max r x))"

definition clip0 :: "ndarray \<Rightarrow> ndarray" where
  "clip0 xs = map (max 0) xs"

definition radians :: "real \<Rightarrow> real" where
  "radians d = d * pi / 180"

text \<open>The remainder \<open>x % y\<close> of numpy on floats takes the sign of the divisor.\<close>

definition np_mod :: "real \<Rightarrow> real \<Rightarrow> real" where
  "np_mod x y = x - y * of_int \<lfloor>x / y\<rfloor>"

section \<open>config.py\<close>

record config =
  RaceStartTime :: real
  RaceEndTime :: real
  BatteryCapacity :: real
  DeepDischargeCap :: real
  InitialBatteryCapacity :: real
  R_Out :: real
  Mass :: real
  ZeroSpeedCrr :: real
  Cd :: real
  FrontalArea :: real
  PanelArea :: real
  PanelEfficiency :: real
  AirDensity :: real
  GravityAcc :: real
  Ta :: real
  MaxVelocity :: real

definition default_config :: config where
  "default_config =
     \<lparr> RaceStartTime = 9 * 3600,
       RaceEndTime = (12 + 5) * 3600,
       BatteryCapacity = 3055,
       DeepDischargeCap = 0.2,
       InitialBatteryCapacity = 3055 * 0.36,
       R_Out = 0.2785,
       Mass = 260,
       ZeroSpeedCrr = 0.0045,
       Cd = 0.092,
       FrontalArea = 1,
       PanelArea = 6,
       PanelEfficiency = 0.19,
       AirDensity = 1.192,
       GravityAcc = 9.81,
       Ta = 295,
       MaxVelocity = 35 \<rparr>"

definition CDA :: "config \<Rightarrow> real" where
  "CDA cfg = Cd cfg * FrontalArea cfg"

section \<open>car.py\<close>

definition EPSILON :: real where
  "EPSILON = 1 / 10 ^ 8"

definition frictional_tou :: "config \<Rightarrow> real" where
  "frictional_tou cfg = R_Out cfg * Mass cfg * GravityAcc cfg * ZeroSpeedCrr cfg"

definition drag_coeff :: "config \<Rightarrow> real" where
  "drag_coeff cfg = 0.5 * CDA cfg * AirDensity cfg * (R_Out cfg ^ 3)"

definition drag_coeff_wR2 :: "config \<Rightarrow> real" where
  "drag_coeff_wR2 cfg = drag_coeff cfg / R_Out cfg ^ 2"

definition slope_coeff :: "config \<Rightarrow> real" where
  "slope_coeff cfg = Mass cfg * GravityAcc cfg"

definition windage_losses_coeff_wR2 :: "config \<Rightarrow> real" where
  "windage_losses_coeff_wR2 cfg = (170.4 * (1 / 10 ^ 6)) / (R_Out cfg ^ 2)"

text \<open>One pass of the loop body of \<open>calculate_power\<close> on one element: the copper loss,
  the eddy loss and the new winding temperature, from the torque, the squared speed and
  the current winding temperature.\<close>

definition winding_update :: "config \<Rightarrow> real \<Rightarrow> real \<Rightarrow> real \<Rightarrow> real \<times> real \<times> real" where
  "winding_update cfg tou speed2 Tw_i =
     (let B = 1.6716 - 0.0006 * (Ta cfg + Tw_i);
          i = 0.561 * B * tou;
          resistance = 0.00022425 * Tw_i - 0.00820525;
          Pc = 3 * i ^ 2 * resistance;
          Pe = (9.602 * (1 / 10 ^ 6) * ((B / R_Out cfg) ^ 2) / resistance) * speed2;
          Tw = 0.455 * (Pc + Pe) + Ta cfg
      in (Pc, Pe, Tw))"

text \<open>The \<open>while True\<close> loop on the arrays. It leaves when every element has
  \<open>|Tw - Tw_i| < 0.001\<close>, returning the losses of the last pass; otherwise the elements
  that have not converged take their new temperature and the loop goes on. There is no
  bound on the number of passes.\<close>

partial_function (option) thermal_loop ::
  "config \<Rightarrow> ndarray \<Rightarrow> ndarray \<Rightarrow> ndarray \<Rightarrow> (error + ndarray \<times> ndarray) option" where
  "thermal_loop cfg tou speed2 Tw_i =
     (if list_ex (\<lambda>T. 0.00022425 * T - 0.00820525 = 0) Tw_i then Some (Inl NonFinite)
      else
        let r = map (\<lambda>(t, s, T). winding_update cfg t s T) (zip tou (zip speed2 Tw_i));
            Pc = map fst r;
            Pe = map (\<lambda>x. fst (snd x)) r;
            Tw = map (\<lambda>x. snd (snd x)) r;
            cond = map (\<lambda>(t, ti). \<bar>t - ti\<bar> < 0.001) (zip Tw Tw_i)
        in if list_all (\<lambda>c. c) cond then Some (Inr (Pc, Pe))
           else thermal_loop cfg tou speed2
                  (map (\<lambda>(c, ti, t). if c then ti else t) (zip cond (zip Tw_i Tw))))"

text \<open>\<open>calculate_power(speed, acceleration, slope)\<close>. The first pass of the loop runs on
  the Python scalar \<open>Ta\<close>, so a zero \<open>R_Out\<close> (which already stops the import of car.py)
  or a zero resistance at \<open>Ta\<close> raises there.\<close>

definition calculate_power ::
  "config \<Rightarrow> ndarray \<Rightarrow> ndarray \<Rightarrow> ndarray \<Rightarrow> (error + ndarray \<times> ndarray) option" where
  "calculate_power cfg speed acceleration slope =
     (if R_Out cfg = 0 \<or> 0.00022425 * Ta cfg - 0.00820525 = 0 then Some (Inl ZeroDivisionError)
      else
        let speed2 = map (\<lambda>v. v ^ 2) speed;
            drag_tou = map (\<lambda>s. drag_coeff_wR2 cfg * s) speed2;
            tou = map (\<lambda>d. frictional_tou cfg + d) drag_tou
        in case thermal_loop cfg tou speed2 (replicate (length speed) (Ta cfg)) of
             None \<Rightarrow> None
           | Some (Inl e) \<Rightarrow> Some (Inl e)
           | Some (Inr (Pc, Pe)) \<Rightarrow>
               Some (
                 let P_out = map (\<lambda>(t, v). t * v / R_Out cfg) (zip tou speed);
                     Pw = map (\<lambda>s. s * windage_losses_coeff_wR2 cfg) speed2;
                     losses = map (\<lambda>(a, b, c, d). a + b + c + d) (zip P_out (zip Pw (zip Pc Pe)))
                 in and_then (np_op (\<lambda>a s. Mass cfg * a + slope_coeff cfg * sin (radians s))
                                acceleration slope) (\<lambda>force.
                    and_then (np_op (\<lambda>f v. f * v) force speed) (\<lambda>P_acc.
                    and_then (np_op (\<lambda>l p. l + p) losses P_acc) (\<lambda>P_net.
                    Inr (clip0 P_net, P_out))))))"

definition calculate_dt :: "ndarray \<Rightarrow> ndarray \<Rightarrow> ndarray \<Rightarrow> error + ndarray" where
  "calculate_dt start_speed stop_speed dx =
     and_then (np_op (\<lambda>a b. a + b) start_speed stop_speed) (\<lambda>s.
       np_div (map (\<lambda>d. 2 * d) dx) (map (\<lambda>v. v + EPSILON) s))"

section \<open>solar.py\<close>

definition DT :: "config \<Rightarrow> real" where
  "DT cfg = RaceEndTime cfg - RaceStartTime cfg"

definition power_coeff :: "config \<Rightarrow> real" where
  "power_coeff cfg = PanelArea cfg * PanelEfficiency cfg"

definition calc_solar_irradiance :: "real \<Rightarrow> real" where
  "calc_solar_irradiance time = 1073.099 * exp (- 0.5 * ((time - 51908.735) / 11484.950) ^ 2)"

definition calculate_incident_solarpower ::
  "config \<Rightarrow> ndarray \<Rightarrow> ndarray \<Rightarrow> ndarray \<Rightarrow> error + ndarray" where
  "calculate_incident_solarpower cfg globaltime latitude longitude =
     (if DT cfg = 0 \<and> globaltime \<noteq> [] then Inl NonFinite
      else
        let gt = map (\<lambda>t. np_mod t (DT cfg)) globaltime;
            intensity = map (\<lambda>g. calc_solar_irradiance (RaceStartTime cfg + g)) gt
        in Inr (map (\<lambda>i. i * power_coeff cfg) intensity))"

section \<open>constraints.py\<close>

definition SafeBatteryLevel :: "config \<Rightarrow> real" where
  "SafeBatteryLevel cfg = BatteryCapacity cfg * DeepDischargeCap cfg"

text \<open>\<open>get_bounds(N)\<close>: a Python list repeated a negative number of times is empty.\<close>

definition get_bounds :: "config \<Rightarrow> int \<Rightarrow> (real \<times> real) list" where
  "get_bounds cfg N = [(0, 0)] @ replicate (nat (N - 2)) (0.01, MaxVelocity cfg) @ [(0, 0)]"

definition objective :: "ndarray \<Rightarrow> ndarray \<Rightarrow> error + real" where
  "objective velocity_profile segment_array =
     and_then (calculate_dt (butlast velocity_profile) (tl velocity_profile) segment_array)
       (\<lambda>dt. Inr (sum_list dt))"

definition battery_acc_constraint_func ::
  "config \<Rightarrow> ndarray \<Rightarrow> ndarray \<Rightarrow> ndarray \<Rightarrow> ndarray \<Rightarrow> ndarray \<Rightarrow> (error + real \<times> real) option" where
  "battery_acc_constraint_func cfg v_prof segment_array slope_array latitude_array longitude_array =
     (let start_speeds = butlast v_prof;
          stop_speeds = tl v_prof;
          avg_speed = map (\<lambda>(a, b). (a + b) / 2) (zip start_speeds stop_speeds)
      in case calculate_dt start_speeds stop_speeds segment_array of
           Inl e \<Rightarrow> Some (Inl e)
         | Inr dt \<Rightarrow>
        (case np_div (map (\<lambda>(a, b). b - a) (zip start_speeds stop_speeds)) dt of
           Inl e \<Rightarrow> Some (Inl e)
         | Inr acceleration \<Rightarrow>
        (case calculate_power cfg avg_speed acceleration slope_array of
           None \<Rightarrow> None
         | Some (Inl e) \<Rightarrow> Some (Inl e)
         | Some (Inr (P, PO)) \<Rightarrow>
             Some (
               and_then (calculate_incident_solarpower cfg (cumsum dt) latitude_array longitude_array)
                 (\<lambda>SolP.
               and_then (np_op (\<lambda>p s. p - s) P SolP) (\<lambda>net.
               and_then (np_op (\<lambda>n t. n * t) net dt) (\<lambda>energy.
               let energy_consumption = map (\<lambda>e. e / 3600) (cumsum energy);
                   battery_profile =
                     map (\<lambda>e. InitialBatteryCapacity cfg - e - SafeBatteryLevel cfg)
                       energy_consumption
               in and_then (np_min battery_profile) (\<lambda>min_battery.
                  and_then (np_div (clip0 PO) (map (\<lambda>a. Mass cfg * a) avg_speed)) (\<lambda>deliverable.
                  and_then (np_op (\<lambda>d a. d - a) deliverable acceleration) (\<lambda>margin.
                  and_then (np_max margin) (\<lambda>max_margin.
                  Inr (min_battery, max_margin))))))))))))"

section \<open>profiles.py\<close>

text \<open>\<open>extract_profiles\<close> returns a list of seven arrays, a record here. The first entry of
  three of them is \<open>np.nan\<close>: \<open>None\<close>.\<close>

record profiles =
  distances :: ndarray
  velocity :: ndarray
  acceleration_profile :: "real option list"
  battery_profile :: ndarray
  energy_consumption_profile :: "real option list"
  energy_gain_profile :: "real option list"
  cumulative_time :: ndarray

definition extract_profiles ::
  "config \<Rightarrow> ndarray \<Rightarrow> ndarray \<Rightarrow> ndarray \<Rightarrow> ndarray \<Rightarrow> ndarray \<Rightarrow> (error + profiles) option" where
  "extract_profiles cfg velocity_profile segment_array slope_array lattitude_array longitude_array =
     (let start_speeds = butlast velocity_profile;
          stop_speeds = tl velocity_profile;
          avg_speed = map (\<lambda>(a, b). (a + b) / 2) (zip start_speeds stop_speeds)
      in case calculate_dt start_speeds stop_speeds segment_array of
           Inl e \<Rightarrow> Some (Inl e)
         | Inr dt \<Rightarrow>
        (case np_div (map (\<lambda>(a, b). b - a) (zip start_speeds stop_speeds)) dt of
           Inl e \<Rightarrow> Some (Inl e)
         | Inr acceleration \<Rightarrow>
        (case calculate_power cfg avg_speed acceleration slope_array of
           None \<Rightarrow> None
         | Some (Inl e) \<Rightarrow> Some (Inl e)
         | Some (Inr (P, PO)) \<Rightarrow>
             Some (
               and_then (calculate_incident_solarpower cfg (cumsum dt) lattitude_array longitude_array)
                 (\<lambda>SolP.
               and_then (np_op (\<lambda>p t. p * t) P dt) (\<lambda>Pdt.
               and_then (np_op (\<lambda>s t. s * t) SolP dt) (\<lambda>Sdt.
               let energy_consumption = map (\<lambda>e. e / 3600) Pdt;
                   energy_gain = map (\<lambda>e. e / 3600) Sdt
               in and_then (np_op (\<lambda>c g. c - g) (cumsum energy_consumption) (cumsum energy_gain))
                    (\<lambda>net_energy_profile.
                  if BatteryCapacity cfg = 0 then Inl NonFinite
                  else
                    let battery = map (\<lambda>e. InitialBatteryCapacity cfg - e) net_energy_profile;
                        battery = InitialBatteryCapacity cfg # battery;
                        battery = map (\<lambda>b. b * 100 / BatteryCapacity cfg) battery
                    in Inr \<lparr> distances = 0 # cumsum segment_array,
                             velocity = velocity_profile,
                             acceleration_profile = None # map Some acceleration,
                             battery_profile = battery,
                             energy_consumption_profile = None # map Some energy_consumption,
                             energy_gain_profile = None # map Some energy_gain,
                             cumulative_time = 0 # cumsum dt \<rparr>))))))))"

section \<open>The loop body, element by element\<close>

text \<open>The quantities of one pass of the loop, named as in the source, for the proofs about
  the loop: \<open>winding_update_eq\<close> below shows that they are what \<open>winding_update\<close> computes.\<close>

definition remanence :: "config \<Rightarrow> real \<Rightarrow> real" where
  "remanence cfg T = 1.6716 - 0.0006 * (Ta cfg + T)"

definition resistance :: "real \<Rightarrow> real" where
  "resistance T = 0.00022425 * T - 0.00820525"

definition copper_loss :: "config \<Rightarrow> real \<Rightarrow> real \<Rightarrow> real" where
  "copper_loss cfg tou T = 3 * (0.561 * remanence cfg T * tou) ^ 2 * resistance T"

definition eddy_loss :: "config \<Rightarrow> real \<Rightarrow> real \<Rightarrow> real" where
  "eddy_loss cfg speed2 T =
     (9.602 * (1 / 10 ^ 6) * ((remanence cfg T / R_Out cfg) ^ 2) / resistance T) * speed2"

definition next_Tw :: "config \<Rightarrow> real \<Rightarrow> real \<Rightarrow> real \<Rightarrow> real" where
  "next_Tw cfg tou speed2 T = 0.455 * (copper_loss cfg tou T + eddy_loss cfg speed2 T) + Ta cfg"


definition settled :: "config \<Rightarrow> real \<Rightarrow> real \<Rightarrow> real \<Rightarrow> bool" where
  "settled cfg tou speed2 T \<longleftrightarrow> \<bar>next_Tw cfg tou speed2 T - T\<bar> < 0.001"

section \<open>Per-segment quantities\<close>

text \<open>The quantities of one route segment \<open>k\<close> (between the nodes \<open>k\<close> and \<open>k + 1\<close> of the
  velocity profile), written as formulas of the profile and the route. The lemmas
  \<open>calculate_power_Inr\<close> and \<open>battery_acc_eq\<close> relate them to what the functions compute.\<close>

definition seg_avg :: "ndarray \<Rightarrow> nat \<Rightarrow> real" where
  "seg_avg v k = (v ! k + v ! Suc k) / 2"

definition seg_dt :: "ndarray \<Rightarrow> ndarray \<Rightarrow> nat \<Rightarrow> real" where
  "seg_dt v seg k = 2 * seg ! k / (v ! k + v ! Suc k + EPSILON)"

definition seg_acc :: "ndarray \<Rightarrow> ndarray \<Rightarrow> nat \<Rightarrow> real" where
  "seg_acc v seg k = (v ! Suc k - v ! k) / seg_dt v seg k"

definition output_power :: "config \<Rightarrow> real \<Rightarrow> real" where
  "output_power cfg speed = (frictional_tou cfg + drag_coeff_wR2 cfg * speed ^ 2) * speed / R_Out cfg"

definition deliverable_acc :: "config \<Rightarrow> ndarray \<Rightarrow> nat \<Rightarrow> real" where
  "deliverable_acc cfg v k = max 0 (output_power cfg (seg_avg v k)) / (Mass cfg * seg_avg v k)"

definition torque :: "config \<Rightarrow> real \<Rightarrow> real" where
  "torque cfg speed = frictional_tou cfg + drag_coeff_wR2 cfg * speed ^ 2"

definition net_power_of :: "config \<Rightarrow> real \<Rightarrow> real \<Rightarrow> real \<Rightarrow> real \<Rightarrow> real \<Rightarrow> real" where
  "net_power_of cfg speed acc slope Pc Pe =
     max 0 (output_power cfg speed + speed ^ 2 * windage_losses_coeff_wR2 cfg + Pc + Pe
            + (Mass cfg * acc + slope_coeff cfg * sin (radians slope)) * speed)"

definition power_tail ::
  "config \<Rightarrow> ndarray \<Rightarrow> ndarray \<Rightarrow> ndarray \<Rightarrow> ndarray \<Rightarrow> ndarray \<Rightarrow> error + ndarray \<times> ndarray" where
  "power_tail cfg speed acc sl Pc Pe =
      and_then (np_op (\<lambda>a s. Mass cfg * a + slope_coeff cfg * sin (radians s)) acc sl) (\<lambda>force.
      and_then (np_op (\<lambda>f v. f * v) force speed) (\<lambda>P_acc.
      and_then (np_op (\<lambda>l p. l + p)
        (map (\<lambda>(a, b, c, d). a + b + c + d)
          (zip (map (\<lambda>(t, v). t * v / R_Out cfg)
                 (zip (map (\<lambda>d. frictional_tou cfg + d)
                        (map (\<lambda>s. drag_coeff_wR2 cfg * s) (map (\<lambda>v. v ^ 2) speed))) speed))
            (zip (map (\<lambda>s. s * windage_losses_coeff_wR2 cfg) (map (\<lambda>v. v ^ 2) speed)) (zip Pc Pe))))
        P_acc) (\<lambda>P_net.
      Inr (clip0 P_net,
           map (\<lambda>(t, v). t * v / R_Out cfg)
             (zip (map (\<lambda>d. frictional_tou cfg + d)
                    (map (\<lambda>s. drag_coeff_wR2 cfg * s) (map (\<lambda>v. v ^ 2) speed))) speed)))))"

definition elapsed :: "ndarray \<Rightarrow> ndarray \<Rightarrow> nat \<Rightarrow> real" where
  "elapsed v seg k = (\<Sum>j<Suc k. seg_dt v seg j)"

definition solar_power :: "config \<Rightarrow> ndarray \<Rightarrow> ndarray \<Rightarrow> nat \<Rightarrow> real" where
  "solar_power cfg v seg k =
     calc_solar_irradiance (RaceStartTime cfg + np_mod (elapsed v seg k) (DT cfg)) * power_coeff cfg"

definition battery_level :: "config \<Rightarrow> ndarray \<Rightarrow> ndarray \<Rightarrow> ndarray \<Rightarrow> nat \<Rightarrow> real" where
  "battery_level cfg v seg P k =
     InitialBatteryCapacity cfg - (\<Sum>j<Suc k. (P ! j - solar_power cfg v seg j) * seg_dt v seg j) / 3600"

text \<open>The constants of config.py that \<open>calculate_power\<close> reads, at their configured
  values.\<close>

definition car_as_configured :: "config \<Rightarrow> bool" where
  "car_as_configured cfg \<longleftrightarrow>
     Ta cfg = 295 \<and> R_Out cfg = 0.2785 \<and> Mass cfg = 260 \<and> GravityAcc cfg = 9.81 \<and>
     ZeroSpeedCrr cfg = 0.0045 \<and> Cd cfg = 0.092 \<and> FrontalArea cfg = 1 \<and> AirDensity cfg = 1.192"

text \<open>The array \<open>battery_profile\<close> of \<open>battery_acc_constraint_func\<close>, written by index:
  \<open>InitialBatteryCapacity - cumsum ((P - SolP) * dt / 3600)\<close>.\<close>

definition battery_trajectory :: "config \<Rightarrow> ndarray \<Rightarrow> ndarray \<Rightarrow> ndarray \<Rightarrow> ndarray" where
  "battery_trajectory cfg P SolP dt =
     map (\<lambda>k. InitialBatteryCapacity cfg - (\<Sum>j<Suc k. (P ! j - SolP ! j) * dt ! j) / 3600)
       [0..<length dt]"

text \<open>config.py with the initial charge lowered to 19 percent of the capacity, which is
  below the safe level of 20 percent.\<close>

definition low_battery_config :: config where
  "low_battery_config = default_config\<lparr>InitialBatteryCapacity := 3055 * 0.19\<rparr>"

text \<open>The divisor \<open>Mass * avg_speed\<close> of the acceleration margin in
  \<open>battery_acc_constraint_func\<close>.\<close>

definition acceleration_divisor :: "config \<Rightarrow> ndarray \<Rightarrow> ndarray" where
  "acceleration_divisor cfg v_prof =
     map (\<lambda>a. Mass cfg * a) (map (\<lambda>(a, b). (a + b) / 2) (zip (butlast v_prof) (tl v_prof)))"

text \<open>A profile respects the \<open>bounds\<close> that model.py hands to the optimiser: one pair
  \<open>(lower, upper)\<close> per node.\<close>

definition within_bounds :: "(real \<times> real) list \<Rightarrow> ndarray \<Rightarrow> bool" where
  "within_bounds bounds x \<longleftrightarrow> list_all2 (\<lambda>(lower, upper) xi. lower \<le> xi \<and> xi \<le> upper) bounds x"

section \<open>Basic facts about the array operations\<close>

lemma broadcast_same: "length xs = length ys \<Longrightarrow> broadcast xs ys = Inr (zip xs ys)"
  by (simp add: broadcast_def)

lemma np_op_same:
  "length xs = length ys \<Longrightarrow> np_op f xs ys = Inr (map (\<lambda>(x, y). f x y) (zip xs ys))"
  by (simp add: np_op_def broadcast_same and_then_def)

lemma and_then_Inr: "and_then m f = Inr y \<longleftrightarrow> (\<exists>x. m = Inr x \<and> f x = Inr y)"
  by (cases m) (simp_all add: and_then_def)

lemma clip0_nonneg: "p \<in> set (clip0 xs) \<Longrightarrow> 0 \<le> p"
  by (auto simp: clip0_def)

lemma last_cumsum_from: "last (acc # cumsum_from acc xs) = acc + sum_list xs"
  by (induction xs arbitrary: acc) simp_all

section \<open>The winding temperature iteration\<close>

lemma winding_update_eq:
  "winding_update cfg tou speed2 T =
     (copper_loss cfg tou T, eddy_loss cfg speed2 T, next_Tw cfg tou speed2 T)"
  by (simp add: winding_update_def Let_def copper_loss_def eddy_loss_def next_Tw_def
        remanence_def resistance_def)

lemma remanence_range:
  assumes "Ta cfg = 295" "295 \<le> T" "T \<le> 322"
  shows "1.3 \<le> remanence cfg T" "remanence cfg T \<le> 1.32"
  using assms by (simp_all add: remanence_def field_simps)

lemma resistance_range:
  assumes "295 \<le> T" "T \<le> 322"
  shows "0.0579 \<le> resistance T" "resistance T \<le> 0.066"
  using assms by (simp_all add: resistance_def field_simps)

lemma copper_loss_range:
  assumes "Ta cfg = 295" "295 \<le> T" "T \<le> 322" "0 \<le> tou" "tou \<le> 22"
  shows "0 \<le> copper_loss cfg tou T" "copper_loss cfg tou T \<le> 53"
proof -
  define b where "b = remanence cfg T"
  define r where "r = resistance T"
  define x where "x = (b * tou) ^ 2"
  have b: "0 \<le> b" "b \<le> 1.32" using remanence_range[OF assms(1-3)] by (simp_all add: b_def)
  have r: "0 \<le> r" "r \<le> 0.066" using resistance_range[OF assms(2,3)] by (simp_all add: r_def)
  have "b * tou \<le> 1.32 * 22" using b assms(4,5) by (intro mult_mono) simp_all
  moreover have "0 \<le> b * tou" using b assms(4) by simp
  ultimately have "x \<le> (1.32 * 22) ^ 2" unfolding x_def by (intro power_mono)
  moreover have "0 \<le> x" by (simp add: x_def)
  ultimately have "x * r \<le> (1.32 * 22) ^ 2 * 0.066" using r by (intro mult_mono) simp_all
  moreover have "0 \<le> x * r" using r \<open>0 \<le> x\<close> by simp
  moreover have "copper_loss cfg tou T = 3 * 0.561 ^ 2 * (x * r)"
    by (simp add: copper_loss_def x_def b_def r_def power2_eq_square)
  ultimately show "0 \<le> copper_loss cfg tou T" "copper_loss cfg tou T \<le> 53"
    by (simp_all add: power2_eq_square)
qed

lemma eddy_loss_range:
  assumes "Ta cfg = 295" "R_Out cfg = 0.2785" "295 \<le> T" "T \<le> 322" "0 \<le> s2" "s2 \<le> 1225"
  shows "0 \<le> eddy_loss cfg s2 T" "eddy_loss cfg s2 T \<le> 5"
proof -
  define b where "b = remanence cfg T"
  define r where "r = resistance T"
  define x where "x = b ^ 2 / r"
  have b: "0 \<le> b" "b \<le> 1.32" using remanence_range[OF assms(1,3,4)] by (simp_all add: b_def)
  have r: "0.0579 \<le> r" using resistance_range[OF assms(3,4)] by (simp_all add: r_def)
  have "b ^ 2 \<le> 1.32 ^ 2" using b by (intro power_mono)
  then have "x \<le> 1.32 ^ 2 / 0.0579" unfolding x_def using r by (intro frac_le) simp_all
  moreover have "0 \<le> x" using r by (simp add: x_def)
  ultimately have "x * s2 \<le> 1.32 ^ 2 / 0.0579 * 1225" using assms(5,6) by (intro mult_mono) simp_all
  moreover have "0 \<le> x * s2" using \<open>0 \<le> x\<close> assms(5) by simp
  moreover have "eddy_loss cfg s2 T = 9.602 / 10 ^ 6 / 0.2785 ^ 2 * (x * s2)"
    by (simp add: eddy_loss_def assms(2) power_divide x_def b_def r_def)
  ultimately show "0 \<le> eddy_loss cfg s2 T" "eddy_loss cfg s2 T \<le> 5"
    by (simp_all add: power2_eq_square)
qed

lemma next_Tw_range:
  assumes "Ta cfg = 295" "R_Out cfg = 0.2785" "295 \<le> T" "T \<le> 322"
    "0 \<le> tou" "tou \<le> 22" "0 \<le> s2" "s2 \<le> 1225"
  shows "295 \<le> next_Tw cfg tou s2 T" "next_Tw cfg tou s2 T \<le> 322"
  using copper_loss_range[OF assms(1,3,4,5,6)] eddy_loss_range[OF assms(1,2,3,4,7,8)] assms(1)
  by (simp_all add: next_Tw_def)

lemma product_diff_bound:
  fixes b b' r r' :: real
  assumes b: "0 \<le> b" "b \<le> bm" "0 \<le> b'" "b' \<le> bm"
    and r: "0 \<le> r" "r \<le> rm"
    and d: "\<bar>b - b'\<bar> \<le> \<beta> * a" "\<bar>r - r'\<bar> \<le> \<rho> * a"
    and nn: "0 \<le> a" "0 \<le> \<beta>" "0 \<le> \<rho>"
  shows "\<bar>b ^ 2 * r - b' ^ 2 * r'\<bar> \<le> (\<beta> * (2 * bm) * rm + bm ^ 2 * \<rho>) * a"
proof -
  have split: "b ^ 2 * r - b' ^ 2 * r' = (b - b') * ((b + b') * r) + b' ^ 2 * (r - r')"
    by (simp add: algebra_simps power2_eq_square)
  have "\<bar>(b - b') * ((b + b') * r)\<bar> = \<bar>b - b'\<bar> * ((b + b') * r)"
    using b r by (simp add: abs_mult)
  also have "\<dots> \<le> (\<beta> * a) * ((2 * bm) * rm)"
    using b r d nn by (intro mult_mono) auto
  finally have p: "\<bar>(b - b') * ((b + b') * r)\<bar> \<le> (\<beta> * a) * ((2 * bm) * rm)" .
  have "b' ^ 2 \<le> bm ^ 2" using b by (intro power_mono)
  then have "b' ^ 2 * \<bar>r - r'\<bar> \<le> bm ^ 2 * (\<rho> * a)"
    using d nn by (intro mult_mono) auto
  then have q: "\<bar>b' ^ 2 * (r - r')\<bar> \<le> bm ^ 2 * (\<rho> * a)"
    by (simp add: abs_mult)
  have "\<bar>b ^ 2 * r - b' ^ 2 * r'\<bar> \<le> \<bar>(b - b') * ((b + b') * r)\<bar> + \<bar>b' ^ 2 * (r - r')\<bar>"
    unfolding split by (rule abs_triangle_ineq)
  also have "\<dots> \<le> (\<beta> * a) * ((2 * bm) * rm) + bm ^ 2 * (\<rho> * a)"
    using p q by (rule add_mono)
  also have "\<dots> = (\<beta> * (2 * bm) * rm + bm ^ 2 * \<rho>) * a"
    by (simp add: algebra_simps)
  finally show ?thesis .
qed

lemma quotient_diff_bound:
  fixes b b' r r' :: real
  assumes b: "0 \<le> b" "b \<le> bm" "0 \<le> b'" "b' \<le> bm"
    and r: "0 < rl" "rl \<le> r" "rl \<le> r'"
    and d: "\<bar>b - b'\<bar> \<le> \<beta> * a" "\<bar>r - r'\<bar> \<le> \<rho> * a"
    and nn: "0 \<le> a" "0 \<le> \<beta>" "0 \<le> \<rho>"
  shows "\<bar>b ^ 2 / r - b' ^ 2 / r'\<bar> \<le> (\<beta> * (2 * bm) / rl + bm ^ 2 * \<rho> / (rl * rl)) * a"
proof -
  have pos: "0 < r" "0 < r'" using r by simp_all
  have split: "b ^ 2 / r - b' ^ 2 / r' = (b - b') * ((b + b') / r) + b' ^ 2 * ((r' - r) / (r * r'))"
    using pos by (simp add: field_simps power2_eq_square)
  have "(b + b') / r \<le> (2 * bm) / rl"
    using b r by (intro frac_le) auto
  moreover have "0 \<le> (b + b') / r" using b pos by simp
  ultimately have "\<bar>b - b'\<bar> * ((b + b') / r) \<le> (\<beta> * a) * ((2 * bm) / rl)"
    using d nn by (intro mult_mono) auto
  moreover have "\<bar>(b - b') * ((b + b') / r)\<bar> = \<bar>b - b'\<bar> * ((b + b') / r)"
    using b pos by (simp add: abs_mult)
  ultimately have p: "\<bar>(b - b') * ((b + b') / r)\<bar> \<le> (\<beta> * a) * ((2 * bm) / rl)" by simp
  have "rl * rl \<le> r * r'" using r by (intro mult_mono) auto
  moreover have "\<bar>r' - r\<bar> \<le> \<rho> * a" using d by (simp add: abs_minus_commute)
  ultimately have "\<bar>r' - r\<bar> / (r * r') \<le> (\<rho> * a) / (rl * rl)"
    using r by (intro frac_le) auto
  moreover have "b' ^ 2 \<le> bm ^ 2" using b by (intro power_mono)
  ultimately have "b' ^ 2 * (\<bar>r' - r\<bar> / (r * r')) \<le> bm ^ 2 * ((\<rho> * a) / (rl * rl))"
    using pos by (intro mult_mono) auto
  moreover have "\<bar>b' ^ 2 * ((r' - r) / (r * r'))\<bar> = b' ^ 2 * (\<bar>r' - r\<bar> / (r * r'))"
    using pos by (simp add: abs_mult)
  ultimately have q: "\<bar>b' ^ 2 * ((r' - r) / (r * r'))\<bar> \<le> bm ^ 2 * ((\<rho> * a) / (rl * rl))" by simp
  have "\<bar>b ^ 2 / r - b' ^ 2 / r'\<bar>
      \<le> \<bar>(b - b') * ((b + b') / r)\<bar> + \<bar>b' ^ 2 * ((r' - r) / (r * r'))\<bar>"
    unfolding split by (rule abs_triangle_ineq)
  also have "\<dots> \<le> (\<beta> * a) * ((2 * bm) / rl) + bm ^ 2 * ((\<rho> * a) / (rl * rl))"
    using p q by (rule add_mono)
  also have "\<dots> = (\<beta> * (2 * bm) / rl + bm ^ 2 * \<rho> / (rl * rl)) * a"
    by (simp add: algebra_simps)
  finally show ?thesis .
qed

lemma weighted_sum_bound:
  fixes K C u w :: real
  assumes "0 \<le> K" "K \<le> Km" "0 \<le> C" "C \<le> Cm" "\<bar>u\<bar> \<le> U * a" "\<bar>w\<bar> \<le> W * a"
    "0 \<le> a" "0 \<le> U" "0 \<le> W"
  shows "\<bar>K * u + C * w\<bar> \<le> (Km * U + Cm * W) * a"
proof -
  have "\<bar>K * u\<bar> = K * \<bar>u\<bar>" using assms(1) by (simp add: abs_mult)
  also have "\<dots> \<le> Km * (U * a)" using assms by (intro mult_mono) auto
  finally have p: "\<bar>K * u\<bar> \<le> Km * (U * a)" .
  have "\<bar>C * w\<bar> = C * \<bar>w\<bar>" using assms(3) by (simp add: abs_mult)
  also have "\<dots> \<le> Cm * (W * a)" using assms by (intro mult_mono) auto
  finally have q: "\<bar>C * w\<bar> \<le> Cm * (W * a)" .
  have "\<bar>K * u + C * w\<bar> \<le> \<bar>K * u\<bar> + \<bar>C * w\<bar>" by (rule abs_triangle_ineq)
  also have "\<dots> \<le> Km * (U * a) + Cm * (W * a)" using p q by (rule add_mono)
  also have "\<dots> = (Km * U + Cm * W) * a" by (simp add: algebra_simps)
  finally show ?thesis .
qed

lemma abs_scale: "0 \<le> c \<Longrightarrow> \<bar>c * (x::real)\<bar> = c * \<bar>x\<bar>"
  by (simp add: abs_mult)

lemma next_Tw_contraction:
  assumes cfg: "Ta cfg = 295" "R_Out cfg = 0.2785"
    and T: "295 \<le> T" "T \<le> 322" and T': "295 \<le> T'" "T' \<le> 322"
    and tou: "0 \<le> tou" "tou \<le> 22" and s2: "0 \<le> s2" "s2 \<le> 1225"
  shows "\<bar>next_Tw cfg tou s2 T - next_Tw cfg tou s2 T'\<bar> \<le> \<bar>T - T'\<bar> / 2"
proof -
  define b where "b = remanence cfg T"
  define b' where "b' = remanence cfg T'"
  define r where "r = resistance T"
  define r' where "r' = resistance T'"
  define a where "a = \<bar>T - T'\<bar>"
  define K where "K = 3 * 0.561 ^ 2 * tou ^ 2"
  define C where "C = 9.602 / 10 ^ 6 / 0.2785 ^ 2 * s2"
  have b: "0 \<le> b" "b \<le> 1.32" "0 \<le> b'" "b' \<le> 1.32"
    using remanence_range[OF cfg(1) T] remanence_range[OF cfg(1) T'] by (simp_all add: b_def b'_def)
  have r: "0.0579 \<le> r" "r \<le> 0.066" "0.0579 \<le> r'" "0 \<le> r"
    using resistance_range[OF T] resistance_range[OF T'] by (simp_all add: r_def r'_def)
  have eb: "b - b' = 0.0006 * (T' - T)" by (simp add: b_def b'_def remanence_def field_simps)
  have "\<bar>b - b'\<bar> = \<bar>0.0006 * (T' - T)\<bar>" by (simp only: eb)
  also have "\<dots> = 0.0006 * \<bar>T' - T\<bar>" by (rule abs_scale) simp
  also have "\<bar>T' - T\<bar> = a" unfolding a_def by (rule abs_minus_commute)
  finally have db: "\<bar>b - b'\<bar> \<le> 0.0006 * a" by simp
  have er: "r - r' = 0.00022425 * (T - T')" by (simp add: r_def r'_def resistance_def field_simps)
  have "\<bar>r - r'\<bar> = \<bar>0.00022425 * (T - T')\<bar>" by (simp only: er)
  also have "\<dots> = 0.00022425 * \<bar>T - T'\<bar>" by (rule abs_scale) simp
  finally have dr: "\<bar>r - r'\<bar> \<le> 0.00022425 * a" by (simp add: a_def)
  have a: "0 \<le> a" by (simp add: a_def)
  have u: "\<bar>b ^ 2 * r - b' ^ 2 * r'\<bar> \<le> (0.0006 * (2 * 1.32) * 0.066 + 1.32 ^ 2 * 0.00022425) * a"
    by (rule product_diff_bound[OF b r(4,2) db dr a]) simp_all
  have w: "\<bar>b ^ 2 / r - b' ^ 2 / r'\<bar>
      \<le> (0.0006 * (2 * 1.32) / 0.0579 + 1.32 ^ 2 * 0.00022425 / (0.0579 * 0.0579)) * a"
    by (rule quotient_diff_bound[OF b _ r(1,3) db dr a]) simp_all
  have "tou ^ 2 \<le> 22 ^ 2" using tou by (intro power_mono)
  then have K: "0 \<le> K" "K \<le> 3 * 0.561 ^ 2 * 22 ^ 2" by (simp_all add: K_def)
  have c0: "0 \<le> (9.602 / 10 ^ 6 / 0.2785 ^ 2 :: real)" by simp
  have C: "0 \<le> C" "C \<le> 9.602 / 10 ^ 6 / 0.2785 ^ 2 * 1225"
    unfolding C_def using mult_nonneg_nonneg[OF c0 s2(1)] mult_left_mono[OF s2(2) c0] by blast+
  have all: "\<bar>K * (b ^ 2 * r - b' ^ 2 * r') + C * (b ^ 2 / r - b' ^ 2 / r')\<bar>
      \<le> (3 * 0.561 ^ 2 * 22 ^ 2 * (0.0006 * (2 * 1.32) * 0.066 + 1.32 ^ 2 * 0.00022425)
         + 9.602 / 10 ^ 6 / 0.2785 ^ 2 * 1225
           * (0.0006 * (2 * 1.32) / 0.0579 + 1.32 ^ 2 * 0.00022425 / (0.0579 * 0.0579))) * a"
    by (rule weighted_sum_bound[OF K C u w a]) simp_all
  have num: "(0.455::real) * (3 * 0.561 ^ 2 * 22 ^ 2 * (0.0006 * (2 * 1.32) * 0.066 + 1.32 ^ 2 * 0.00022425)
         + 9.602 / 10 ^ 6 / 0.2785 ^ 2 * 1225
           * (0.0006 * (2 * 1.32) / 0.0579 + 1.32 ^ 2 * 0.00022425 / (0.0579 * 0.0579))) \<le> 1 / 2"
    by (simp add: power2_eq_square)
  have cl: "copper_loss cfg tou T = K * (b ^ 2 * r)" "copper_loss cfg tou T' = K * (b' ^ 2 * r')"
    by (simp_all add: copper_loss_def K_def b_def b'_def r_def r'_def power2_eq_square)
  have el: "eddy_loss cfg s2 T = C * (b ^ 2 / r)" "eddy_loss cfg s2 T' = C * (b' ^ 2 / r')"
    by (simp_all add: eddy_loss_def cfg(2) power_divide C_def b_def b'_def r_def r'_def)
  have eq: "next_Tw cfg tou s2 T - next_Tw cfg tou s2 T'
      = 0.455 * (K * (b ^ 2 * r - b' ^ 2 * r') + C * (b ^ 2 / r - b' ^ 2 / r'))"
    unfolding next_Tw_def cl el by (simp add: algebra_simps)
  have "\<bar>next_Tw cfg tou s2 T - next_Tw cfg tou s2 T'\<bar>
      = 0.455 * \<bar>K * (b ^ 2 * r - b' ^ 2 * r') + C * (b ^ 2 / r - b' ^ 2 / r')\<bar>"
    unfolding eq by (rule abs_scale) simp
  also have "\<dots> \<le> 0.455 * ((3 * 0.561 ^ 2 * 22 ^ 2 * (0.0006 * (2 * 1.32) * 0.066 + 1.32 ^ 2 * 0.00022425)
         + 9.602 / 10 ^ 6 / 0.2785 ^ 2 * 1225
           * (0.0006 * (2 * 1.32) / 0.0579 + 1.32 ^ 2 * 0.00022425 / (0.0579 * 0.0579))) * a)"
    using all by (intro mult_left_mono) simp_all
  also have "\<dots> \<le> 1 / 2 * a"
    using mult_right_mono[OF num a] by (simp only: mult.assoc)
  finally show ?thesis by (simp add: a_def)
qed

lemma thermal_loop_step:
  assumes len: "length tou = n" "length s2 = n" "length Tw = n"
    and nz: "\<forall>k<n. resistance (Tw ! k) \<noteq> 0"
  shows "thermal_loop cfg tou s2 Tw =
    (if \<forall>k<n. settled cfg (tou ! k) (s2 ! k) (Tw ! k)
     then Some (Inr (map (\<lambda>k. copper_loss cfg (tou ! k) (Tw ! k)) [0..<n],
                     map (\<lambda>k. eddy_loss cfg (s2 ! k) (Tw ! k)) [0..<n]))
     else thermal_loop cfg tou s2
            (map (\<lambda>k. if settled cfg (tou ! k) (s2 ! k) (Tw ! k)
                        then Tw ! k else next_Tw cfg (tou ! k) (s2 ! k) (Tw ! k)) [0..<n]))"
proof -
  define r where "r = map (\<lambda>(t, s, T). winding_update cfg t s T) (zip tou (zip s2 Tw))"
  define nx where "nx = (\<lambda>k. next_Tw cfg (tou ! k) (s2 ! k) (Tw ! k))"
  define st where "st = (\<lambda>k. settled cfg (tou ! k) (s2 ! k) (Tw ! k))"
  have r: "r = map (\<lambda>k. (copper_loss cfg (tou ! k) (Tw ! k), eddy_loss cfg (s2 ! k) (Tw ! k), nx k)) [0..<n]"
    unfolding r_def nx_def by (rule nth_equalityI) (simp_all add: len winding_update_eq)
  have Pc: "map fst r = map (\<lambda>k. copper_loss cfg (tou ! k) (Tw ! k)) [0..<n]"
    by (simp add: r comp_def)
  have Pe: "map (\<lambda>x. fst (snd x)) r = map (\<lambda>k. eddy_loss cfg (s2 ! k) (Tw ! k)) [0..<n]"
    by (simp add: r comp_def)
  have Tn: "map (\<lambda>x. snd (snd x)) r = map nx [0..<n]"
    by (simp add: r comp_def)
  have cond: "map (\<lambda>(t, ti). \<bar>t - ti\<bar> < 0.001) (zip (map nx [0..<n]) Tw) = map st [0..<n]"
    by (rule nth_equalityI) (simp_all add: len st_def nx_def settled_def)
  have all: "list_all (\<lambda>c. c) (map st [0..<n]) \<longleftrightarrow> (\<forall>k<n. st k)"
    by (auto simp: list_all_iff)
  have new: "map (\<lambda>(c, ti, t). if c then ti else t) (zip (map st [0..<n]) (zip Tw (map nx [0..<n])))
      = map (\<lambda>k. if st k then Tw ! k else nx k) [0..<n]"
    by (rule nth_equalityI) (simp_all add: len)
  have ok: "\<not> list_ex (\<lambda>T. 0.00022425 * T - 0.00820525 = 0) Tw"
    using nz len by (auto simp: list_ex_iff in_set_conv_nth resistance_def)
  show ?thesis
    apply (subst thermal_loop.simps)
    apply (simp only: ok if_False Let_def r_def[symmetric] Pc Pe Tn cond all new)
    apply (simp only: nx_def st_def)
    done
qed

lemma thermal_loop_converges:
  assumes cfg: "Ta cfg = 295" "R_Out cfg = 0.2785"
    and len: "length tou = n" "length s2 = n"
    and tou: "\<forall>k<n. 0 \<le> tou ! k \<and> tou ! k \<le> 22"
    and s2: "\<forall>k<n. 0 \<le> s2 ! k \<and> s2 ! k \<le> 1225"
  shows "length Tw = n \<Longrightarrow>
    (\<forall>k<n. 295 \<le> Tw ! k \<and> Tw ! k \<le> 322 \<and>
       (settled cfg (tou ! k) (s2 ! k) (Tw ! k) \<or>
        \<bar>next_Tw cfg (tou ! k) (s2 ! k) (Tw ! k) - Tw ! k\<bar> \<le> 0.0009 * 2 ^ m)) \<Longrightarrow>
    \<exists>Tf. length Tf = n \<and> (\<forall>k<n. 295 \<le> Tf ! k \<and> Tf ! k \<le> 322) \<and>
      thermal_loop cfg tou s2 Tw =
        Some (Inr (map (\<lambda>k. copper_loss cfg (tou ! k) (Tf ! k)) [0..<n],
                   map (\<lambda>k. eddy_loss cfg (s2 ! k) (Tf ! k)) [0..<n]))"
proof (induction m arbitrary: Tw)
  case 0
  have nz: "\<forall>k<n. resistance (Tw ! k) \<noteq> 0"
    using 0(2) resistance_range(1) by fastforce
  have conv: "\<forall>k<n. settled cfg (tou ! k) (s2 ! k) (Tw ! k)"
    using 0(2) by (fastforce simp: settled_def)
  show ?case
    using thermal_loop_step[OF len 0(1) nz, of cfg] conv 0 by auto
next
  case (Suc m)
  let ?nx = "\<lambda>k. next_Tw cfg (tou ! k) (s2 ! k) (Tw ! k)"
  have nz: "\<forall>k<n. resistance (Tw ! k) \<noteq> 0"
    using Suc.prems(2) resistance_range(1) by fastforce
  show ?case
  proof (cases "\<forall>k<n. settled cfg (tou ! k) (s2 ! k) (Tw ! k)")
    case True
    then show ?thesis
      using thermal_loop_step[OF len Suc.prems(1) nz, of cfg] Suc.prems by auto
  next
    case False
    define Tw' where "Tw' = map (\<lambda>k. if settled cfg (tou ! k) (s2 ! k) (Tw ! k) then Tw ! k else ?nx k) [0..<n]"
    have l': "length Tw' = n" by (simp add: Tw'_def)
    have inv': "295 \<le> Tw' ! k \<and> Tw' ! k \<le> 322 \<and>
       (settled cfg (tou ! k) (s2 ! k) (Tw' ! k) \<or>
        \<bar>next_Tw cfg (tou ! k) (s2 ! k) (Tw' ! k) - Tw' ! k\<bar> \<le> 0.0009 * 2 ^ m)" if k: "k < n" for k
    proof (cases "settled cfg (tou ! k) (s2 ! k) (Tw ! k)")
      case True
      then have "Tw' ! k = Tw ! k" using k by (simp add: Tw'_def)
      then show ?thesis using True Suc.prems(2) k by simp
    next
      case nc: False
      have e: "Tw' ! k = ?nx k" using k nc by (simp add: Tw'_def)
      have T: "295 \<le> Tw ! k" "Tw ! k \<le> 322" using Suc.prems(2) k by auto
      have t: "0 \<le> tou ! k" "tou ! k \<le> 22" using tou k by auto
      have s: "0 \<le> s2 ! k" "s2 ! k \<le> 1225" using s2 k by auto
      have N: "295 \<le> ?nx k" "?nx k \<le> 322"
        using next_Tw_range[OF cfg T t s] by auto
      have big: "\<bar>?nx k - Tw ! k\<bar> \<le> 0.0009 * 2 ^ Suc m"
        using Suc.prems(2) k nc by blast
      have "\<bar>next_Tw cfg (tou ! k) (s2 ! k) (?nx k) - ?nx k\<bar> \<le> \<bar>?nx k - Tw ! k\<bar> / 2"
        by (rule next_Tw_contraction[OF cfg N T t s])
      also have "\<dots> \<le> 0.0009 * 2 ^ m" using big by simp
      finally show ?thesis using N e by simp
    qed
    from Suc.IH[OF l'] inv' obtain Tf where Tf: "length Tf = n"
      "\<forall>k<n. 295 \<le> Tf ! k \<and> Tf ! k \<le> 322"
      "thermal_loop cfg tou s2 Tw' =
        Some (Inr (map (\<lambda>k. copper_loss cfg (tou ! k) (Tf ! k)) [0..<n],
                   map (\<lambda>k. eddy_loss cfg (s2 ! k) (Tf ! k)) [0..<n]))"
      by blast
    have "thermal_loop cfg tou s2 Tw = thermal_loop cfg tou s2 Tw'"
      using thermal_loop_step[OF len Suc.prems(1) nz, of cfg] False unfolding Tw'_def by simp
    then show ?thesis using Tf by auto
  qed
qed

lemma thermal_loop_lengths_aux:
  assumes "thermal_loop cfg tou s2 Tw = Some y"
  shows "length tou = length Tw \<longrightarrow> length s2 = length Tw \<longrightarrow>
         (\<forall>Pc Pe. y = Inr (Pc, Pe) \<longrightarrow> length Pc = length Tw \<and> length Pe = length Tw)"
proof (rule thermal_loop.raw_induct[where P = "\<lambda>cfg tou s2 Tw y.
    length tou = length Tw \<longrightarrow> length s2 = length Tw \<longrightarrow>
    (\<forall>Pc Pe. y = Inr (Pc, Pe) \<longrightarrow> length Pc = length Tw \<and> length Pe = length Tw)", OF _ assms])
  fix loop cfg tou s2 Tw y
  assume IH: "\<And>cfg tou s2 Tw y. loop cfg tou s2 Tw = Some y \<Longrightarrow>
      length tou = length Tw \<longrightarrow> length s2 = length Tw \<longrightarrow>
      (\<forall>Pc Pe. y = Inr (Pc, Pe) \<longrightarrow> length Pc = length Tw \<and> length Pe = length Tw)"
    and step: "(if list_ex (\<lambda>T. 0.00022425 * T - 0.00820525 = 0) Tw then Some (Inl NonFinite)
      else
        let r = map (\<lambda>(t, s, T). winding_update cfg t s T) (zip tou (zip s2 Tw));
            Pc = map fst r;
            Pe = map (\<lambda>x. fst (snd x)) r;
            Tw' = map (\<lambda>x. snd (snd x)) r;
            cond = map (\<lambda>(t, ti). \<bar>t - ti\<bar> < 0.001) (zip Tw' Tw)
        in if list_all (\<lambda>c. c) cond then Some (Inr (Pc, Pe))
           else loop cfg tou s2
                  (map (\<lambda>(c, ti, t). if c then ti else t) (zip cond (zip Tw Tw')))) = Some y"
  show "length tou = length Tw \<longrightarrow> length s2 = length Tw \<longrightarrow>
    (\<forall>Pc Pe. y = Inr (Pc, Pe) \<longrightarrow> length Pc = length Tw \<and> length Pe = length Tw)"
  proof (intro impI allI)
    fix Pc Pe
    assume l: "length tou = length Tw" "length s2 = length Tw" and y: "y = Inr (Pc, Pe)"
    define r where "r = map (\<lambda>(t, s, T). winding_update cfg t s T) (zip tou (zip s2 Tw))"
    define cond where "cond = map (\<lambda>(t, ti). \<bar>t - ti\<bar> < 0.001) (zip (map (\<lambda>x. snd (snd x)) r) Tw)"
    define Tw' where "Tw' = map (\<lambda>(c, ti, t). if c then ti else t) (zip cond (zip Tw (map (\<lambda>x. snd (snd x)) r)))"
    have lr: "length r = length Tw" by (simp add: r_def l)
    have lc: "length cond = length Tw" by (simp add: cond_def lr)
    have l': "length Tw' = length Tw" by (simp add: Tw'_def lr lc)
    from step have body: "(if list_ex (\<lambda>T. 0.00022425 * T - 0.00820525 = 0) Tw then Some (Inl NonFinite)
        else if list_all (\<lambda>c. c) cond then Some (Inr (map fst r, map (\<lambda>x. fst (snd x)) r))
        else loop cfg tou s2 Tw') = Some y"
      by (simp only: Let_def r_def cond_def Tw'_def)
    show "length Pc = length Tw \<and> length Pe = length Tw"
    proof (cases "list_all (\<lambda>c. c) cond")
      case True
      with body y show ?thesis by (auto simp: lr split: if_splits)
    next
      case False
      with body y have "loop cfg tou s2 Tw' = Some (Inr (Pc, Pe))" by (auto split: if_splits)
      from IH[OF this] show ?thesis using l l' by simp
    qed
  qed
qed

lemma thermal_loop_lengths:
  assumes "thermal_loop cfg tou s2 Tw = Some (Inr (Pc, Pe))" "length tou = length Tw" "length s2 = length Tw"
  shows "length Pc = length Tw" "length Pe = length Tw"
  using thermal_loop_lengths_aux[OF assms(1)] assms(2,3) by simp_all

section \<open>The arrays by index\<close>

lemma np_op_nth:
  assumes "length xs = n" "length ys = n"
  shows "np_op f xs ys = Inr (map (\<lambda>k. f (xs ! k) (ys ! k)) [0..<n])"
proof -
  have "map (\<lambda>(x, y). f x y) (zip xs ys) = map (\<lambda>k. f (xs ! k) (ys ! k)) [0..<n]"
    by (rule nth_equalityI) (simp_all add: assms)
  then show ?thesis using assms by (simp add: np_op_same)
qed

lemma np_div_nth:
  assumes "length xs = n" "length ys = n"
  shows "np_div xs ys =
    (if \<exists>k<n. ys ! k = 0 then Inl NonFinite else Inr (map (\<lambda>k. xs ! k / ys ! k) [0..<n]))"
proof -
  have m: "map (\<lambda>(x, y). x / y) (zip xs ys) = map (\<lambda>k. xs ! k / ys ! k) [0..<n]"
    by (rule nth_equalityI) (simp_all add: assms)
  have e: "list_ex (\<lambda>(x, y). y = 0) (zip xs ys) \<longleftrightarrow> (\<exists>k<n. ys ! k = 0)"
    using assms by (auto simp: list_ex_iff set_zip)
  show ?thesis using assms by (simp add: np_div_def broadcast_same and_then_def m e)
qed

lemma calculate_dt_nth:
  assumes "length start = n" "length stop = n" "length dx = n"
  shows "calculate_dt start stop dx =
    (if \<exists>k<n. start ! k + stop ! k + EPSILON = 0 then Inl NonFinite
     else Inr (map (\<lambda>k. 2 * dx ! k / (start ! k + stop ! k + EPSILON)) [0..<n]))"
proof -
  have "map (\<lambda>k. map ((*) 2) dx ! k / map (\<lambda>v. v + EPSILON) (map (\<lambda>k. start ! k + stop ! k) [0..<n]) ! k) [0..<n]
      = map (\<lambda>k. 2 * dx ! k / (start ! k + stop ! k + EPSILON)) [0..<n]"
    by (rule nth_equalityI) (simp_all add: assms)
  moreover have "(\<exists>k<n. map (\<lambda>v. v + EPSILON) (map (\<lambda>k. start ! k + stop ! k) [0..<n]) ! k = 0)
      \<longleftrightarrow> (\<exists>k<n. start ! k + stop ! k + EPSILON = 0)"
    by auto
  ultimately show ?thesis
    unfolding calculate_dt_def np_op_nth[OF assms(1,2)]
    by (simp add: and_then_def np_div_nth[where n = n] assms del: map_map)
qed

lemma cumsum_from_nth:
  "k < length xs \<Longrightarrow> cumsum_from acc xs ! k = acc + (\<Sum>j<Suc k. xs ! j)"
proof (induction xs arbitrary: acc k)
  case Nil
  then show ?case by simp
next
  case (Cons x xs)
  show ?case
  proof (cases k)
    case 0
    then show ?thesis by simp
  next
    case (Suc m)
    then have "m < length xs" using Cons.prems by simp
    from Cons.IH[OF this, of "acc + x"] Suc show ?thesis
      by (simp add: sum.lessThan_Suc_shift[of _ "Suc m"] del: sum.lessThan_Suc)
  qed
qed

lemma length_cumsum_from [simp]: "length (cumsum_from acc xs) = length xs"
  by (induction xs arbitrary: acc) simp_all

lemma cumsum_nth: "k < length xs \<Longrightarrow> cumsum xs ! k = (\<Sum>j<Suc k. xs ! j)"
  by (simp add: cumsum_def cumsum_from_nth del: sum.lessThan_Suc)

lemma length_cumsum [simp]: "length (cumsum xs) = length xs"
  by (simp add: cumsum_def)

lemma np_min_Min: "xs \<noteq> [] \<Longrightarrow> np_min xs = Inr (Min (set xs))"
proof (cases xs)
  case Nil
  assume "xs \<noteq> []"
  with Nil show ?thesis by simp
next
  case (Cons a l)
  show ?thesis unfolding Cons np_min_def Min.set_eq_fold by simp
qed

lemma np_max_Max: "xs \<noteq> [] \<Longrightarrow> np_max xs = Inr (Max (set xs))"
proof (cases xs)
  case Nil
  assume "xs \<noteq> []"
  with Nil show ?thesis by simp
next
  case (Cons a l)
  show ?thesis unfolding Cons np_max_def Max.set_eq_fold by simp
qed

lemma np_min_Nil: "np_min [] = Inl ValueError"
  by (simp add: np_min_def)

lemma butlast_tl_nth:
  assumes "length v = Suc n" "k < n"
  shows "butlast v ! k = v ! k" "tl v ! k = v ! Suc k"
  using assms by (simp_all add: nth_butlast nth_tl)

section \<open>What the functions return on well-shaped inputs\<close>

lemma and_then_simps: "and_then (Inr x) f = f x" "and_then (Inl e) f = Inl e"
  by (simp_all add: and_then_def)

lemma torque_map:
  "map (\<lambda>d. frictional_tou cfg + d) (map (\<lambda>s. drag_coeff_wR2 cfg * s) (map (\<lambda>v. v ^ 2) speed))
     = map (torque cfg) speed"
  by (simp add: torque_def comp_def)

lemma calculate_power_unfold:
  "calculate_power cfg speed acc sl =
     (if R_Out cfg = 0 \<or> 0.00022425 * Ta cfg - 0.00820525 = 0 then Some (Inl ZeroDivisionError)
      else case thermal_loop cfg (map (torque cfg) speed) (map (\<lambda>v. v ^ 2) speed)
                  (replicate (length speed) (Ta cfg)) of
             None \<Rightarrow> None
           | Some (Inl e) \<Rightarrow> Some (Inl e)
           | Some (Inr (Pc, Pe)) \<Rightarrow> Some (power_tail cfg speed acc sl Pc Pe))"
  unfolding calculate_power_def Let_def power_tail_def torque_map[symmetric] ..

lemma power_tail_Inr:
  assumes len: "length acc = length speed" "length sl = length speed"
    "length Pc = length speed" "length Pe = length speed"
  shows "power_tail cfg speed acc sl Pc Pe =
    Inr (map (\<lambda>k. net_power_of cfg (speed ! k) (acc ! k) (sl ! k) (Pc ! k) (Pe ! k)) [0..<length speed],
         map (output_power cfg) speed)"
proof -
  define n where "n = length speed"
  have Pout: "map (\<lambda>(t, v). t * v / R_Out cfg) (zip (map (torque cfg) speed) speed) = map (output_power cfg) speed"
    by (rule nth_equalityI) (simp_all add: output_power_def torque_def)
  have losses: "map (\<lambda>(a, b, c, d). a + b + c + d)
        (zip (map (output_power cfg) speed)
          (zip (map (\<lambda>s. s * windage_losses_coeff_wR2 cfg) (map (\<lambda>v. v ^ 2) speed)) (zip Pc Pe)))
      = map (\<lambda>k. output_power cfg (speed ! k) + (speed ! k) ^ 2 * windage_losses_coeff_wR2 cfg + Pc ! k + Pe ! k) [0..<n]"
    by (rule nth_equalityI) (simp_all add: len n_def)
  have force: "np_op (\<lambda>a s. Mass cfg * a + slope_coeff cfg * sin (radians s)) acc sl
      = Inr (map (\<lambda>k. Mass cfg * acc ! k + slope_coeff cfg * sin (radians (sl ! k))) [0..<n])"
    by (rule np_op_nth) (simp_all add: len n_def)
  have Pacc: "np_op (\<lambda>f v. f * v) (map (\<lambda>k. Mass cfg * acc ! k + slope_coeff cfg * sin (radians (sl ! k))) [0..<n]) speed
      = Inr (map (\<lambda>k. (Mass cfg * acc ! k + slope_coeff cfg * sin (radians (sl ! k))) * speed ! k) [0..<n])"
    by (subst np_op_nth[where n = n]) (simp_all add: n_def)
  have Pnet: "np_op (\<lambda>l p. l + p)
        (map (\<lambda>k. output_power cfg (speed ! k) + (speed ! k) ^ 2 * windage_losses_coeff_wR2 cfg + Pc ! k + Pe ! k) [0..<n])
        (map (\<lambda>k. (Mass cfg * acc ! k + slope_coeff cfg * sin (radians (sl ! k))) * speed ! k) [0..<n])
      = Inr (map (\<lambda>k. output_power cfg (speed ! k) + (speed ! k) ^ 2 * windage_losses_coeff_wR2 cfg + Pc ! k + Pe ! k
                + (Mass cfg * acc ! k + slope_coeff cfg * sin (radians (sl ! k))) * speed ! k) [0..<n])"
    by (subst np_op_nth[where n = n]) simp_all
  have clip: "clip0 (map (\<lambda>k. output_power cfg (speed ! k) + (speed ! k) ^ 2 * windage_losses_coeff_wR2 cfg + Pc ! k + Pe ! k
                + (Mass cfg * acc ! k + slope_coeff cfg * sin (radians (sl ! k))) * speed ! k) [0..<n])
      = map (\<lambda>k. net_power_of cfg (speed ! k) (acc ! k) (sl ! k) (Pc ! k) (Pe ! k)) [0..<n]"
    unfolding clip0_def net_power_of_def by simp
  show ?thesis
    unfolding power_tail_def torque_map Pout losses force and_then_simps Pacc Pnet clip
    unfolding n_def ..
qed

lemma calculate_power_Inr:
  assumes cp: "calculate_power cfg speed acc sl = Some (Inr (P, PO))"
    and len: "length acc = length speed" "length sl = length speed"
  shows "R_Out cfg \<noteq> 0"
    and "PO = map (output_power cfg) speed"
    and "\<exists>Pc Pe. length Pc = length speed \<and> length Pe = length speed \<and>
          thermal_loop cfg (map (torque cfg) speed) (map (\<lambda>v. v ^ 2) speed)
            (replicate (length speed) (Ta cfg)) = Some (Inr (Pc, Pe)) \<and>
          P = map (\<lambda>k. net_power_of cfg (speed ! k) (acc ! k) (sl ! k) (Pc ! k) (Pe ! k))
                [0..<length speed]"
proof -
  from cp show "R_Out cfg \<noteq> 0"
    by (auto simp: calculate_power_unfold split: if_splits)
  from cp obtain Pc Pe where
    loop: "thermal_loop cfg (map (torque cfg) speed) (map (\<lambda>v. v ^ 2) speed)
            (replicate (length speed) (Ta cfg)) = Some (Inr (Pc, Pe))"
    and tail: "power_tail cfg speed acc sl Pc Pe = Inr (P, PO)"
    unfolding calculate_power_unfold by (auto split: if_splits option.splits sum.splits)
  have lp: "length Pc = length speed" "length Pe = length speed"
    using thermal_loop_lengths[OF loop] by simp_all
  from tail have r: "P = map (\<lambda>k. net_power_of cfg (speed ! k) (acc ! k) (sl ! k) (Pc ! k) (Pe ! k))
                [0..<length speed]" "PO = map (output_power cfg) speed"
    unfolding power_tail_Inr[OF len lp] by simp_all
  show "PO = map (output_power cfg) speed" by (rule r(2))
  show "\<exists>Pc Pe. length Pc = length speed \<and> length Pe = length speed \<and>
          thermal_loop cfg (map (torque cfg) speed) (map (\<lambda>v. v ^ 2) speed)
            (replicate (length speed) (Ta cfg)) = Some (Inr (Pc, Pe)) \<and>
          P = map (\<lambda>k. net_power_of cfg (speed ! k) (acc ! k) (sl ! k) (Pc ! k) (Pe ! k))
                [0..<length speed]"
    using loop lp r(1) by blast
qed

lemma solarpower_length:
  "calculate_incident_solarpower cfg t la lo = Inr SolP \<Longrightarrow> length SolP = length t"
  by (auto simp: calculate_incident_solarpower_def Let_def split: if_splits)

lemma set_map_upt: "set (map f [0..<n]) = f ` {..<n}"
  by (simp add: atLeast0LessThan)

lemma battery_acc_eq:
  assumes len: "length v = Suc (length seg)" "length sl = length seg"
  shows "battery_acc_constraint_func cfg v seg sl la lo =
    (if \<exists>k<length seg. v ! k + v ! Suc k + EPSILON = 0 then Some (Inl NonFinite)
     else if \<exists>k<length seg. seg_dt v seg k = 0 then Some (Inl NonFinite)
     else case calculate_power cfg (map (seg_avg v) [0..<length seg])
                 (map (seg_acc v seg) [0..<length seg]) sl of
            None \<Rightarrow> None
          | Some (Inl e) \<Rightarrow> Some (Inl e)
          | Some (Inr (P, PO)) \<Rightarrow>
              Some (if DT cfg = 0 \<and> length seg \<noteq> 0 then Inl NonFinite
                    else if length seg = 0 then Inl ValueError
                    else if \<exists>k<length seg. Mass cfg * seg_avg v k = 0 then Inl NonFinite
                    else Inr (Min ((\<lambda>k. battery_level cfg v seg P k - SafeBatteryLevel cfg) ` {..<length seg}),
                              Max ((\<lambda>k. deliverable_acc cfg v k - seg_acc v seg k) ` {..<length seg}))))"
proof -
  define n where "n = length seg"
  define start where "start = butlast v"
  define stop where "stop = tl v"
  define avg where "avg = map (seg_avg v) [0..<n]"
  define dts where "dts = map (seg_dt v seg) [0..<n]"
  define accs where "accs = map (seg_acc v seg) [0..<n]"
  have ls: "length start = n" "length stop = n" "length seg = n" "length sl = n"
    using len by (simp_all add: start_def stop_def n_def)
  have st: "start ! k = v ! k" "stop ! k = v ! Suc k" if "k < n" for k
    using butlast_tl_nth[OF len(1)] that by (simp_all add: start_def stop_def n_def)
  have avg: "map (\<lambda>(a, b). (a + b) / 2) (zip start stop) = avg"
    unfolding avg_def by (rule nth_equalityI) (simp_all add: ls st seg_avg_def)
  have diff: "map (\<lambda>(a, b). b - a) (zip start stop) = map (\<lambda>k. v ! Suc k - v ! k) [0..<n]"
    by (rule nth_equalityI) (simp_all add: ls st)
  have dt1: "map (\<lambda>k. 2 * seg ! k / (start ! k + stop ! k + EPSILON)) [0..<n] = dts"
    unfolding dts_def by (rule nth_equalityI) (simp_all add: st seg_dt_def)
  have dt0: "(\<exists>k<n. start ! k + stop ! k + EPSILON = 0) \<longleftrightarrow> (\<exists>k<n. v ! k + v ! Suc k + EPSILON = 0)"
    using st by auto
  have cdt: "calculate_dt start stop seg =
      (if \<exists>k<n. v ! k + v ! Suc k + EPSILON = 0 then Inl NonFinite else Inr dts)"
    unfolding calculate_dt_nth[OF ls(1,2,3)] dt1 dt0 ..
  have acc1: "map (\<lambda>k. map (\<lambda>k. v ! Suc k - v ! k) [0..<n] ! k / dts ! k) [0..<n] = accs"
    unfolding accs_def dts_def by (rule nth_equalityI) (simp_all add: seg_acc_def)
  have acc0: "(\<exists>k<n. dts ! k = 0) \<longleftrightarrow> (\<exists>k<n. seg_dt v seg k = 0)"
    by (auto simp: dts_def)
  have cacc: "np_div (map (\<lambda>(a, b). b - a) (zip start stop)) dts =
      (if \<exists>k<n. seg_dt v seg k = 0 then Inl NonFinite else Inr accs)"
    unfolding diff by (subst np_div_nth[where n = n]) (simp_all add: dts_def acc1[unfolded dts_def] acc0[unfolded dts_def])
  define G where "G = (\<lambda>P PO.
      and_then (calculate_incident_solarpower cfg (cumsum dts) la lo) (\<lambda>SolP.
      and_then (np_op (\<lambda>p s. p - s) P SolP) (\<lambda>net.
      and_then (np_op (\<lambda>n t. n * t) net dts) (\<lambda>energy.
      and_then (np_min (map (\<lambda>e. InitialBatteryCapacity cfg - e - SafeBatteryLevel cfg)
                          (map (\<lambda>e. e / 3600) (cumsum energy)))) (\<lambda>min_battery.
      and_then (np_div (clip0 PO) (map (\<lambda>a. Mass cfg * a) avg)) (\<lambda>deliverable.
      and_then (np_op (\<lambda>d a. d - a) deliverable accs) (\<lambda>margin.
      and_then (np_max margin) (\<lambda>max_margin.
      Inr (min_battery, max_margin)))))))))"
  define H where "H = (\<lambda>P.
      if DT cfg = 0 \<and> n \<noteq> 0 then Inl NonFinite
      else if n = 0 then Inl ValueError
      else if \<exists>k<n. Mass cfg * seg_avg v k = 0 then Inl NonFinite
      else Inr (Min ((\<lambda>k. battery_level cfg v seg P k - SafeBatteryLevel cfg) ` {..<n}),
                Max ((\<lambda>k. deliverable_acc cfg v k - seg_acc v seg k) ` {..<n})))"
  have unf: "battery_acc_constraint_func cfg v seg sl la lo =
      (case calculate_dt start stop seg of
         Inl e \<Rightarrow> Some (Inl e)
       | Inr dt \<Rightarrow>
          (case np_div (map (\<lambda>(a, b). b - a) (zip start stop)) dt of
             Inl e \<Rightarrow> Some (Inl e)
           | Inr acceleration \<Rightarrow>
          (case calculate_power cfg avg acceleration sl of
             None \<Rightarrow> None
           | Some (Inl e) \<Rightarrow> Some (Inl e)
           | Some (Inr (P, PO)) \<Rightarrow>
               Some (
                 and_then (calculate_incident_solarpower cfg (cumsum dt) la lo) (\<lambda>SolP.
      and_then (np_op (\<lambda>p s. p - s) P SolP) (\<lambda>net.
      and_then (np_op (\<lambda>n t. n * t) net dt) (\<lambda>energy.
      and_then (np_min (map (\<lambda>e. InitialBatteryCapacity cfg - e - SafeBatteryLevel cfg)
                          (map (\<lambda>e. e / 3600) (cumsum energy)))) (\<lambda>min_battery.
      and_then (np_div (clip0 PO) (map (\<lambda>a. Mass cfg * a) avg)) (\<lambda>deliverable.
      and_then (np_op (\<lambda>d a. d - a) deliverable acceleration) (\<lambda>margin.
      and_then (np_max margin) (\<lambda>max_margin.
      Inr (min_battery, max_margin))))))))))))"
    unfolding battery_acc_constraint_func_def Let_def start_def[symmetric] stop_def[symmetric] avg ..
  have la: "length avg = n" "length accs = n" "length dts = n"
    by (simp_all add: avg_def accs_def dts_def)
  have tail: "G P PO = H P" if cp: "calculate_power cfg avg accs sl = Some (Inr (P, PO))" for P PO
  proof -
    have PO: "PO = map (output_power cfg) avg"
      using calculate_power_Inr(2)[OF cp] la ls by simp
    have lP: "length P = n"
      using calculate_power_Inr(3)[OF cp] la ls by auto
    define SolP where "SolP = map (solar_power cfg v seg) [0..<n]"
    have lS: "length SolP = n" by (simp add: SolP_def)
    have ne: "cumsum dts \<noteq> [] \<longleftrightarrow> n \<noteq> 0"
      using length_cumsum[of dts] la(3) by (metis length_0_conv)
    have sol: "map (\<lambda>i. i * power_coeff cfg)
          (map (\<lambda>g. calc_solar_irradiance (RaceStartTime cfg + g))
            (map (\<lambda>t. np_mod t (DT cfg)) (cumsum dts))) = SolP"
      unfolding SolP_def
      by (rule nth_equalityI)
         (simp_all add: la cumsum_nth solar_power_def elapsed_def dts_def del: sum.lessThan_Suc)
    have sp: "calculate_incident_solarpower cfg (cumsum dts) la lo =
        (if DT cfg = 0 \<and> n \<noteq> 0 then Inl NonFinite else Inr SolP)"
      unfolding calculate_incident_solarpower_def Let_def sol ne ..
    have net: "np_op (\<lambda>p s. p - s) P SolP = Inr (map (\<lambda>k. P ! k - SolP ! k) [0..<n])"
      by (rule np_op_nth[OF lP lS])
    have en0: "map (\<lambda>k. map (\<lambda>k. P ! k - SolP ! k) [0..<n] ! k * dts ! k) [0..<n]
        = map (\<lambda>k. (P ! k - solar_power cfg v seg k) * seg_dt v seg k) [0..<n]"
      by (rule nth_equalityI) (simp_all add: SolP_def dts_def)
    have en: "np_op (\<lambda>n t. n * t) (map (\<lambda>k. P ! k - SolP ! k) [0..<n]) dts
        = Inr (map (\<lambda>k. (P ! k - solar_power cfg v seg k) * seg_dt v seg k) [0..<n])"
      by (subst np_op_nth[where n = n]) (simp_all add: la en0)
    define energy where "energy = map (\<lambda>k. (P ! k - solar_power cfg v seg k) * seg_dt v seg k) [0..<n]"
    have bp: "map (\<lambda>e. InitialBatteryCapacity cfg - e - SafeBatteryLevel cfg)
                (map (\<lambda>e. e / 3600) (cumsum energy))
        = map (\<lambda>k. battery_level cfg v seg P k - SafeBatteryLevel cfg) [0..<n]"
    proof (rule nth_equalityI)
      show "length (map (\<lambda>e. InitialBatteryCapacity cfg - e - SafeBatteryLevel cfg)
                (map (\<lambda>e. e / 3600) (cumsum energy)))
          = length (map (\<lambda>k. battery_level cfg v seg P k - SafeBatteryLevel cfg) [0..<n])"
        by (simp add: energy_def)
    next
      fix k
      assume "k < length (map (\<lambda>e. InitialBatteryCapacity cfg - e - SafeBatteryLevel cfg)
                (map (\<lambda>e. e / 3600) (cumsum energy)))"
      then have k: "k < n" by (simp add: energy_def)
      then have kl: "k < length energy" by (simp add: energy_def)
      have "(\<Sum>j<Suc k. energy ! j) = (\<Sum>j<Suc k. (P ! j - solar_power cfg v seg j) * seg_dt v seg j)"
        using k by (intro sum.cong) (auto simp: energy_def)
      then show "map (\<lambda>e. InitialBatteryCapacity cfg - e - SafeBatteryLevel cfg)
                (map (\<lambda>e. e / 3600) (cumsum energy)) ! k
          = map (\<lambda>k. battery_level cfg v seg P k - SafeBatteryLevel cfg) [0..<n] ! k"
        using k kl by (simp add: cumsum_nth battery_level_def del: sum.lessThan_Suc)
    qed
    have mn: "np_min (map (\<lambda>k. battery_level cfg v seg P k - SafeBatteryLevel cfg) [0..<n])
        = (if n = 0 then Inl ValueError
           else Inr (Min ((\<lambda>k. battery_level cfg v seg P k - SafeBatteryLevel cfg) ` {..<n})))"
      by (auto simp: np_min_Nil np_min_Min atLeast0LessThan)
    have lc: "length (clip0 PO) = n" "length (map (\<lambda>a. Mass cfg * a) avg) = n"
      by (simp_all add: clip0_def PO la)
    have dl0: "(\<exists>k<n. map (\<lambda>a. Mass cfg * a) avg ! k = 0) \<longleftrightarrow> (\<exists>k<n. Mass cfg * seg_avg v k = 0)"
      by (auto simp: avg_def)
    have dl1: "map (\<lambda>k. clip0 PO ! k / map (\<lambda>a. Mass cfg * a) avg ! k) [0..<n]
        = map (deliverable_acc cfg v) [0..<n]"
      by (rule nth_equalityI) (simp_all add: clip0_def PO avg_def deliverable_acc_def)
    have dl: "np_div (clip0 PO) (map (\<lambda>a. Mass cfg * a) avg) =
        (if \<exists>k<n. Mass cfg * seg_avg v k = 0 then Inl NonFinite
         else Inr (map (deliverable_acc cfg v) [0..<n]))"
      unfolding np_div_nth[OF lc] dl0 dl1 ..
    have mg0: "map (\<lambda>k. map (deliverable_acc cfg v) [0..<n] ! k - accs ! k) [0..<n]
        = map (\<lambda>k. deliverable_acc cfg v k - seg_acc v seg k) [0..<n]"
      by (rule nth_equalityI) (simp_all add: accs_def)
    have mg: "np_op (\<lambda>d a. d - a) (map (deliverable_acc cfg v) [0..<n]) accs
        = Inr (map (\<lambda>k. deliverable_acc cfg v k - seg_acc v seg k) [0..<n])"
      by (subst np_op_nth[where n = n]) (simp_all add: la mg0)
    have mx: "n \<noteq> 0 \<Longrightarrow> np_max (map (\<lambda>k. deliverable_acc cfg v k - seg_acc v seg k) [0..<n])
        = Inr (Max ((\<lambda>k. deliverable_acc cfg v k - seg_acc v seg k) ` {..<n}))"
      by (auto simp: np_max_Max atLeast0LessThan)
    show ?thesis
    proof (cases "DT cfg = 0 \<and> n \<noteq> 0")
      case True
      then show ?thesis unfolding G_def H_def sp by (simp add: and_then_simps)
    next
      case d: False
      show ?thesis
      proof (cases "n = 0")
        case True
        have "G P PO = Inl ValueError"
          unfolding G_def sp if_not_P[OF d] and_then_simps net en energy_def[symmetric] bp mn
          using True by (simp add: and_then_simps)
        then show ?thesis unfolding H_def using True d by simp
      next
        case n0: False
        show ?thesis
        proof (cases "\<exists>k<n. Mass cfg * seg_avg v k = 0")
          case True
          have "G P PO = Inl NonFinite"
            unfolding G_def sp if_not_P[OF d] and_then_simps net en energy_def[symmetric] bp mn
              if_not_P[OF n0] dl if_P[OF True] ..
          then show ?thesis unfolding H_def using True d n0 by simp
        next
          case m0: False
          have "G P PO = Inr (Min ((\<lambda>k. battery_level cfg v seg P k - SafeBatteryLevel cfg) ` {..<n}),
                Max ((\<lambda>k. deliverable_acc cfg v k - seg_acc v seg k) ` {..<n}))"
            unfolding G_def sp if_not_P[OF d] and_then_simps net en energy_def[symmetric] bp mn
              if_not_P[OF n0] dl if_not_P[OF m0] mg mx[OF n0] ..
          then show ?thesis unfolding H_def using m0 d n0 by simp
        qed
      qed
    qed
  qed
  show ?thesis
  proof (cases "\<exists>k<n. v ! k + v ! Suc k + EPSILON = 0")
    case True
    then show ?thesis unfolding unf cdt n_def by simp
  next
    case nz: False
    show ?thesis
    proof (cases "\<exists>k<n. seg_dt v seg k = 0")
      case True
      then show ?thesis unfolding unf cdt if_not_P[OF nz] sum.case cacc using nz unfolding n_def by simp
    next
      case nd: False
      have "battery_acc_constraint_func cfg v seg sl la lo =
          (case calculate_power cfg avg accs sl of
             None \<Rightarrow> None
           | Some (Inl e) \<Rightarrow> Some (Inl e)
           | Some (Inr (P, PO)) \<Rightarrow> Some (G P PO))"
        unfolding unf cdt if_not_P[OF nz] sum.case cacc if_not_P[OF nd] G_def ..
      also have "\<dots> = (case calculate_power cfg avg accs sl of
             None \<Rightarrow> None
           | Some (Inl e) \<Rightarrow> Some (Inl e)
           | Some (Inr (P, PO)) \<Rightarrow> Some (H P))"
        using tail by (auto split: option.splits sum.splits)
      finally have e: "battery_acc_constraint_func cfg v seg sl la lo =
          (case calculate_power cfg avg accs sl of
             None \<Rightarrow> None
           | Some (Inl e) \<Rightarrow> Some (Inl e)
           | Some (Inr (P, PO)) \<Rightarrow> Some (H P))" .
      have nz': "\<not> (\<exists>k<length seg. v ! k + v ! Suc k + EPSILON = 0)" using nz unfolding n_def .
      have nd': "\<not> (\<exists>k<length seg. seg_dt v seg k = 0)" using nd unfolding n_def .
      show ?thesis
        unfolding if_not_P[OF nz'] if_not_P[OF nd'] using e unfolding H_def avg_def accs_def n_def .
    qed
  qed
qed

section \<open>Speeds within the configured range: the loop converges\<close>

lemma car_default: "car_as_configured default_config"
  by (simp add: car_as_configured_def default_config_def)

lemma torque_configured:
  assumes "car_as_configured cfg"
  shows "torque cfg v = 3.19653945 + 0.0152707120 * v ^ 2"
proof -
  have c: "R_Out cfg = 0.2785" "Mass cfg = 260" "GravityAcc cfg = 9.81"
    "ZeroSpeedCrr cfg = 0.0045" "Cd cfg = 0.092" "FrontalArea cfg = 1" "AirDensity cfg = 1.192"
    using assms unfolding car_as_configured_def by blast+
  show ?thesis
    unfolding torque_def frictional_tou_def drag_coeff_wR2_def drag_coeff_def CDA_def c
    by (simp add: power2_eq_square power3_eq_cube)
qed

lemma sq_le_1225: "\<bar>v\<bar> \<le> 35 \<Longrightarrow> v ^ 2 \<le> (1225::real)"
proof -
  assume "\<bar>v\<bar> \<le> 35"
  then have "\<bar>v\<bar> \<le> \<bar>35::real\<bar>" by simp
  then have "v ^ 2 \<le> (35::real) ^ 2" by (simp only: abs_le_square_iff)
  then show ?thesis by simp
qed

lemma torque_range:
  assumes car: "car_as_configured cfg" and v: "\<bar>v\<bar> \<le> 35"
  shows "0 \<le> torque cfg v" "torque cfg v \<le> 22"
proof -
  have sq: "v ^ 2 \<le> 1225" using v by (rule sq_le_1225)
  have nn: "0 \<le> v ^ 2" by simp
  show "0 \<le> torque cfg v" "torque cfg v \<le> 22"
    unfolding torque_configured[OF car] using sq nn by (simp_all add: field_simps)
qed

lemma calculate_power_in_range:
  assumes car: "car_as_configured cfg"
    and sp: "\<forall>k<length speed. \<bar>speed ! k\<bar> \<le> 35"
    and len: "length acc = length speed" "length sl = length speed"
  shows "\<exists>Pc Pe. length Pc = length speed \<and> length Pe = length speed \<and>
      (\<forall>k<length speed. 0 \<le> Pc ! k \<and> Pc ! k \<le> 53 \<and> 0 \<le> Pe ! k \<and> Pe ! k \<le> 5) \<and>
      calculate_power cfg speed acc sl =
        Some (Inr (map (\<lambda>k. net_power_of cfg (speed ! k) (acc ! k) (sl ! k) (Pc ! k) (Pe ! k))
                     [0..<length speed],
                   map (output_power cfg) speed))"
proof -
  define n where "n = length speed"
  define tou where "tou = map (torque cfg) speed"
  define s2 where "s2 = map (\<lambda>v. v ^ 2) speed"
  have cfg: "Ta cfg = 295" "R_Out cfg = 0.2785"
    using car by (simp_all add: car_as_configured_def)
  have lt: "length tou = n" "length s2 = n" by (simp_all add: tou_def s2_def n_def)
  have tr: "\<forall>k<n. 0 \<le> tou ! k \<and> tou ! k \<le> 22"
    using sp torque_range[OF car] by (simp add: tou_def n_def)
  have sr: "\<forall>k<n. 0 \<le> s2 ! k \<and> s2 ! k \<le> 1225"
  proof (intro allI impI)
    fix k assume k: "k < n"
    then have "\<bar>speed ! k\<bar> \<le> 35" using sp by (simp add: n_def)
    then have "(speed ! k) ^ 2 \<le> 1225" by (rule sq_le_1225)
    then show "0 \<le> s2 ! k \<and> s2 ! k \<le> 1225" using k by (simp add: s2_def n_def)
  qed
  have init: "\<forall>k<n. 295 \<le> replicate n (Ta cfg) ! k \<and> replicate n (Ta cfg) ! k \<le> 322 \<and>
       (settled cfg (tou ! k) (s2 ! k) (replicate n (Ta cfg) ! k) \<or>
        \<bar>next_Tw cfg (tou ! k) (s2 ! k) (replicate n (Ta cfg) ! k) - replicate n (Ta cfg) ! k\<bar>
          \<le> 0.0009 * 2 ^ 15)"
  proof (intro allI impI)
    fix k assume k: "k < n"
    have t: "0 \<le> tou ! k" "tou ! k \<le> 22" and s: "0 \<le> s2 ! k" "s2 ! k \<le> 1225"
      using tr sr k by auto
    have "295 \<le> next_Tw cfg (tou ! k) (s2 ! k) 295" "next_Tw cfg (tou ! k) (s2 ! k) 295 \<le> 322"
      using next_Tw_range[OF cfg _ _ t s, of 295] by simp_all
    then have "\<bar>next_Tw cfg (tou ! k) (s2 ! k) 295 - 295\<bar> \<le> 0.0009 * 2 ^ 15" by simp
    then show "295 \<le> replicate n (Ta cfg) ! k \<and> replicate n (Ta cfg) ! k \<le> 322 \<and>
       (settled cfg (tou ! k) (s2 ! k) (replicate n (Ta cfg) ! k) \<or>
        \<bar>next_Tw cfg (tou ! k) (s2 ! k) (replicate n (Ta cfg) ! k) - replicate n (Ta cfg) ! k\<bar>
          \<le> 0.0009 * 2 ^ 15)"
      using k by (simp add: cfg)
  qed
  from thermal_loop_converges[OF cfg lt tr sr _ init]
  obtain Tf where Tf: "length Tf = n" "\<forall>k<n. 295 \<le> Tf ! k \<and> Tf ! k \<le> 322"
    and loop: "thermal_loop cfg tou s2 (replicate n (Ta cfg)) =
        Some (Inr (map (\<lambda>k. copper_loss cfg (tou ! k) (Tf ! k)) [0..<n],
                   map (\<lambda>k. eddy_loss cfg (s2 ! k) (Tf ! k)) [0..<n]))"
    by auto
  define Pc where "Pc = map (\<lambda>k. copper_loss cfg (tou ! k) (Tf ! k)) [0..<n]"
  define Pe where "Pe = map (\<lambda>k. eddy_loss cfg (s2 ! k) (Tf ! k)) [0..<n]"
  have lp: "length Pc = length speed" "length Pe = length speed"
    by (simp_all add: Pc_def Pe_def n_def)
  have bounds: "\<forall>k<length speed. 0 \<le> Pc ! k \<and> Pc ! k \<le> 53 \<and> 0 \<le> Pe ! k \<and> Pe ! k \<le> 5"
  proof (intro allI impI)
    fix k assume "k < length speed"
    then have k: "k < n" by (simp add: n_def)
    have t: "0 \<le> tou ! k" "tou ! k \<le> 22" and s: "0 \<le> s2 ! k" "s2 ! k \<le> 1225"
      and T: "295 \<le> Tf ! k" "Tf ! k \<le> 322"
      using tr sr Tf k by auto
    show "0 \<le> Pc ! k \<and> Pc ! k \<le> 53 \<and> 0 \<le> Pe ! k \<and> Pe ! k \<le> 5"
      using copper_loss_range[OF cfg(1) T t] eddy_loss_range[OF cfg T s] k
      by (simp add: Pc_def Pe_def)
  qed
  have R2: "\<not> (R_Out cfg = 0 \<or> 0.00022425 * Ta cfg - 0.00820525 = 0)"
    by (simp add: cfg)
  have loop': "thermal_loop cfg (map (torque cfg) speed) (map (\<lambda>v. v ^ 2) speed)
      (replicate (length speed) (Ta cfg)) = Some (Inr (Pc, Pe))"
    using loop unfolding Pc_def Pe_def tou_def s2_def n_def .
  have "calculate_power cfg speed acc sl = Some (power_tail cfg speed acc sl Pc Pe)"
    unfolding calculate_power_unfold if_not_P[OF R2] loop' by simp
  then show ?thesis
    unfolding power_tail_Inr[OF len lp] using lp bounds by blast
qed

section \<open>A speed at which the loop never leaves\<close>

lemma square_ge: "(x::real) \<le> - c \<Longrightarrow> 0 \<le> c \<Longrightarrow> c ^ 2 \<le> x ^ 2"
proof -
  assume "x \<le> - c" "0 \<le> c"
  then have "\<bar>c\<bar> \<le> \<bar>x\<bar>" by simp
  then show ?thesis by (simp only: abs_le_square_iff)
qed

lemma eddy_loss_nonneg:
  "0 < resistance T \<Longrightarrow> 0 \<le> s2 \<Longrightarrow> 0 \<le> eddy_loss cfg s2 T"
  by (simp add: eddy_loss_def)

lemma next_Tw_runaway:
  assumes cfg: "Ta cfg = 295" and t: "15000 \<le> tou" and s: "0 \<le> s2" and T: "10000 \<le> T"
  shows "T + 1 \<le> next_Tw cfg tou s2 T" "0 < resistance T"
proof -
  define b where "b = remanence cfg T"
  define r where "r = resistance T"
  define x where "x = (0.561 * b * tou) ^ 2"
  have b: "b \<le> - 4" using T by (simp add: b_def remanence_def cfg field_simps)
  have r: "0.0002 * T \<le> r" using T by (simp add: r_def resistance_def field_simps)
  then show rpos: "0 < resistance T" using T by (simp add: r_def)
  have "b * tou \<le> (- 4) * tou" using b t by (intro mult_right_mono) simp_all
  also have "\<dots> \<le> (- 4) * 15000" using t by simp
  finally have "0.561 * b * tou \<le> - (0.561 * 60000)" by simp
  then have "(0.561 * 60000) ^ 2 \<le> x" unfolding x_def by (rule square_ge) simp
  then have x: "10 ^ 9 \<le> x" by simp
  have "10 ^ 9 * (0.0002 * T) \<le> x * r" using x r T by (intro mult_mono) simp_all
  moreover have "copper_loss cfg tou T = 3 * (x * r)"
    by (simp add: copper_loss_def x_def b_def r_def)
  ultimately have "600000 * T \<le> copper_loss cfg tou T" by (simp add: mult.commute)
  moreover have "0 \<le> eddy_loss cfg s2 T" using rpos s by (rule eddy_loss_nonneg)
  ultimately show "T + 1 \<le> next_Tw cfg tou s2 T"
    using T by (simp add: next_Tw_def cfg field_simps)
qed

lemma next_Tw_first_jump:
  assumes cfg: "Ta cfg = 295" and t: "15000 \<le> tou" and s: "0 \<le> s2"
  shows "10000 \<le> next_Tw cfg tou s2 295" "0 < resistance 295"
proof -
  define x where "x = (0.561 * remanence cfg 295 * tou) ^ 2"
  show rpos: "0 < resistance 295" by (simp add: resistance_def)
  have b: "remanence cfg 295 = 1.3176" by (simp add: remanence_def cfg)
  have "0.561 * 1.3176 * 15000 \<le> 0.561 * 1.3176 * tou" using t by simp
  then have "(0.561 * 1.3176 * 15000) ^ 2 \<le> x" unfolding x_def b by (intro power_mono) simp_all
  moreover have "(10::real) ^ 8 \<le> (0.561 * 1.3176 * 15000) ^ 2" by (simp add: power2_eq_square)
  ultimately have x: "10 ^ 8 \<le> x" by (rule order_trans[rotated])
  have "copper_loss cfg tou 295 = 3 * x * 0.0579485"
    by (simp add: copper_loss_def x_def resistance_def)
  then have "10 ^ 7 \<le> copper_loss cfg tou 295" using x by simp
  moreover have "0 \<le> eddy_loss cfg s2 295" using rpos s by (rule eddy_loss_nonneg)
  ultimately show "10000 \<le> next_Tw cfg tou s2 295"
    by (simp add: next_Tw_def cfg field_simps)
qed

lemma thermal_loop_diverges:
  assumes "Ta cfg = 295" "15000 \<le> t" "0 \<le> s" "T = 295 \<or> 10000 \<le> T"
  shows "thermal_loop cfg [t] [s] [T] = None"
proof (rule ccontr)
  assume "thermal_loop cfg [t] [s] [T] \<noteq> None"
  then obtain y where y: "thermal_loop cfg [t] [s] [T] = Some y" by auto
  have "\<not> (Ta cfg = 295 \<and> (\<exists>t s T. tou = [t] \<and> s2 = [s] \<and> Tw = [T] \<and> 15000 \<le> t \<and> 0 \<le> s \<and>
            (T = 295 \<or> 10000 \<le> T)))"
    if "thermal_loop cfg tou s2 Tw = Some y" for tou s2 Tw
  proof (rule thermal_loop.raw_induct[where P = "\<lambda>cfg tou s2 Tw y.
      \<not> (Ta cfg = 295 \<and> (\<exists>t s T. tou = [t] \<and> s2 = [s] \<and> Tw = [T] \<and> 15000 \<le> t \<and> 0 \<le> s \<and>
            (T = 295 \<or> 10000 \<le> T)))", OF _ that])
    fix loop cfg tou s2 Tw y
    assume IH: "\<And>cfg tou s2 Tw y. loop cfg tou s2 Tw = Some y \<Longrightarrow>
        \<not> (Ta cfg = 295 \<and> (\<exists>t s T. tou = [t] \<and> s2 = [s] \<and> Tw = [T] \<and> 15000 \<le> t \<and> 0 \<le> s \<and>
            (T = 295 \<or> 10000 \<le> T)))"
      and step: "(if list_ex (\<lambda>T. 0.00022425 * T - 0.00820525 = 0) Tw then Some (Inl NonFinite)
      else
        let r = map (\<lambda>(t, s, T). winding_update cfg t s T) (zip tou (zip s2 Tw));
            Pc = map fst r;
            Pe = map (\<lambda>x. fst (snd x)) r;
            Tw' = map (\<lambda>x. snd (snd x)) r;
            cond = map (\<lambda>(t, ti). \<bar>t - ti\<bar> < 0.001) (zip Tw' Tw)
        in if list_all (\<lambda>c. c) cond then Some (Inr (Pc, Pe))
           else loop cfg tou s2
                  (map (\<lambda>(c, ti, t). if c then ti else t) (zip cond (zip Tw Tw')))) = Some y"
    show "\<not> (Ta cfg = 295 \<and> (\<exists>t s T. tou = [t] \<and> s2 = [s] \<and> Tw = [T] \<and> 15000 \<le> t \<and> 0 \<le> s \<and>
            (T = 295 \<or> 10000 \<le> T)))"
    proof
      assume "Ta cfg = 295 \<and> (\<exists>t s T. tou = [t] \<and> s2 = [s] \<and> Tw = [T] \<and> 15000 \<le> t \<and> 0 \<le> s \<and>
            (T = 295 \<or> 10000 \<le> T))"
      then obtain t s T where cfg: "Ta cfg = 295" and eq: "tou = [t]" "s2 = [s]" "Tw = [T]"
        and t: "15000 \<le> t" and s: "0 \<le> s" and T: "T = 295 \<or> 10000 \<le> T"
        by blast
      have facts: "0 < resistance T \<and> 10000 \<le> next_Tw cfg t s T \<and> T + 1 \<le> next_Tw cfg t s T"
      proof (cases "T = 295")
        case True
        then show ?thesis using next_Tw_first_jump[OF cfg t s] by simp
      next
        case False
        then have "10000 \<le> T" using T by simp
        from next_Tw_runaway[OF cfg t s this] this show ?thesis by simp
      qed
      then have nz: "0.00022425 * T - 0.00820525 \<noteq> 0" by (simp add: resistance_def)
      have ns: "\<not> \<bar>next_Tw cfg t s T - T\<bar> < 0.001" using facts by simp
      from step have "loop cfg [t] [s] [next_Tw cfg t s T] = Some y"
        using nz ns by (simp add: eq Let_def winding_update_eq)
      from IH[OF this] show False using cfg t s facts by simp
    qed
  qed
  from this[OF y] show False using assms by simp
qed


section \<open>The segments of a profile\<close>

lemma segment_arrays:
  assumes len: "length v = Suc (length seg)"
  shows "map (\<lambda>(a, b). (a + b) / 2) (zip (butlast v) (tl v)) = map (seg_avg v) [0..<length seg]"
    and "calculate_dt (butlast v) (tl v) seg =
      (if \<exists>k<length seg. v ! k + v ! Suc k + EPSILON = 0 then Inl NonFinite
       else Inr (map (seg_dt v seg) [0..<length seg]))"
    and "np_div (map (\<lambda>(a, b). b - a) (zip (butlast v) (tl v))) (map (seg_dt v seg) [0..<length seg]) =
      (if \<exists>k<length seg. seg_dt v seg k = 0 then Inl NonFinite
       else Inr (map (seg_acc v seg) [0..<length seg]))"
proof -
  define n where "n = length seg"
  define start where "start = butlast v"
  define stop where "stop = tl v"
  define dts where "dts = map (seg_dt v seg) [0..<n]"
  have ls: "length start = n" "length stop = n" "length seg = n"
    using len by (simp_all add: start_def stop_def n_def)
  have st: "start ! k = v ! k" "stop ! k = v ! Suc k" if "k < n" for k
    using butlast_tl_nth[OF len(1)] that by (simp_all add: start_def stop_def n_def)
  show "map (\<lambda>(a, b). (a + b) / 2) (zip (butlast v) (tl v)) = map (seg_avg v) [0..<length seg]"
    unfolding start_def[symmetric] stop_def[symmetric] n_def[symmetric]
    by (rule nth_equalityI) (simp_all add: ls st seg_avg_def)
  have diff: "map (\<lambda>(a, b). b - a) (zip start stop) = map (\<lambda>k. v ! Suc k - v ! k) [0..<n]"
    by (rule nth_equalityI) (simp_all add: ls st)
  have dt1: "map (\<lambda>k. 2 * seg ! k / (start ! k + stop ! k + EPSILON)) [0..<n] = dts"
    unfolding dts_def by (rule nth_equalityI) (simp_all add: st seg_dt_def)
  have dt0: "(\<exists>k<n. start ! k + stop ! k + EPSILON = 0) \<longleftrightarrow> (\<exists>k<n. v ! k + v ! Suc k + EPSILON = 0)"
    using st by auto
  show "calculate_dt (butlast v) (tl v) seg =
      (if \<exists>k<length seg. v ! k + v ! Suc k + EPSILON = 0 then Inl NonFinite
       else Inr (map (seg_dt v seg) [0..<length seg]))"
    unfolding start_def[symmetric] stop_def[symmetric] n_def[symmetric] dts_def[symmetric]
    unfolding calculate_dt_nth[OF ls(1,2,3)] dt1 dt0 ..
  have acc1: "map (\<lambda>k. map (\<lambda>k. v ! Suc k - v ! k) [0..<n] ! k / dts ! k) [0..<n]
      = map (seg_acc v seg) [0..<n]"
    unfolding dts_def by (rule nth_equalityI) (simp_all add: seg_acc_def)
  have acc0: "(\<exists>k<n. dts ! k = 0) \<longleftrightarrow> (\<exists>k<n. seg_dt v seg k = 0)"
    by (auto simp: dts_def)
  have ld: "length (map (\<lambda>k. v ! Suc k - v ! k) [0..<n]) = n" "length dts = n"
    by (simp_all add: dts_def)
  show "np_div (map (\<lambda>(a, b). b - a) (zip (butlast v) (tl v))) (map (seg_dt v seg) [0..<length seg]) =
      (if \<exists>k<length seg. seg_dt v seg k = 0 then Inl NonFinite
       else Inr (map (seg_acc v seg) [0..<length seg]))"
    unfolding start_def[symmetric] stop_def[symmetric] n_def[symmetric] dts_def[symmetric]
    unfolding diff np_div_nth[OF ld] acc0 acc1 ..
qed

lemma solarpower_segments:
  "calculate_incident_solarpower cfg (cumsum (map (seg_dt v seg) [0..<n])) la lo =
     (if DT cfg = 0 \<and> n \<noteq> 0 then Inl NonFinite else Inr (map (solar_power cfg v seg) [0..<n]))"
proof -
  define dts where "dts = map (seg_dt v seg) [0..<n]"
  have la: "length dts = n" by (simp add: dts_def)
  have ne: "cumsum dts \<noteq> [] \<longleftrightarrow> n \<noteq> 0"
    using length_cumsum[of dts] la by (metis length_0_conv)
  have sol: "map (\<lambda>i. i * power_coeff cfg)
        (map (\<lambda>g. calc_solar_irradiance (RaceStartTime cfg + g))
          (map (\<lambda>t. np_mod t (DT cfg)) (cumsum dts))) = map (solar_power cfg v seg) [0..<n]"
    by (rule nth_equalityI)
       (simp_all add: la cumsum_nth solar_power_def elapsed_def dts_def del: sum.lessThan_Suc)
  show ?thesis
    unfolding dts_def[symmetric] calculate_incident_solarpower_def Let_def sol ne ..
qed

lemma extract_profiles_returns:
  assumes len: "length v = Suc (length seg)" "length sl = length seg"
    and nz: "\<forall>k<length seg. v ! k + v ! Suc k + EPSILON \<noteq> 0"
    and nd: "\<forall>k<length seg. seg_dt v seg k \<noteq> 0"
    and cp: "calculate_power cfg (map (seg_avg v) [0..<length seg])
               (map (seg_acc v seg) [0..<length seg]) sl = Some (Inr (P, PO))"
    and dt: "DT cfg \<noteq> 0" and bc: "BatteryCapacity cfg \<noteq> 0"
  shows "\<exists>r. extract_profiles cfg v seg sl la lo = Some (Inr r) \<and>
             cumulative_time r = 0 # cumsum (map (seg_dt v seg) [0..<length seg])"
proof -
  define n where "n = length seg"
  have nz': "\<not> (\<exists>k<length seg. v ! k + v ! Suc k + EPSILON = 0)" using nz by simp
  have nd': "\<not> (\<exists>k<length seg. seg_dt v seg k = 0)" using nd by simp
  have d': "\<not> (DT cfg = 0 \<and> length seg \<noteq> 0)" using dt by simp
  have lP: "length P = length seg"
    using calculate_power_Inr(3)[OF cp] len by auto
  have m1: "np_op (\<lambda>p t. p * t) P (map (seg_dt v seg) [0..<length seg])
      = Inr (map (\<lambda>k. P ! k * map (seg_dt v seg) [0..<length seg] ! k) [0..<length seg])"
    by (rule np_op_nth) (simp_all add: lP)
  have m2: "np_op (\<lambda>s t. s * t) (map (solar_power cfg v seg) [0..<length seg])
        (map (seg_dt v seg) [0..<length seg])
      = Inr (map (\<lambda>k. map (solar_power cfg v seg) [0..<length seg] ! k
                      * map (seg_dt v seg) [0..<length seg] ! k) [0..<length seg])"
    by (rule np_op_nth) simp_all
  have m3: "np_op (\<lambda>c g. c - g) (cumsum (map (\<lambda>e. e / 3600) xs)) (cumsum (map (\<lambda>e. e / 3600) ys))
      = Inr (map (\<lambda>k. cumsum (map (\<lambda>e. e / 3600) xs) ! k - cumsum (map (\<lambda>e. e / 3600) ys) ! k)
               [0..<length seg])"
    if "length xs = length seg" "length ys = length seg" for xs ys
    by (rule np_op_nth) (simp_all add: that)
  show ?thesis
    unfolding extract_profiles_def Let_def segment_arrays[OF len(1)] if_not_P[OF nz'] sum.case
      if_not_P[OF nd'] cp option.case prod.case solarpower_segments if_not_P[OF d'] and_then_simps
      m1 m2
    by (subst m3) (simp_all add: bc and_then_simps)
qed

lemma car_values:
  assumes "car_as_configured cfg"
  shows "Ta cfg = 295" "R_Out cfg = 0.2785" "Mass cfg = 260" "GravityAcc cfg = 9.81"
    "ZeroSpeedCrr cfg = 0.0045" "Cd cfg = 0.092" "FrontalArea cfg = 1" "AirDensity cfg = 1.192"
  using assms unfolding car_as_configured_def by blast+

lemma net_power_braking:
  assumes car: "car_as_configured cfg" and Pc: "Pc \<le> 53" and Pe: "Pe \<le> 5"
  shows "net_power_of cfg 10 (- 1) 0 Pc Pe = 0"
proof -
  note c = car_values[OF car]
  have "output_power cfg 10 + 10 ^ 2 * windage_losses_coeff_wR2 cfg \<le> 200"
    unfolding output_power_def torque_configured[OF car, unfolded torque_def]
      windage_losses_coeff_wR2_def c
    by (simp add: power2_eq_square)
  moreover have "(Mass cfg * (- 1) + slope_coeff cfg * sin (radians 0)) * 10 = - 2600"
    by (simp add: c radians_def)
  ultimately have "output_power cfg 10 + 10 ^ 2 * windage_losses_coeff_wR2 cfg + Pc + Pe
      + (Mass cfg * (- 1) + slope_coeff cfg * sin (radians 0)) * 10 \<le> 0"
    using Pc Pe by linarith
  then show ?thesis unfolding net_power_of_def by (rule max_absorb1)
qed

lemma calculate_power_braking:
  "calculate_power default_config [10] [- 1] [0] = Some (Inr ([0], [output_power default_config 10]))"
proof -
  have car: "car_as_configured default_config" by (rule car_default)
  have "\<forall>k<length [10::real]. \<bar>[10::real] ! k\<bar> \<le> 35" by simp
  from calculate_power_in_range[OF car this, of "[- 1]" "[0]"]
  obtain Pc Pe where b: "\<forall>k<length [10::real]. 0 \<le> Pc ! k \<and> Pc ! k \<le> 53 \<and> 0 \<le> Pe ! k \<and> Pe ! k \<le> 5"
    and r: "calculate_power default_config [10] [- 1] [0] =
        Some (Inr (map (\<lambda>k. net_power_of default_config ([10] ! k) ([- 1] ! k) ([0] ! k) (Pc ! k) (Pe ! k))
                     [0..<length [10::real]],
                   map (output_power default_config) [10]))"
    by auto
  have "Pc ! 0 \<le> 53" "Pe ! 0 \<le> 5" using b by simp_all
  from net_power_braking[OF car this] show ?thesis unfolding r by simp
qed

lemma default_values:
  "DT default_config = 28800" "BatteryCapacity default_config = 3055"
  "MaxVelocity default_config = 35" "SafeBatteryLevel default_config = 611"
  "InitialBatteryCapacity default_config = 1099.8" "RaceStartTime default_config = 32400"
  "power_coeff default_config = 1.14" "Mass default_config = 260"
  by (simp_all add: DT_def SafeBatteryLevel_def power_coeff_def default_config_def)

lemma calculate_power_segments:
  assumes car: "car_as_configured cfg"
    and len: "length v = Suc (length seg)" "length sl = length seg"
    and sp: "\<forall>k<length seg. \<bar>seg_avg v k\<bar> \<le> 35"
  shows "\<exists>Pc Pe. length Pc = length seg \<and> length Pe = length seg \<and>
      (\<forall>k<length seg. 0 \<le> Pc ! k \<and> Pc ! k \<le> 53 \<and> 0 \<le> Pe ! k \<and> Pe ! k \<le> 5) \<and>
      calculate_power cfg (map (seg_avg v) [0..<length seg]) (map (seg_acc v seg) [0..<length seg]) sl =
        Some (Inr (map (\<lambda>k. net_power_of cfg (seg_avg v k) (seg_acc v seg k) (sl ! k) (Pc ! k) (Pe ! k))
                     [0..<length seg],
                   map (output_power cfg) (map (seg_avg v) [0..<length seg])))"
proof -
  have sp': "\<forall>k<length (map (seg_avg v) [0..<length seg]). \<bar>map (seg_avg v) [0..<length seg] ! k\<bar> \<le> 35"
    using sp by simp
  have l: "length (map (seg_acc v seg) [0..<length seg]) = length (map (seg_avg v) [0..<length seg])"
    "length sl = length (map (seg_avg v) [0..<length seg])"
    using len by simp_all
  from calculate_power_in_range[OF car sp' l]
  obtain Pc Pe where lp: "length Pc = length seg" "length Pe = length seg"
    and b: "\<forall>k<length seg. 0 \<le> Pc ! k \<and> Pc ! k \<le> 53 \<and> 0 \<le> Pe ! k \<and> Pe ! k \<le> 5"
    and r: "calculate_power cfg (map (seg_avg v) [0..<length seg]) (map (seg_acc v seg) [0..<length seg]) sl =
        Some (Inr (map (\<lambda>k. net_power_of cfg (map (seg_avg v) [0..<length seg] ! k)
                           (map (seg_acc v seg) [0..<length seg] ! k) (sl ! k) (Pc ! k) (Pe ! k))
                     [0..<length (map (seg_avg v) [0..<length seg])],
                   map (output_power cfg) (map (seg_avg v) [0..<length seg])))"
    by auto
  have "map (\<lambda>k. net_power_of cfg (map (seg_avg v) [0..<length seg] ! k)
                           (map (seg_acc v seg) [0..<length seg] ! k) (sl ! k) (Pc ! k) (Pe ! k))
                     [0..<length (map (seg_avg v) [0..<length seg])]
      = map (\<lambda>k. net_power_of cfg (seg_avg v k) (seg_acc v seg k) (sl ! k) (Pc ! k) (Pe ! k))
                     [0..<length seg]"
    by (rule nth_equalityI) simp_all
  with r lp b show ?thesis by (simp only:) blast
qed

lemma profile_A:
  "length [0, 10, 0::real] = Suc (length [100, 100::real])"
  "length [0, 0::real] = length [100, 100::real]"
  "\<forall>k<length [100, 100::real]. [0, 10, 0::real] ! k + [0, 10, 0] ! Suc k + EPSILON \<noteq> 0"
  "\<forall>k<length [100, 100::real]. seg_dt [0, 10, 0] [100, 100] k \<noteq> 0"
  "\<forall>k<length [100, 100::real]. \<bar>seg_avg [0, 10, 0] k\<bar> \<le> 35"
  "\<forall>k<length [100, 100::real]. seg_avg [0, 10, 0] k = 5"
  "\<forall>k<length [100, 100::real]. seg_dt [0, 10, 0] [100, 100] k = 200 / (10 + EPSILON)"
  by (simp_all add: All_less_Suc seg_dt_def seg_avg_def EPSILON_def)

lemma extract_profiles_A:
  "\<exists>r. extract_profiles default_config [0, 10, 0] [100, 100] [0, 0] [0, 0] [0, 0] = Some (Inr r)"
proof -
  from calculate_power_segments[OF car_default profile_A(1,2,5)]
  obtain P PO where cp: "calculate_power default_config (map (seg_avg [0, 10, 0]) [0..<length [100, 100::real]])
      (map (seg_acc [0, 10, 0] [100, 100]) [0..<length [100, 100::real]]) [0, 0] = Some (Inr (P, PO))"
    by blast
  from extract_profiles_returns[OF profile_A(1,2,3,4) cp, of "[0, 0]" "[0, 0]"]
  show ?thesis by (auto simp: default_values)
qed

lemma battery_acc_result:
  assumes res: "battery_acc_constraint_func cfg v seg sl la lo = Some (Inr (b, a))"
    and len: "length v = Suc (length seg)" "length sl = length seg"
  obtains P PO where
    "\<forall>k<length seg. v ! k + v ! Suc k + EPSILON \<noteq> 0"
    "\<forall>k<length seg. seg_dt v seg k \<noteq> 0"
    "calculate_power cfg (map (seg_avg v) [0..<length seg]) (map (seg_acc v seg) [0..<length seg]) sl
       = Some (Inr (P, PO))"
    "DT cfg \<noteq> 0" "0 < length seg"
    "\<forall>k<length seg. Mass cfg * seg_avg v k \<noteq> 0"
    "b = Min ((\<lambda>k. battery_level cfg v seg P k - SafeBatteryLevel cfg) ` {..<length seg})"
    "a = Max ((\<lambda>k. deliverable_acc cfg v k - seg_acc v seg k) ` {..<length seg})"
proof -
  note eq = res[unfolded battery_acc_eq[OF len]]
  from eq have nz: "\<forall>k<length seg. v ! k + v ! Suc k + EPSILON \<noteq> 0"
    by (auto split: if_splits)
  from eq have nd: "\<forall>k<length seg. seg_dt v seg k \<noteq> 0"
    by (auto split: if_splits)
  from eq obtain P PO where
    cp: "calculate_power cfg (map (seg_avg v) [0..<length seg]) (map (seg_acc v seg) [0..<length seg]) sl
       = Some (Inr (P, PO))"
    and r: "(if DT cfg = 0 \<and> length seg \<noteq> 0 then Inl NonFinite
                    else if length seg = 0 then Inl ValueError
                    else if \<exists>k<length seg. Mass cfg * seg_avg v k = 0 then Inl NonFinite
                    else Inr (Min ((\<lambda>k. battery_level cfg v seg P k - SafeBatteryLevel cfg) ` {..<length seg}),
                              Max ((\<lambda>k. deliverable_acc cfg v k - seg_acc v seg k) ` {..<length seg})))
          = Inr (b, a)"
    by (auto split: if_splits option.splits sum.splits)
  from r have n0: "0 < length seg" by (auto split: if_splits)
  from r n0 have d: "DT cfg \<noteq> 0" by (auto split: if_splits)
  from r have m: "\<forall>k<length seg. Mass cfg * seg_avg v k \<noteq> 0" by (auto split: if_splits)
  from r have "b = Min ((\<lambda>k. battery_level cfg v seg P k - SafeBatteryLevel cfg) ` {..<length seg})"
    "a = Max ((\<lambda>k. deliverable_acc cfg v k - seg_acc v seg k) ` {..<length seg})"
    by (auto split: if_splits)
  with that nz nd cp d n0 m show thesis by blast
qed

lemma battery_acc_returns:
  assumes car: "car_as_configured cfg" and dt: "DT cfg \<noteq> 0"
    and len: "length v = Suc (length seg)" "length sl = length seg"
    and n0: "0 < length seg"
    and nz: "\<forall>k<length seg. v ! k + v ! Suc k + EPSILON \<noteq> 0"
    and nd: "\<forall>k<length seg. seg_dt v seg k \<noteq> 0"
    and sp: "\<forall>k<length seg. \<bar>seg_avg v k\<bar> \<le> 35"
    and av: "\<forall>k<length seg. seg_avg v k \<noteq> 0"
  shows "\<exists>b a. battery_acc_constraint_func cfg v seg sl la lo = Some (Inr (b, a))"
proof -
  from calculate_power_segments[OF car len sp]
  obtain P PO where cp: "calculate_power cfg (map (seg_avg v) [0..<length seg])
      (map (seg_acc v seg) [0..<length seg]) sl = Some (Inr (P, PO))"
    by blast
  have m: "\<not> (\<exists>k<length seg. Mass cfg * seg_avg v k = 0)"
    using av car_values(3)[OF car] by simp
  have nz': "\<not> (\<exists>k<length seg. v ! k + v ! Suc k + EPSILON = 0)" using nz by simp
  have nd': "\<not> (\<exists>k<length seg. seg_dt v seg k = 0)" using nd by simp
  have d': "\<not> (DT cfg = 0 \<and> length seg \<noteq> 0)" using dt by simp
  have n': "\<not> length seg = 0" using n0 by simp
  show ?thesis
    unfolding battery_acc_eq[OF len] if_not_P[OF nz'] if_not_P[OF nd'] cp option.case sum.case
      prod.case if_not_P[OF d'] if_not_P[OF n'] if_not_P[OF m]
    by blast
qed

lemma battery_trajectory_level:
  assumes "length P = n"
  shows "battery_trajectory cfg P (map (solar_power cfg v seg) [0..<n]) (map (seg_dt v seg) [0..<n])
      = map (battery_level cfg v seg P) [0..<n]"
proof (rule nth_equalityI)
  show "length (battery_trajectory cfg P (map (solar_power cfg v seg) [0..<n]) (map (seg_dt v seg) [0..<n]))
      = length (map (battery_level cfg v seg P) [0..<n])"
    by (simp add: battery_trajectory_def)
next
  fix k
  assume "k < length (battery_trajectory cfg P (map (solar_power cfg v seg) [0..<n]) (map (seg_dt v seg) [0..<n]))"
  then have k: "k < n" by (simp add: battery_trajectory_def)
  have "(\<Sum>j<Suc k. (P ! j - map (solar_power cfg v seg) [0..<n] ! j) * map (seg_dt v seg) [0..<n] ! j)
      = (\<Sum>j<Suc k. (P ! j - solar_power cfg v seg j) * seg_dt v seg j)"
    using k by (intro sum.cong) auto
  then show "battery_trajectory cfg P (map (solar_power cfg v seg) [0..<n]) (map (seg_dt v seg) [0..<n]) ! k
      = map (battery_level cfg v seg P) [0..<n] ! k"
    using k by (simp add: battery_trajectory_def battery_level_def del: sum.lessThan_Suc)
qed

lemma Min_shift:
  fixes f :: "nat \<Rightarrow> real"
  assumes "0 < n"
  shows "Min ((\<lambda>k. f k - c) ` {..<n}) = Min (f ` {..<n}) - c"
proof -
  have "mono (\<lambda>x::real. x - c)" by (simp add: mono_def)
  moreover have "finite (f ` {..<n})" "f ` {..<n} \<noteq> {}" using assms by auto
  ultimately have "Min (f ` {..<n}) - c = Min ((\<lambda>x. x - c) ` f ` {..<n})"
    by (rule mono_Min_commute)
  then show ?thesis by (simp add: image_image)
qed

lemma battery_margin_arrays:
  assumes res: "battery_acc_constraint_func cfg v_prof segment_array slope_array latitude_array
      longitude_array = Some (Inr (b, a))"
    and len: "length v_prof = Suc (length segment_array)" "length slope_array = length segment_array"
  shows "\<exists>dt acceleration P PO SolP.
     calculate_dt (butlast v_prof) (tl v_prof) segment_array = Inr dt \<and>
     np_div (map (\<lambda>(s, e). e - s) (zip (butlast v_prof) (tl v_prof))) dt = Inr acceleration \<and>
     calculate_power cfg (map (\<lambda>(s, e). (s + e) / 2) (zip (butlast v_prof) (tl v_prof)))
       acceleration slope_array = Some (Inr (P, PO)) \<and>
     calculate_incident_solarpower cfg (cumsum dt) latitude_array longitude_array = Inr SolP \<and>
     length dt = length segment_array \<and> length P = length segment_array \<and>
     length SolP = length segment_array \<and>
     b = Min (set (battery_trajectory cfg P SolP dt)) - SafeBatteryLevel cfg"
proof -
  define n where "n = length segment_array"
  from battery_acc_result[OF res len] obtain P PO where
    nz: "\<forall>k<n. v_prof ! k + v_prof ! Suc k + EPSILON \<noteq> 0"
    and nd: "\<forall>k<n. seg_dt v_prof segment_array k \<noteq> 0"
    and cp: "calculate_power cfg (map (seg_avg v_prof) [0..<n])
        (map (seg_acc v_prof segment_array) [0..<n]) slope_array = Some (Inr (P, PO))"
    and d: "DT cfg \<noteq> 0" and n0: "0 < n"
    and b: "b = Min ((\<lambda>k. battery_level cfg v_prof segment_array P k - SafeBatteryLevel cfg) ` {..<n})"
    unfolding n_def by blast
  have lP: "length P = n"
    using calculate_power_Inr(3)[OF cp] len by (auto simp: n_def)
  have e1: "calculate_dt (butlast v_prof) (tl v_prof) segment_array
      = Inr (map (seg_dt v_prof segment_array) [0..<n])"
    using segment_arrays(2)[OF len(1)] nz by (simp add: n_def)
  have e2: "np_div (map (\<lambda>(s, e). e - s) (zip (butlast v_prof) (tl v_prof)))
        (map (seg_dt v_prof segment_array) [0..<n])
      = Inr (map (seg_acc v_prof segment_array) [0..<n])"
    using segment_arrays(3)[OF len(1)] nd by (simp add: n_def)
  have e3: "calculate_power cfg (map (\<lambda>(s, e). (s + e) / 2) (zip (butlast v_prof) (tl v_prof)))
        (map (seg_acc v_prof segment_array) [0..<n]) slope_array = Some (Inr (P, PO))"
    using cp segment_arrays(1)[OF len(1)] by (simp add: n_def)
  have e4: "calculate_incident_solarpower cfg (cumsum (map (seg_dt v_prof segment_array) [0..<n]))
        latitude_array longitude_array = Inr (map (solar_power cfg v_prof segment_array) [0..<n])"
    unfolding solarpower_segments using d by simp
  have "Min (set (battery_trajectory cfg P (map (solar_power cfg v_prof segment_array) [0..<n])
                    (map (seg_dt v_prof segment_array) [0..<n]))) - SafeBatteryLevel cfg
      = Min (battery_level cfg v_prof segment_array P ` {..<n}) - SafeBatteryLevel cfg"
    unfolding battery_trajectory_level[OF lP] by (simp add: atLeast0LessThan)
  also have "\<dots> = b" unfolding b by (rule Min_shift[OF n0, symmetric])
  finally have e5: "b = Min (set (battery_trajectory cfg P (map (solar_power cfg v_prof segment_array) [0..<n])
                    (map (seg_dt v_prof segment_array) [0..<n]))) - SafeBatteryLevel cfg"
    by simp
  show ?thesis
    using e1 e2 e3 e4 e5 lP unfolding n_def
    by (intro exI[of _ "map (seg_dt v_prof segment_array) [0..<length segment_array]"]
              exI[of _ "map (seg_acc v_prof segment_array) [0..<length segment_array]"]
              exI[of _ P] exI[of _ PO]
              exI[of _ "map (solar_power cfg v_prof segment_array) [0..<length segment_array]"])
       simp
qed

lemma profile_A_arrays:
  "butlast [0, 10, 0::real] = [0, 10]" "tl [0, 10, 0::real] = [10, 0]"
  "map (\<lambda>(s, e). e - s) (zip [0, 10] [10, 0::real]) = [10, - 10]"
  "map (\<lambda>(s, e). (s + e) / 2) (zip [0, 10] [10, 0::real]) = [5, 5]"
  "map (seg_avg [0, 10, 0]) [0..<length [100, 100::real]] = [5, 5]"
  "map (seg_dt [0, 10, 0] [100, 100]) [0..<length [100, 100::real]]
     = [200 / (10 + EPSILON), 200 / (10 + EPSILON)]"
  "map (seg_acc [0, 10, 0] [100, 100]) [0..<length [100, 100::real]]
     = [10 / (200 / (10 + EPSILON)), - 10 / (200 / (10 + EPSILON))]"
  by (simp_all add: seg_avg_def seg_dt_def seg_acc_def)

lemma profile_A_returns:
  "\<exists>b a. battery_acc_constraint_func default_config [0, 10, 0] [100, 100] [0, 0] [0, 0] [0, 0]
      = Some (Inr (b, a))"
proof -
  have av: "\<forall>k<length [100, 100::real]. seg_avg [0, 10, 0] k \<noteq> 0"
    using profile_A(6) by simp
  have dt: "DT default_config \<noteq> 0" by (simp add: default_values)
  show ?thesis
    by (rule battery_acc_returns[OF car_default dt profile_A(1,2) _ profile_A(3,4,5) av]) simp
qed

lemma constraint_arrays:
  assumes res: "battery_acc_constraint_func cfg v seg sl la lo = Some (Inr (b, a))"
    and len: "length v = Suc (length seg)" "length sl = length seg"
  shows "\<exists>dt acceleration P PO SolP.
    calculate_dt (butlast v) (tl v) seg = Inr dt \<and>
    np_div (map (\<lambda>(s, e). e - s) (zip (butlast v) (tl v))) dt = Inr acceleration \<and>
    calculate_power cfg (map (\<lambda>(s, e). (s + e) / 2) (zip (butlast v) (tl v))) acceleration sl
       = Some (Inr (P, PO)) \<and>
    calculate_incident_solarpower cfg (cumsum dt) la lo = Inr SolP \<and>
    length dt = length seg \<and> length acceleration = length seg \<and> length P = length seg \<and>
    length PO = length seg \<and> length SolP = length seg \<and> 0 < length seg \<and>
    (\<forall>k<length seg. dt ! k = seg_dt v seg k) \<and>
    (\<forall>k<length seg. acceleration ! k = seg_acc v seg k) \<and>
    (\<forall>k<length seg. PO ! k = output_power cfg (seg_avg v k)) \<and>
    (\<forall>k<length seg. SolP ! k = solar_power cfg v seg k) \<and>
    b = Min (set (battery_trajectory cfg P SolP dt)) - SafeBatteryLevel cfg \<and>
    a = Max ((\<lambda>k. deliverable_acc cfg v k - seg_acc v seg k) ` {..<length seg})"
proof -
  define n where "n = length seg"
  from battery_acc_result[OF res len] obtain P PO where
    nz: "\<forall>k<n. v ! k + v ! Suc k + EPSILON \<noteq> 0"
    and nd: "\<forall>k<n. seg_dt v seg k \<noteq> 0"
    and cp: "calculate_power cfg (map (seg_avg v) [0..<n]) (map (seg_acc v seg) [0..<n]) sl
        = Some (Inr (P, PO))"
    and d: "DT cfg \<noteq> 0" and n0: "0 < n"
    and b: "b = Min ((\<lambda>k. battery_level cfg v seg P k - SafeBatteryLevel cfg) ` {..<n})"
    and a: "a = Max ((\<lambda>k. deliverable_acc cfg v k - seg_acc v seg k) ` {..<n})"
    unfolding n_def by blast
  have lP: "length P = n"
    using calculate_power_Inr(3)[OF cp] len by (auto simp: n_def)
  have PO: "PO = map (output_power cfg) (map (seg_avg v) [0..<n])"
    using calculate_power_Inr(2)[OF cp] len by (simp add: n_def)
  have e1: "calculate_dt (butlast v) (tl v) seg = Inr (map (seg_dt v seg) [0..<n])"
    using segment_arrays(2)[OF len(1)] nz by (simp add: n_def)
  have e2: "np_div (map (\<lambda>(s, e). e - s) (zip (butlast v) (tl v))) (map (seg_dt v seg) [0..<n])
      = Inr (map (seg_acc v seg) [0..<n])"
    using segment_arrays(3)[OF len(1)] nd by (simp add: n_def)
  have e3: "calculate_power cfg (map (\<lambda>(s, e). (s + e) / 2) (zip (butlast v) (tl v)))
        (map (seg_acc v seg) [0..<n]) sl = Some (Inr (P, PO))"
    using cp segment_arrays(1)[OF len(1)] by (simp add: n_def)
  have e4: "calculate_incident_solarpower cfg (cumsum (map (seg_dt v seg) [0..<n])) la lo
      = Inr (map (solar_power cfg v seg) [0..<n])"
    unfolding solarpower_segments using d by simp
  have "Min (set (battery_trajectory cfg P (map (solar_power cfg v seg) [0..<n])
                    (map (seg_dt v seg) [0..<n]))) - SafeBatteryLevel cfg
      = Min (battery_level cfg v seg P ` {..<n}) - SafeBatteryLevel cfg"
    unfolding battery_trajectory_level[OF lP] by (simp add: atLeast0LessThan)
  also have "\<dots> = b" unfolding b by (rule Min_shift[OF n0, symmetric])
  finally have e5: "b = Min (set (battery_trajectory cfg P (map (solar_power cfg v seg) [0..<n])
                    (map (seg_dt v seg) [0..<n]))) - SafeBatteryLevel cfg"
    by simp
  have rest: "length (map (seg_dt v seg) [0..<n]) = n" "length (map (seg_acc v seg) [0..<n]) = n"
    "length PO = n" "length (map (solar_power cfg v seg) [0..<n]) = n"
    "\<forall>k<n. map (seg_dt v seg) [0..<n] ! k = seg_dt v seg k"
    "\<forall>k<n. map (seg_acc v seg) [0..<n] ! k = seg_acc v seg k"
    "\<forall>k<n. PO ! k = output_power cfg (seg_avg v k)"
    "\<forall>k<n. map (solar_power cfg v seg) [0..<n] ! k = solar_power cfg v seg k"
    by (simp_all add: PO)
  show ?thesis
    unfolding n_def[symmetric]
    apply (rule exI[of _ "map (seg_dt v seg) [0..<n]"])
    apply (rule exI[of _ "map (seg_acc v seg) [0..<n]"])
    apply (rule exI[of _ P])
    apply (rule exI[of _ PO])
    apply (rule exI[of _ "map (solar_power cfg v seg) [0..<n]"])
    apply (intro conjI)
    apply (rule e1 e2 e3 e4 rest lP n0 e5 a)+
    done
qed

lemma list_eq_map_upt: "length xs = n \<Longrightarrow> \<forall>k<n. xs ! k = f k \<Longrightarrow> xs = map f [0..<n]"
  by (rule nth_equalityI) simp_all

lemma battery_trajectory_step:
  assumes "Suc k < length dt"
  shows "battery_trajectory cfg P SolP dt ! Suc k =
    battery_trajectory cfg P SolP dt ! k - (P ! Suc k - SolP ! Suc k) * dt ! Suc k / 3600"
proof -
  have k: "k < length dt" using assms by simp
  show ?thesis
    using assms k by (simp add: battery_trajectory_def diff_divide_distrib add_divide_distrib)
qed

lemma net_power_braking_5:
  assumes car: "car_as_configured cfg" and Pc: "Pc \<le> 53" and Pe: "Pe \<le> 5" and acc: "acc \<le> - 0.5"
  shows "net_power_of cfg 5 acc 0 Pc Pe = 0"
proof -
  note c = car_values[OF car]
  have "output_power cfg 5 + 5 ^ 2 * windage_losses_coeff_wR2 cfg \<le> 70"
    unfolding output_power_def torque_configured[OF car, unfolded torque_def]
      windage_losses_coeff_wR2_def c
    by (simp add: power2_eq_square)
  moreover have "(Mass cfg * acc + slope_coeff cfg * sin (radians 0)) * 5 \<le> - 650"
    using acc by (simp add: c radians_def)
  ultimately have "output_power cfg 5 + 5 ^ 2 * windage_losses_coeff_wR2 cfg + Pc + Pe
      + (Mass cfg * acc + slope_coeff cfg * sin (radians 0)) * 5 \<le> 0"
    using Pc Pe by linarith
  then show ?thesis unfolding net_power_of_def by (rule max_absorb1)
qed

lemma solar_power_pos: "0 < power_coeff cfg \<Longrightarrow> 0 < solar_power cfg v seg k"
  by (simp add: solar_power_def calc_solar_irradiance_def)

lemma low_battery_values:
  "car_as_configured low_battery_config"
  "DT low_battery_config = 28800" "SafeBatteryLevel low_battery_config = 611"
  "InitialBatteryCapacity low_battery_config = 580.45" "RaceStartTime low_battery_config = 32400"
  "power_coeff low_battery_config = 1.14"
  by (simp_all add: low_battery_config_def default_config_def car_as_configured_def DT_def
        SafeBatteryLevel_def power_coeff_def)

lemma irradiance_upper: "calc_solar_irradiance t \<le> 1073.099"
proof -
  have "exp (- 0.5 * ((t - 51908.735) / 11484.950) ^ 2) \<le> 1" by simp
  then show ?thesis unfolding calc_solar_irradiance_def by simp
qed

lemma irradiance_lower:
  assumes "36399 \<le> t" "t \<le> 36400"
  shows "94 \<le> calc_solar_irradiance t"
proof -
  define u where "u = (t - 51908.735) / 11484.950"
  have "- 15509.735 \<le> t - 51908.735" "t - 51908.735 \<le> 0" using assms by simp_all
  then have "- 1.3505 \<le> u" "u \<le> 0" unfolding u_def by (simp_all add: field_simps)
  then have "\<bar>u\<bar> \<le> \<bar>1.3505\<bar>" by simp
  then have "u ^ 2 \<le> 1.3505 ^ 2" by (simp only: abs_le_square_iff)
  moreover have "(1.3505::real) ^ 2 \<le> 1.824" by (simp add: power2_eq_square)
  ultimately have "u ^ 2 \<le> 1.824" by linarith
  then have "0.088 \<le> 1 + (- 0.5 * u ^ 2)" by simp
  also have "\<dots> \<le> exp (- 0.5 * u ^ 2)" by (rule exp_ge_add_one_self)
  finally have "0.088 \<le> exp (- 0.5 * u ^ 2)" .
  then have "1073.099 * 0.088 \<le> 1073.099 * exp (- 0.5 * u ^ 2)" by simp
  then show ?thesis unfolding calc_solar_irradiance_def u_def by simp
qed

lemma profile_B:
  "length [1, 0::real] = Suc (length [2000::real])"
  "length [0::real] = length [2000::real]"
  "0 < length [2000::real]"
  "\<forall>k<length [2000::real]. [1, 0::real] ! k + [1, 0] ! Suc k + EPSILON \<noteq> 0"
  "\<forall>k<length [2000::real]. seg_dt [1, 0] [2000] k \<noteq> 0"
  "\<forall>k<length [2000::real]. \<bar>seg_avg [1, 0] k\<bar> \<le> 35"
  "\<forall>k<length [2000::real]. seg_avg [1, 0] k \<noteq> 0"
  "seg_avg [1, 0] 0 = 0.5"
  "3999 \<le> seg_dt [1, 0] [2000] 0" "seg_dt [1, 0] [2000] 0 \<le> 4000"
  "seg_acc [1, 0] [2000] 0 \<le> 0"
  by (simp_all add: seg_dt_def seg_avg_def seg_acc_def EPSILON_def)

lemma solar_power_B: "107 \<le> solar_power low_battery_config [1, 0] [2000] 0"
proof -
  define T0 where "T0 = seg_dt [1, 0] [2000] 0"
  have T: "3999 \<le> T0" "T0 \<le> 4000" unfolding T0_def by (rule profile_B)+
  have "\<lfloor>T0 / 28800\<rfloor> = 0" using T by (intro floor_unique) simp_all
  then have m: "np_mod T0 28800 = T0" by (simp add: np_mod_def)
  have "94 \<le> calc_solar_irradiance (32400 + T0)" using T by (intro irradiance_lower) simp_all
  then have "94 * 1.14 \<le> calc_solar_irradiance (32400 + T0) * 1.14" by simp
  then show ?thesis
    by (simp add: solar_power_def elapsed_def low_battery_values m T0_def[symmetric])
qed

lemma net_power_coasting:
  assumes car: "car_as_configured cfg" and Pc: "Pc \<le> 53" and Pe: "Pe \<le> 5" and acc: "acc \<le> 0"
  shows "net_power_of cfg 0.5 acc 0 Pc Pe \<le> 64"
proof -
  note c = car_values[OF car]
  have "output_power cfg 0.5 + 0.5 ^ 2 * windage_losses_coeff_wR2 cfg \<le> 6"
    unfolding output_power_def torque_configured[OF car, unfolded torque_def]
      windage_losses_coeff_wR2_def c
    by (simp add: power2_eq_square)
  moreover have "(Mass cfg * acc + slope_coeff cfg * sin (radians 0)) * 0.5 \<le> 0"
    using acc by (simp add: c radians_def mult_le_0_iff)
  ultimately have "output_power cfg 0.5 + 0.5 ^ 2 * windage_losses_coeff_wR2 cfg + Pc + Pe
      + (Mass cfg * acc + slope_coeff cfg * sin (radians 0)) * 0.5 \<le> 64"
    using Pc Pe by linarith
  then show ?thesis unfolding net_power_of_def by simp
qed

lemma constraint_arrays_in_range:
  assumes res: "battery_acc_constraint_func cfg v seg sl la lo = Some (Inr (b, a))"
    and len: "length v = Suc (length seg)" "length sl = length seg"
    and car: "car_as_configured cfg"
    and sp: "\<forall>k<length seg. \<bar>seg_avg v k\<bar> \<le> 35"
  shows "\<exists>dt acceleration P PO SolP Pc Pe.
    calculate_dt (butlast v) (tl v) seg = Inr dt \<and>
    np_div (map (\<lambda>(s, e). e - s) (zip (butlast v) (tl v))) dt = Inr acceleration \<and>
    calculate_power cfg (map (\<lambda>(s, e). (s + e) / 2) (zip (butlast v) (tl v))) acceleration sl
       = Some (Inr (P, PO)) \<and>
    calculate_incident_solarpower cfg (cumsum dt) la lo = Inr SolP \<and>
    length dt = length seg \<and>
    (\<forall>k<length seg. dt ! k = seg_dt v seg k) \<and>
    (\<forall>k<length seg. SolP ! k = solar_power cfg v seg k) \<and>
    (\<forall>k<length seg. P ! k = net_power_of cfg (seg_avg v k) (seg_acc v seg k) (sl ! k) (Pc ! k) (Pe ! k)
        \<and> 0 \<le> Pc ! k \<and> Pc ! k \<le> 53 \<and> 0 \<le> Pe ! k \<and> Pe ! k \<le> 5) \<and>
    b = Min (set (battery_trajectory cfg P SolP dt)) - SafeBatteryLevel cfg"
proof -
  from constraint_arrays[OF res len] obtain dt acceleration P PO SolP where
    e: "calculate_dt (butlast v) (tl v) seg = Inr dt"
    "np_div (map (\<lambda>(s, e). e - s) (zip (butlast v) (tl v))) dt = Inr acceleration"
    "calculate_power cfg (map (\<lambda>(s, e). (s + e) / 2) (zip (butlast v) (tl v))) acceleration sl
       = Some (Inr (P, PO))"
    "calculate_incident_solarpower cfg (cumsum dt) la lo = Inr SolP"
    and l: "length dt = length seg" "length acceleration = length seg"
    and dt: "\<forall>k<length seg. dt ! k = seg_dt v seg k"
    and acc: "\<forall>k<length seg. acceleration ! k = seg_acc v seg k"
    and sol: "\<forall>k<length seg. SolP ! k = solar_power cfg v seg k"
    and b: "b = Min (set (battery_trajectory cfg P SolP dt)) - SafeBatteryLevel cfg"
    by blast
  have acceleration: "acceleration = map (seg_acc v seg) [0..<length seg]"
    using l(2) acc by (rule list_eq_map_upt)
  from calculate_power_segments[OF car len sp]
  obtain Pc Pe where
    bd: "\<forall>k<length seg. 0 \<le> Pc ! k \<and> Pc ! k \<le> 53 \<and> 0 \<le> Pe ! k \<and> Pe ! k \<le> 5"
    and cp: "calculate_power cfg (map (seg_avg v) [0..<length seg])
        (map (seg_acc v seg) [0..<length seg]) sl =
        Some (Inr (map (\<lambda>k. net_power_of cfg (seg_avg v k) (seg_acc v seg k) (sl ! k) (Pc ! k) (Pe ! k))
                     [0..<length seg],
                   map (output_power cfg) (map (seg_avg v) [0..<length seg])))"
    by blast
  have "calculate_power cfg (map (seg_avg v) [0..<length seg])
        (map (seg_acc v seg) [0..<length seg]) sl = Some (Inr (P, PO))"
    using e(3) unfolding acceleration segment_arrays(1)[OF len(1)] .
  with cp have P: "P = map (\<lambda>k. net_power_of cfg (seg_avg v k) (seg_acc v seg k) (sl ! k) (Pc ! k) (Pe ! k))
                     [0..<length seg]"
    by simp
  have Pk: "\<forall>k<length seg. P ! k = net_power_of cfg (seg_avg v k) (seg_acc v seg k) (sl ! k) (Pc ! k) (Pe ! k)
        \<and> 0 \<le> Pc ! k \<and> Pc ! k \<le> 53 \<and> 0 \<le> Pe ! k \<and> Pe ! k \<le> 5"
    using bd unfolding P by simp
  show ?thesis using e l(1) dt sol Pk b by blast
qed

lemma battery_trajectory_single:
  "length dt = Suc 0 \<Longrightarrow>
   battery_trajectory cfg P SolP dt = [InitialBatteryCapacity cfg - (P ! 0 - SolP ! 0) * dt ! 0 / 3600]"
  by (simp add: battery_trajectory_def)

lemma profile_C:
  "length [0, 20, 0::real] = Suc (length [100, 100::real])"
  "length [0, 0::real] = length [100, 100::real]"
  "0 < length [100, 100::real]"
  "\<forall>k<length [100, 100::real]. [0, 20, 0::real] ! k + [0, 20, 0] ! Suc k + EPSILON \<noteq> 0"
  "\<forall>k<length [100, 100::real]. seg_dt [0, 20, 0] [100, 100] k \<noteq> 0"
  "\<forall>k<length [100, 100::real]. \<bar>seg_avg [0, 20, 0] k\<bar> \<le> 35"
  "\<forall>k<length [100, 100::real]. seg_avg [0, 20, 0] k \<noteq> 0"
  "seg_avg [0, 20, 0] 0 = 10"
  "0 < seg_dt [0, 20, 0] [100, 100] 0"
  "2 \<le> seg_acc [0, 20, 0] [100, 100] 0"
  by (simp_all add: seg_dt_def seg_avg_def seg_acc_def EPSILON_def All_less_Suc numeral_2_eq_2)

lemma solar_power_upper:
  assumes "power_coeff cfg = 1.14"
  shows "solar_power cfg v seg k \<le> 1224"
proof -
  have "calc_solar_irradiance (RaceStartTime cfg + np_mod (elapsed v seg k) (DT cfg)) * 1.14
      \<le> 1073.099 * 1.14"
    by (intro mult_right_mono irradiance_upper) simp
  then show ?thesis unfolding solar_power_def assms by simp
qed

lemma net_power_accelerating:
  assumes car: "car_as_configured cfg" and Pc: "0 \<le> Pc" and Pe: "0 \<le> Pe" and acc: "2 \<le> acc"
  shows "5200 \<le> net_power_of cfg 10 acc 0 Pc Pe"
proof -
  note c = car_values[OF car]
  have "0 \<le> output_power cfg 10 + 10 ^ 2 * windage_losses_coeff_wR2 cfg"
    unfolding output_power_def torque_configured[OF car, unfolded torque_def]
      windage_losses_coeff_wR2_def c
    by (simp add: power2_eq_square)
  moreover have "5200 \<le> (Mass cfg * acc + slope_coeff cfg * sin (radians 0)) * 10"
    using acc by (simp add: c radians_def)
  ultimately have "5200 \<le> output_power cfg 10 + 10 ^ 2 * windage_losses_coeff_wR2 cfg + Pc + Pe
      + (Mass cfg * acc + slope_coeff cfg * sin (radians 0)) * 10"
    using Pc Pe by linarith
  then show ?thesis unfolding net_power_of_def by simp
qed

lemma acceleration_divisor_nth:
  assumes "length v = Suc (length (seg::ndarray))"
  shows "length (acceleration_divisor cfg v) = length seg"
    and "k < length seg \<Longrightarrow> acceleration_divisor cfg v ! k = Mass cfg * seg_avg v k"
  unfolding acceleration_divisor_def segment_arrays(1)[OF assms] by simp_all

lemma get_bounds_nth:
  assumes "2 \<le> n"
  shows "length (get_bounds cfg (int n)) = n"
    and "i < n \<Longrightarrow> get_bounds cfg (int n) ! i =
           (if i = 0 \<or> i = n - 1 then (0, 0) else (0.01, MaxVelocity cfg))"
proof -
  have n: "nat (int n - 2) = n - 2" by simp
  show "length (get_bounds cfg (int n)) = n" using assms by (simp add: get_bounds_def n)
  assume "i < n"
  then show "get_bounds cfg (int n) ! i =
           (if i = 0 \<or> i = n - 1 then (0, 0) else (0.01, MaxVelocity cfg))"
    using assms unfolding get_bounds_def n
    by (cases i) (auto simp: nth_append nth_Cons')
qed

lemma within_bounds_nth:
  assumes w: "within_bounds (get_bounds cfg (int (length v))) v" and n: "2 \<le> length v"
    and i: "i < length v"
  shows "0 \<le> v ! i"
    and "i = 0 \<or> i = length v - 1 \<Longrightarrow> v ! i = 0"
    and "i \<noteq> 0 \<Longrightarrow> i \<noteq> length v - 1 \<Longrightarrow> 0.01 \<le> v ! i"
proof -
  from w i get_bounds_nth(1)[OF n, where cfg = cfg]
  have b: "fst (get_bounds cfg (int (length v)) ! i) \<le> v ! i"
    "v ! i \<le> snd (get_bounds cfg (int (length v)) ! i)"
    by (simp_all add: within_bounds_def list_all2_conv_all_nth case_prod_beta)
  note g = get_bounds_nth(2)[OF n i, where cfg = cfg]
  show "0 \<le> v ! i" using b(1) unfolding g by (simp split: if_splits)
  show "i = 0 \<or> i = length v - 1 \<Longrightarrow> v ! i = 0" using b unfolding g by simp
  show "i \<noteq> 0 \<Longrightarrow> i \<noteq> length v - 1 \<Longrightarrow> 0.01 \<le> v ! i" using b(1) unfolding g by simp
qed

lemma battery_acc_zero_divisor:
  assumes car: "car_as_configured cfg" and dt: "DT cfg \<noteq> 0"
    and len: "length v = Suc (length seg)" "length sl = length seg"
    and nz: "\<forall>k<length seg. v ! k + v ! Suc k + EPSILON \<noteq> 0"
    and nd: "\<forall>k<length seg. seg_dt v seg k \<noteq> 0"
    and sp: "\<forall>k<length seg. \<bar>seg_avg v k\<bar> \<le> 35"
    and z: "\<exists>k<length seg. Mass cfg * seg_avg v k = 0"
  shows "battery_acc_constraint_func cfg v seg sl la lo = Some (Inl NonFinite)"
proof -
  from calculate_power_segments[OF car len sp] obtain P PO where
    cp: "calculate_power cfg (map (seg_avg v) [0..<length seg]) (map (seg_acc v seg) [0..<length seg]) sl
      = Some (Inr (P, PO))"
    by blast
  have n0: "length seg \<noteq> 0" using z by auto
  have 1: "\<not> (\<exists>k<length seg. v ! k + v ! Suc k + EPSILON = 0)" using nz by simp
  have 2: "\<not> (\<exists>k<length seg. seg_dt v seg k = 0)" using nd by simp
  have 3: "\<not> (DT cfg = 0 \<and> length seg \<noteq> 0)" using dt by simp
  show ?thesis
    unfolding battery_acc_eq[OF len] if_not_P[OF 1] if_not_P[OF 2] cp
    by (simp only: option.case sum.case prod.case if_not_P[OF 3] if_not_P[OF n0] if_P[OF z])
qed

section \<open>The claims\<close>

text \<open>
  C9. The incident solar power does not depend on the location: for the same array of
  elapsed times, any two latitude arrays and any two longitude arrays give the same result,
  which is the Gaussian irradiance fit at the wrapped time of each element, scaled by
  panel area times panel efficiency.
\<close>

theorem C9_solarpower_ignores_location:
  "calculate_incident_solarpower cfg globaltime lat1 lon1 =
     calculate_incident_solarpower cfg globaltime lat2 lon2
   \<and> (DT cfg \<noteq> 0 \<longrightarrow>
        calculate_incident_solarpower cfg globaltime lat1 lon1 =
          Inr (map (\<lambda>t. 1073.099
                 * exp (- 0.5 * ((RaceStartTime cfg + np_mod t (DT cfg) - 51908.735) / 11484.950) ^ 2)
                 * (PanelArea cfg * PanelEfficiency cfg)) globaltime))"
  by (simp add: calculate_incident_solarpower_def calc_solar_irradiance_def power_coeff_def
        Let_def comp_def)

theorem C9_witness:
  "DT default_config \<noteq> 0 \<and>
   calculate_incident_solarpower default_config [0] [12] [77] =
     calculate_incident_solarpower default_config [0] [13] [80] \<and>
   calculate_incident_solarpower default_config [0] [12] [77] =
     Inr [1073.099 * exp (- 0.5 * ((32400 - 51908.735) / 11484.950) ^ 2) * (6 * 0.19)]"
proof -
  have dt: "DT default_config \<noteq> 0" by (simp add: DT_def default_config_def)
  note th = C9_solarpower_ignores_location[of default_config "[0]" "[12]" "[77]" "[13]" "[80]"]
  have same: "calculate_incident_solarpower default_config [0] [12] [77] =
      calculate_incident_solarpower default_config [0] [13] [80]"
    using th by blast
  have ev: "map (\<lambda>t. 1073.099
        * exp (- 0.5 * ((RaceStartTime default_config + np_mod t (DT default_config) - 51908.735)
                         / 11484.950) ^ 2)
        * (PanelArea default_config * PanelEfficiency default_config)) [0]
      = [1073.099 * exp (- 0.5 * ((32400 - 51908.735) / 11484.950) ^ 2) * (6 * 0.19)]"
    by (simp add: np_mod_def default_config_def)
  have val: "calculate_incident_solarpower default_config [0] [12] [77] =
      Inr [1073.099 * exp (- 0.5 * ((32400 - 51908.735) / 11484.950) ^ 2) * (6 * 0.19)]"
    using th dt unfolding ev by blast
  show ?thesis using dt same val by blast
qed

text \<open>
  C7. Every element of the net power returned by \<open>calculate_power\<close> is at least zero,
  whatever the speed, acceleration and slope arrays are: the sum of the power terms is
  clipped at zero before it is returned.
\<close>

theorem C7_net_power_nonneg:
  "calculate_power cfg speed acceleration slope = Some (Inr (P, PO)) \<Longrightarrow> \<forall>p \<in> set P. 0 \<le> p"
  by (auto simp: calculate_power_unfold power_tail_def and_then_Inr clip0_nonneg
           split: if_splits option.splits sum.splits prod.splits)

theorem C7_witness:
  "calculate_power default_config [10] [- 1] [0] = Some (Inr ([0], [output_power default_config 10]))
   \<and> (0::real) \<in> set [0] \<and> (0::real) \<le> 0"
  using C7_net_power_nonneg[OF calculate_power_braking] calculate_power_braking by simp

text \<open>
  C3, as claimed: for every input the winding temperature iteration of \<open>calculate_power\<close>
  terminates, being capped at a fixed number of passes and reporting a
  ThermalConvergenceError beyond it. The loop of the source is \<open>while True\<close> with no cap
  and no error: at the speed \<open>1000\<close> the temperature grows at every pass and the function
  never returns.
\<close>

theorem C3_counterexample: "calculate_power default_config [1000] [0] [0] = None"
proof -
  have car: "car_as_configured default_config" by (rule car_default)
  have cfg: "Ta default_config = 295" "R_Out default_config = 0.2785"
    using car by (simp_all add: car_as_configured_def)
  have t: "15000 \<le> torque default_config 1000"
    unfolding torque_configured[OF car] by simp
  have "thermal_loop default_config [torque default_config 1000] [1000 ^ 2] [295] = None"
    by (rule thermal_loop_diverges[OF cfg(1) t]) simp_all
  then show ?thesis
    unfolding calculate_power_unfold by (simp add: cfg)
qed

text \<open>
  C3, amended: the iteration has no cap and reports no error; it leaves only when every
  element has converged. For every input whose speeds all lie within the configured range
  (\<open>|speed| \<le> MaxVelocity = 35\<close>), with acceleration and slope arrays of the length of
  the speed array, it does converge and \<open>calculate_power\<close> returns its two arrays.
\<close>

theorem C3_terminates_in_range:
  assumes "\<forall>v \<in> set speed. \<bar>v\<bar> \<le> MaxVelocity default_config"
    and "length acceleration = length speed" "length slope = length speed"
  shows "\<exists>P PO. calculate_power default_config speed acceleration slope = Some (Inr (P, PO))
           \<and> length P = length speed \<and> length PO = length speed"
proof -
  have "\<forall>k<length speed. \<bar>speed ! k\<bar> \<le> 35"
    using assms(1) by (simp add: default_config_def)
  from calculate_power_in_range[OF car_default this assms(2,3)] show ?thesis
    by auto
qed

theorem C3_witness:
  "(\<exists>P PO. calculate_power default_config [10, - 35] [- 1, 2] [0, 5] = Some (Inr (P, PO))
           \<and> length P = 2 \<and> length PO = 2)"
proof -
  have mv: "MaxVelocity default_config = 35" by (simp add: default_config_def)
  have h: "\<forall>v \<in> set [10, - 35]. \<bar>v\<bar> \<le> MaxVelocity default_config" by (simp add: mv)
  from C3_terminates_in_range[OF h, of "[- 1, 2]" "[0, 5]"] show ?thesis
    by (simp add: numeral_2_eq_2)
qed

text \<open>
  C8. \<open>calculate_dt(start_speed, stop_speed, dx)\<close> returns, element by element, exactly
  \<open>2 * dx / (start_speed + stop_speed + EPSILON)\<close> with \<open>EPSILON = 10^-8\<close>. When both
  endpoint speeds are zero the divisor is \<open>EPSILON\<close>, so the function returns a value
  (\<open>2 * dx / EPSILON\<close>, which is 0 when \<open>dx\<close> is 0) and no division fails. Whenever
  \<open>dx > 0\<close> and both endpoint speeds are non-negative with at least one positive, the
  element returned is strictly positive.
\<close>

theorem C8_calculate_dt:
  assumes len: "length start_speed = length dx" "length stop_speed = length dx"
  shows "EPSILON = 1 / 10 ^ 8 \<and>
    ((\<forall>k<length dx. start_speed ! k + stop_speed ! k + EPSILON \<noteq> 0) \<longrightarrow>
       calculate_dt start_speed stop_speed dx =
         Inr (map (\<lambda>k. 2 * dx ! k / (start_speed ! k + stop_speed ! k + EPSILON)) [0..<length dx])) \<and>
    ((\<forall>k<length dx. start_speed ! k = 0 \<and> stop_speed ! k = 0) \<longrightarrow>
       calculate_dt start_speed stop_speed dx = Inr (map (\<lambda>k. 2 * dx ! k / EPSILON) [0..<length dx])) \<and>
    (\<forall>dt k. calculate_dt start_speed stop_speed dx = Inr dt \<and> k < length dx \<and> 0 < dx ! k \<and>
        0 \<le> start_speed ! k \<and> 0 \<le> stop_speed ! k \<and> (0 < start_speed ! k \<or> 0 < stop_speed ! k)
        \<longrightarrow> 0 < dt ! k)"
proof -
  note eq = calculate_dt_nth[OF len refl]
  have e: "EPSILON = 1 / 10 ^ 8" by (rule EPSILON_def)
  have a: "calculate_dt start_speed stop_speed dx =
         Inr (map (\<lambda>k. 2 * dx ! k / (start_speed ! k + stop_speed ! k + EPSILON)) [0..<length dx])"
    if "\<forall>k<length dx. start_speed ! k + stop_speed ! k + EPSILON \<noteq> 0"
    using that unfolding eq by simp
  have b: "calculate_dt start_speed stop_speed dx = Inr (map (\<lambda>k. 2 * dx ! k / EPSILON) [0..<length dx])"
    if z: "\<forall>k<length dx. start_speed ! k = 0 \<and> stop_speed ! k = 0"
  proof -
    have "\<not> (\<exists>k<length dx. start_speed ! k + stop_speed ! k + EPSILON = 0)"
      using z by (simp add: EPSILON_def)
    moreover have "map (\<lambda>k. 2 * dx ! k / (start_speed ! k + stop_speed ! k + EPSILON)) [0..<length dx]
        = map (\<lambda>k. 2 * dx ! k / EPSILON) [0..<length dx]"
      using z by (intro nth_equalityI) simp_all
    ultimately show ?thesis unfolding eq by (simp only: if_False)
  qed
  have c: "0 < dt ! k"
    if "calculate_dt start_speed stop_speed dx = Inr dt" "k < length dx" "0 < dx ! k"
      "0 \<le> start_speed ! k" "0 \<le> stop_speed ! k" "0 < start_speed ! k \<or> 0 < stop_speed ! k"
    for dt k
  proof -
    from that(1) have "dt = map (\<lambda>k. 2 * dx ! k / (start_speed ! k + stop_speed ! k + EPSILON)) [0..<length dx]"
      unfolding eq by (simp split: if_splits)
    then have "dt ! k = 2 * dx ! k / (start_speed ! k + stop_speed ! k + EPSILON)"
      using that(2) by simp
    moreover have "0 < start_speed ! k + stop_speed ! k + EPSILON"
      using that(4,5) by (simp add: EPSILON_def add_nonneg_pos)
    ultimately show ?thesis using that(3) by simp
  qed
  show ?thesis using e a b c by blast
qed

theorem C8_witness:
  "calculate_dt [0, 0] [0, 0] [0, 5] = Inr [0, 2 * 5 / EPSILON]
   \<and> calculate_dt [3, 0] [4, 2] [7, 1] = Inr [2 * 7 / (3 + 4 + EPSILON), 2 * 1 / (0 + 2 + EPSILON)]
   \<and> 0 < 2 * 7 / (3 + 4 + EPSILON) \<and> 0 < 2 * 1 / (0 + 2 + EPSILON)"
proof -
  have l: "length [0, 0::real] = length [0, 5::real]" by simp
  have z: "\<forall>k<length [0, 5::real]. [0, 0::real] ! k = 0 \<and> [0, 0::real] ! k = 0"
    by (simp add: All_less_Suc)
  from C8_calculate_dt[OF l l] z
  have "calculate_dt [0, 0] [0, 0] [0, 5] = Inr (map (\<lambda>k. 2 * [0, 5] ! k / EPSILON) [0..<length [0, 5::real]])"
    by blast
  moreover have "map (\<lambda>k. 2 * [0, 5] ! k / EPSILON) [0..<length [0, 5::real]] = [0, 2 * 5 / EPSILON]"
    by (simp add: upt_rec)
  ultimately have first: "calculate_dt [0, 0] [0, 0] [0, 5] = Inr [0, 2 * 5 / EPSILON]" by simp
  have l2: "length [3, 0::real] = length [7, 1::real]" "length [4, 2::real] = length [7, 1::real]"
    by simp_all
  note th = C8_calculate_dt[OF l2]
  have nz: "\<forall>k<length [7, 1::real]. [3, 0::real] ! k + [4, 2] ! k + EPSILON \<noteq> 0"
    by (simp add: All_less_Suc EPSILON_def)
  from th nz have "calculate_dt [3, 0] [4, 2] [7, 1] =
      Inr (map (\<lambda>k. 2 * [7, 1] ! k / ([3, 0] ! k + [4, 2] ! k + EPSILON)) [0..<length [7, 1::real]])"
    by blast
  moreover have "map (\<lambda>k. 2 * [7, 1] ! k / ([3, 0] ! k + [4, 2] ! k + EPSILON)) [0..<length [7, 1::real]]
      = [2 * 7 / (3 + 4 + EPSILON), 2 * 1 / (0 + 2 + EPSILON)]"
    by (simp add: upt_rec)
  ultimately have second: "calculate_dt [3, 0] [4, 2] [7, 1] =
      Inr [2 * 7 / (3 + 4 + EPSILON), 2 * 1 / (0 + 2 + EPSILON)]" by simp
  from th second have "0 < [2 * 7 / (3 + 4 + EPSILON), 2 * 1 / (0 + 2 + EPSILON)] ! 0"
    by (elim conjE allE[where x = "[2 * 7 / (3 + 4 + EPSILON), 2 * 1 / (0 + 2 + EPSILON)]"] allE[where x = 0])
       simp
  moreover from th second have "0 < [2 * 7 / (3 + 4 + EPSILON), 2 * 1 / (0 + 2 + EPSILON)] ! 1"
    by (elim conjE allE[where x = "[2 * 7 / (3 + 4 + EPSILON), 2 * 1 / (0 + 2 + EPSILON)]"] allE[where x = 1])
       simp
  ultimately show ?thesis using first second by simp
qed

text \<open>
  C6. Whenever \<open>extract_profiles\<close> returns its profiles for a velocity profile and a route,
  the last entry of its cumulative-time array is the value of \<open>objective\<close> on the same
  velocity profile and segment array: both are the sum of the per-segment \<open>dt\<close> (over the
  reals; the rounding of the two summation orders is not modelled).
\<close>

theorem C6_total_time_roundtrip:
  "extract_profiles cfg velocity_profile segment_array slope_array lattitude_array longitude_array
     = Some (Inr r) \<Longrightarrow>
   objective velocity_profile segment_array = Inr (last (cumulative_time r))"
  using last_cumsum_from[of 0]
  by (auto simp: extract_profiles_def objective_def Let_def and_then_Inr cumsum_def
           split: if_splits option.splits sum.splits prod.splits)

theorem C6_witness:
  "\<exists>r. extract_profiles default_config [0, 10, 0] [100, 100] [0, 0] [0, 0] [0, 0] = Some (Inr r)
     \<and> objective [0, 10, 0] [100, 100] = Inr (last (cumulative_time r))"
  using extract_profiles_A C6_total_time_roundtrip by blast

text \<open>
  C2. For a velocity profile and a route (one node more than segments, a slope for every
  segment), the first component returned by \<open>battery_acc_constraint_func\<close> is the minimum
  over the segments of the cumulative battery trajectory, minus \<open>SafeBatteryLevel\<close>. The
  trajectory is \<open>InitialBatteryCapacity - cumsum((net_power - solar_power) * dt) / 3600\<close>,
  with \<open>dt\<close> from \<open>calculate_dt\<close> on adjacent nodes, the net power from \<open>calculate_power\<close>
  on the average speed, acceleration and slope of each segment, and the solar power from
  \<open>calculate_incident_solarpower\<close> at the cumulative elapsed times.
\<close>

theorem C2_battery_margin:
  assumes res: "battery_acc_constraint_func cfg v_prof segment_array slope_array latitude_array
      longitude_array = Some (Inr (b, a))"
    and len: "length v_prof = Suc (length segment_array)" "length slope_array = length segment_array"
  shows "\<exists>dt acceleration P PO SolP.
     calculate_dt (butlast v_prof) (tl v_prof) segment_array = Inr dt \<and>
     np_div (map (\<lambda>(s, e). e - s) (zip (butlast v_prof) (tl v_prof))) dt = Inr acceleration \<and>
     calculate_power cfg (map (\<lambda>(s, e). (s + e) / 2) (zip (butlast v_prof) (tl v_prof)))
       acceleration slope_array = Some (Inr (P, PO)) \<and>
     calculate_incident_solarpower cfg (cumsum dt) latitude_array longitude_array = Inr SolP \<and>
     length dt = length segment_array \<and> length P = length segment_array \<and>
     length SolP = length segment_array \<and>
     b = Min (set (battery_trajectory cfg P SolP dt)) - SafeBatteryLevel cfg"
  using assms by (rule battery_margin_arrays)

theorem C2_witness:
  "\<exists>b a. battery_acc_constraint_func default_config [0, 10, 0] [100, 100] [0, 0] [0, 0] [0, 0]
      = Some (Inr (b, a)) \<and>
    (\<exists>dt acceleration P PO SolP.
     calculate_dt (butlast [0, 10, 0]) (tl [0, 10, 0]) [100, 100] = Inr dt \<and>
     np_div (map (\<lambda>(s, e). e - s) (zip (butlast [0, 10, 0]) (tl [0, 10, 0]))) dt = Inr acceleration \<and>
     calculate_power default_config (map (\<lambda>(s, e). (s + e) / 2) (zip (butlast [0, 10, 0]) (tl [0, 10, 0])))
       acceleration [0, 0] = Some (Inr (P, PO)) \<and>
     calculate_incident_solarpower default_config (cumsum dt) [0, 0] [0, 0] = Inr SolP \<and>
     length dt = length [100, 100::real] \<and> length P = length [100, 100::real] \<and>
     length SolP = length [100, 100::real] \<and>
     b = Min (set (battery_trajectory default_config P SolP dt)) - SafeBatteryLevel default_config)"
proof -
  from profile_A_returns obtain b a where
    res: "battery_acc_constraint_func default_config [0, 10, 0] [100, 100] [0, 0] [0, 0] [0, 0]
      = Some (Inr (b, a))" by blast
  from C2_battery_margin[OF res profile_A(1,2)] res show ?thesis by blast
qed

text \<open>
  C1, as claimed: whenever the second component returned by \<open>battery_acc_constraint_func\<close>
  is non-negative, the commanded acceleration \<open>(stop_speed - start_speed) / dt\<close> is at most
  the deliverable acceleration \<open>output_power.clip(0) / (Mass * avg_speed)\<close> on every
  segment. The function returns the maximum over the segments of the difference, so one
  favourable segment makes it non-negative: for the profile \<open>[0, 10, 0]\<close> on two flat
  segments of 100 m the second component is non-negative (the braking segment), while on the
  first segment the commanded acceleration is above 0.5 and the deliverable one below 0.05.
\<close>

theorem C1_counterexample:
  "\<exists>b a dt acceleration P PO.
     battery_acc_constraint_func default_config [0, 10, 0] [100, 100] [0, 0] [0, 0] [0, 0]
       = Some (Inr (b, a)) \<and>
     0 \<le> a \<and>
     calculate_dt [0, 10] [10, 0] [100, 100] = Inr dt \<and>
     np_div [10, - 10] dt = Inr acceleration \<and>
     calculate_power default_config [5, 5] acceleration [0, 0] = Some (Inr (P, PO)) \<and>
     max 0 (PO ! 0) / (Mass default_config * 5) < 0.05 \<and>
     0.5 < acceleration ! 0"
proof -
  from profile_A_returns obtain b a where
    res: "battery_acc_constraint_func default_config [0, 10, 0] [100, 100] [0, 0] [0, 0] [0, 0]
      = Some (Inr (b, a))" by blast
  from battery_acc_result[OF res profile_A(1,2)] obtain P PO where
    cp: "calculate_power default_config (map (seg_avg [0, 10, 0]) [0..<length [100, 100::real]])
        (map (seg_acc [0, 10, 0] [100, 100]) [0..<length [100, 100::real]]) [0, 0] = Some (Inr (P, PO))"
    and a: "a = Max ((\<lambda>k. deliverable_acc default_config [0, 10, 0] k - seg_acc [0, 10, 0] [100, 100] k)
                  ` {..<length [100, 100::real]})"
    by blast
  have PO: "PO = map (output_power default_config) [5, 5]"
    using calculate_power_Inr(2)[OF cp] unfolding profile_A_arrays by simp
  have op: "0 \<le> output_power default_config 5" "output_power default_config 5 < 65"
    unfolding output_power_def torque_configured[OF car_default, unfolded torque_def]
    by (simp_all add: car_values[OF car_default])
  have d1: "0 \<le> deliverable_acc default_config [0, 10, 0] 1"
    using op by (simp add: deliverable_acc_def seg_avg_def default_values)
  have a1: "seg_acc [0, 10, 0] [100, 100] 1 < 0"
    by (simp add: seg_acc_def seg_dt_def EPSILON_def)
  have "deliverable_acc default_config [0, 10, 0] 1 - seg_acc [0, 10, 0] [100, 100] 1 \<le> a"
    unfolding a by (rule Max_ge) simp_all
  then have a0: "0 \<le> a" using d1 a1 by linarith
  have e1: "calculate_dt [0, 10] [10, 0] [100, 100] = Inr [200 / (10 + EPSILON), 200 / (10 + EPSILON)]"
    using segment_arrays(2)[OF profile_A(1)] profile_A(3)
    by (simp only: profile_A_arrays) simp
  have e2: "np_div [10, - 10] [200 / (10 + EPSILON), 200 / (10 + EPSILON)]
      = Inr [10 / (200 / (10 + EPSILON)), - 10 / (200 / (10 + EPSILON))]"
    using segment_arrays(3)[OF profile_A(1)] profile_A(4)
    by (simp only: profile_A_arrays) simp
  have e3: "calculate_power default_config [5, 5]
      [10 / (200 / (10 + EPSILON)), - 10 / (200 / (10 + EPSILON))] [0, 0] = Some (Inr (P, PO))"
    using cp by (simp only: profile_A_arrays)
  have e4: "max 0 (PO ! 0) / (Mass default_config * 5) < 0.05"
    using op by (simp add: PO default_values)
  have e5: "0.5 < [10 / (200 / (10 + EPSILON)), - 10 / (200 / (10 + EPSILON))] ! 0"
    by (simp add: EPSILON_def)
  show ?thesis using res a0 e1 e2 e3 e4 e5 by blast
qed

text \<open>
  C1, amended: the second component returned by \<open>battery_acc_constraint_func\<close> is the
  maximum over the segments of the deliverable acceleration
  \<open>output_power.clip(0) / (Mass * avg_speed)\<close> minus the commanded acceleration
  \<open>(stop_speed - start_speed) / dt\<close>. It is non-negative if and only if the commanded
  acceleration is at most the deliverable one on at least one segment: it certifies the
  most favourable segment, not every segment.
\<close>

theorem C1_margin_of_best_segment:
  assumes res: "battery_acc_constraint_func cfg v_prof segment_array slope_array latitude_array
      longitude_array = Some (Inr (b, a))"
    and len: "length v_prof = Suc (length segment_array)" "length slope_array = length segment_array"
  shows "\<exists>dt acceleration P PO.
     calculate_dt (butlast v_prof) (tl v_prof) segment_array = Inr dt \<and>
     np_div (map (\<lambda>(s, e). e - s) (zip (butlast v_prof) (tl v_prof))) dt = Inr acceleration \<and>
     calculate_power cfg (map (\<lambda>(s, e). (s + e) / 2) (zip (butlast v_prof) (tl v_prof)))
       acceleration slope_array = Some (Inr (P, PO)) \<and>
     length acceleration = length segment_array \<and> length PO = length segment_array \<and>
     a = Max ((\<lambda>k. max 0 (PO ! k) / (Mass cfg * ((v_prof ! k + v_prof ! Suc k) / 2)) - acceleration ! k)
               ` {..<length segment_array}) \<and>
     (0 \<le> a \<longleftrightarrow>
        (\<exists>k<length segment_array.
           acceleration ! k \<le> max 0 (PO ! k) / (Mass cfg * ((v_prof ! k + v_prof ! Suc k) / 2))))"
proof -
  from constraint_arrays[OF res len] obtain dt acceleration P PO SolP where
    e: "calculate_dt (butlast v_prof) (tl v_prof) segment_array = Inr dt"
    "np_div (map (\<lambda>(s, e). e - s) (zip (butlast v_prof) (tl v_prof))) dt = Inr acceleration"
    "calculate_power cfg (map (\<lambda>(s, e). (s + e) / 2) (zip (butlast v_prof) (tl v_prof)))
       acceleration slope_array = Some (Inr (P, PO))"
    and "calculate_incident_solarpower cfg (cumsum dt) latitude_array longitude_array = Inr SolP"
    and l: "length acceleration = length segment_array" "length PO = length segment_array"
    and n0: "0 < length segment_array"
    and acc: "\<forall>k<length segment_array. acceleration ! k = seg_acc v_prof segment_array k"
    and PO: "\<forall>k<length segment_array. PO ! k = output_power cfg (seg_avg v_prof k)"
    and a: "a = Max ((\<lambda>k. deliverable_acc cfg v_prof k - seg_acc v_prof segment_array k)
                  ` {..<length segment_array})"
    by blast
  have img: "(\<lambda>k. deliverable_acc cfg v_prof k - seg_acc v_prof segment_array k) ` {..<length segment_array}
      = (\<lambda>k. max 0 (PO ! k) / (Mass cfg * ((v_prof ! k + v_prof ! Suc k) / 2)) - acceleration ! k)
          ` {..<length segment_array}"
    by (rule image_cong) (simp_all add: acc PO deliverable_acc_def seg_avg_def)
  have a': "a = Max ((\<lambda>k. max 0 (PO ! k) / (Mass cfg * ((v_prof ! k + v_prof ! Suc k) / 2)) - acceleration ! k)
               ` {..<length segment_array})"
    unfolding a img ..
  have "0 \<le> a \<longleftrightarrow>
      (\<exists>x \<in> (\<lambda>k. max 0 (PO ! k) / (Mass cfg * ((v_prof ! k + v_prof ! Suc k) / 2)) - acceleration ! k)
               ` {..<length segment_array}. 0 \<le> x)"
    unfolding a' using n0 by (intro Max_ge_iff) auto
  also have "\<dots> \<longleftrightarrow> (\<exists>k<length segment_array.
           acceleration ! k \<le> max 0 (PO ! k) / (Mass cfg * ((v_prof ! k + v_prof ! Suc k) / 2)))"
    by auto
  finally show ?thesis using e l a' by blast
qed

theorem C1_witness:
  "\<exists>b a. battery_acc_constraint_func default_config [0, 10, 0] [100, 100] [0, 0] [0, 0] [0, 0]
      = Some (Inr (b, a)) \<and>
   (\<exists>dt acceleration P PO.
     calculate_dt (butlast [0, 10, 0]) (tl [0, 10, 0]) [100, 100] = Inr dt \<and>
     np_div (map (\<lambda>(s, e). e - s) (zip (butlast [0, 10, 0]) (tl [0, 10, 0]))) dt = Inr acceleration \<and>
     calculate_power default_config (map (\<lambda>(s, e). (s + e) / 2) (zip (butlast [0, 10, 0]) (tl [0, 10, 0])))
       acceleration [0, 0] = Some (Inr (P, PO)) \<and>
     length acceleration = length [100, 100::real] \<and> length PO = length [100, 100::real] \<and>
     a = Max ((\<lambda>k. max 0 (PO ! k) / (Mass default_config * (([0, 10, 0] ! k + [0, 10, 0] ! Suc k) / 2))
                    - acceleration ! k) ` {..<length [100, 100::real]}) \<and>
     (0 \<le> a \<longleftrightarrow>
        (\<exists>k<length [100, 100::real].
           acceleration ! k \<le> max 0 (PO ! k) / (Mass default_config * (([0, 10, 0] ! k + [0, 10, 0] ! Suc k) / 2)))))"
proof -
  from profile_A_returns obtain b a where
    res: "battery_acc_constraint_func default_config [0, 10, 0] [100, 100] [0, 0] [0, 0] [0, 0]
      = Some (Inr (b, a))" by blast
  from C1_margin_of_best_segment[OF res profile_A(1,2)] res show ?thesis by blast
qed

text \<open>
  C4, as claimed: the cumulative battery trajectory of \<open>battery_acc_constraint_func\<close>
  never increases from one segment to the next. The trajectory subtracts the net energy
  \<open>(net_power - solar_power) * dt\<close> of each segment, and that is negative where the solar
  power exceeds the net power: for the profile \<open>[0, 10, 0]\<close> on two flat segments of
  100 m the net power of the braking segment is clipped to zero, and the battery after the
  second segment is above the battery after the first.
\<close>

theorem C4_counterexample:
  "\<exists>b a dt acceleration P PO SolP.
     battery_acc_constraint_func default_config [0, 10, 0] [100, 100] [0, 0] [0, 0] [0, 0]
       = Some (Inr (b, a)) \<and>
     calculate_dt [0, 10] [10, 0] [100, 100] = Inr dt \<and>
     np_div [10, - 10] dt = Inr acceleration \<and>
     calculate_power default_config [5, 5] acceleration [0, 0] = Some (Inr (P, PO)) \<and>
     calculate_incident_solarpower default_config (cumsum dt) [0, 0] [0, 0] = Inr SolP \<and>
     b = Min (set (battery_trajectory default_config P SolP dt)) - SafeBatteryLevel default_config \<and>
     P ! 1 = 0 \<and>
     battery_trajectory default_config P SolP dt ! 0 < battery_trajectory default_config P SolP dt ! 1"
proof -
  from profile_A_returns obtain b a where
    res: "battery_acc_constraint_func default_config [0, 10, 0] [100, 100] [0, 0] [0, 0] [0, 0]
      = Some (Inr (b, a))" by blast
  from constraint_arrays[OF res profile_A(1,2)] obtain dt acceleration P PO SolP where
    e1: "calculate_dt (butlast [0, 10, 0]) (tl [0, 10, 0]) [100, 100] = Inr dt"
    and e2: "np_div (map (\<lambda>(s, e). e - s) (zip (butlast [0, 10, 0]) (tl [0, 10, 0]))) dt = Inr acceleration"
    and e3: "calculate_power default_config (map (\<lambda>(s, e). (s + e) / 2) (zip (butlast [0, 10, 0]) (tl [0, 10, 0])))
       acceleration [0, 0] = Some (Inr (P, PO))"
    and e4: "calculate_incident_solarpower default_config (cumsum dt) [0, 0] [0, 0] = Inr SolP"
    and l: "length dt = length [100, 100::real]" "length acceleration = length [100, 100::real]"
    and dt: "\<forall>k<length [100, 100::real]. dt ! k = seg_dt [0, 10, 0] [100, 100] k"
    and acc: "\<forall>k<length [100, 100::real]. acceleration ! k = seg_acc [0, 10, 0] [100, 100] k"
    and sol: "\<forall>k<length [100, 100::real]. SolP ! k = solar_power default_config [0, 10, 0] [100, 100] k"
    and b: "b = Min (set (battery_trajectory default_config P SolP dt)) - SafeBatteryLevel default_config"
    by blast
  have acceleration: "acceleration = map (seg_acc [0, 10, 0] [100, 100]) [0..<length [100, 100::real]]"
    using l(2) acc by (rule list_eq_map_upt)
  from calculate_power_segments[OF car_default profile_A(1,2,5)]
  obtain Pc Pe where
    bd: "\<forall>k<length [100, 100::real]. 0 \<le> Pc ! k \<and> Pc ! k \<le> 53 \<and> 0 \<le> Pe ! k \<and> Pe ! k \<le> 5"
    and cp: "calculate_power default_config (map (seg_avg [0, 10, 0]) [0..<length [100, 100::real]])
        (map (seg_acc [0, 10, 0] [100, 100]) [0..<length [100, 100::real]]) [0, 0] =
        Some (Inr (map (\<lambda>k. net_power_of default_config (seg_avg [0, 10, 0] k)
                            (seg_acc [0, 10, 0] [100, 100] k) ([0, 0] ! k) (Pc ! k) (Pe ! k))
                     [0..<length [100, 100::real]],
                   map (output_power default_config) (map (seg_avg [0, 10, 0]) [0..<length [100, 100::real]])))"
    by blast
  have "calculate_power default_config (map (seg_avg [0, 10, 0]) [0..<length [100, 100::real]])
        (map (seg_acc [0, 10, 0] [100, 100]) [0..<length [100, 100::real]]) [0, 0] = Some (Inr (P, PO))"
    using e3 unfolding acceleration profile_A_arrays by simp
  with cp have P: "P = map (\<lambda>k. net_power_of default_config (seg_avg [0, 10, 0] k)
                            (seg_acc [0, 10, 0] [100, 100] k) ([0, 0] ! k) (Pc ! k) (Pe ! k))
                     [0..<length [100, 100::real]]"
    by simp
  have a1: "seg_acc [0, 10, 0] [100, 100] 1 \<le> - 0.5"
    by (simp add: seg_acc_def seg_dt_def EPSILON_def)
  have "Pc ! 1 \<le> 53" "Pe ! 1 \<le> 5" using bd by simp_all
  from net_power_braking_5[OF car_default this a1]
  have P1: "P ! 1 = 0" unfolding P by (simp add: seg_avg_def)
  have S1: "0 < SolP ! 1"
    using sol solar_power_pos[of default_config] by (simp add: default_values)
  have d1: "0 < dt ! 1"
    using dt by (simp add: seg_dt_def EPSILON_def)
  have "battery_trajectory default_config P SolP dt ! Suc 0 =
      battery_trajectory default_config P SolP dt ! 0 - (P ! Suc 0 - SolP ! Suc 0) * dt ! Suc 0 / 3600"
    by (rule battery_trajectory_step) (simp add: l)
  moreover have "0 < SolP ! 1 * dt ! 1" using S1 d1 by simp
  ultimately have up: "battery_trajectory default_config P SolP dt ! 0
      < battery_trajectory default_config P SolP dt ! 1"
    using P1 by simp
  have e1': "calculate_dt [0, 10] [10, 0] [100, 100] = Inr dt"
    using e1 by (simp only: profile_A_arrays)
  have e2': "np_div [10, - 10] dt = Inr acceleration"
    using e2 by (simp only: profile_A_arrays)
  have e3': "calculate_power default_config [5, 5] acceleration [0, 0] = Some (Inr (P, PO))"
    using e3 by (simp only: profile_A_arrays)
  show ?thesis using res e1' e2' e3' e4 b P1 up by blast
qed

text \<open>
  C4, amended: along the segments of the route the cumulative battery trajectory of
  \<open>battery_acc_constraint_func\<close> falls by the net energy \<open>(net_power - solar_power) * dt\<close>
  of each segment. From one segment to the next it is non-increasing if and only if the
  solar energy of the segment is at most its net energy (\<open>solar_power * dt \<le> net_power * dt\<close>);
  it rises over a segment whose solar power exceeds its net power.
\<close>

theorem C4_trajectory_step:
  assumes res: "battery_acc_constraint_func cfg v_prof segment_array slope_array latitude_array
      longitude_array = Some (Inr (b, a))"
    and len: "length v_prof = Suc (length segment_array)" "length slope_array = length segment_array"
  shows "\<exists>dt acceleration P PO SolP.
     calculate_dt (butlast v_prof) (tl v_prof) segment_array = Inr dt \<and>
     np_div (map (\<lambda>(s, e). e - s) (zip (butlast v_prof) (tl v_prof))) dt = Inr acceleration \<and>
     calculate_power cfg (map (\<lambda>(s, e). (s + e) / 2) (zip (butlast v_prof) (tl v_prof)))
       acceleration slope_array = Some (Inr (P, PO)) \<and>
     calculate_incident_solarpower cfg (cumsum dt) latitude_array longitude_array = Inr SolP \<and>
     b = Min (set (battery_trajectory cfg P SolP dt)) - SafeBatteryLevel cfg \<and>
     (\<forall>k. Suc k < length segment_array \<longrightarrow>
        battery_trajectory cfg P SolP dt ! Suc k =
          battery_trajectory cfg P SolP dt ! k - (P ! Suc k - SolP ! Suc k) * dt ! Suc k / 3600 \<and>
        (battery_trajectory cfg P SolP dt ! Suc k \<le> battery_trajectory cfg P SolP dt ! k
           \<longleftrightarrow> SolP ! Suc k * dt ! Suc k \<le> P ! Suc k * dt ! Suc k))"
proof -
  from constraint_arrays[OF res len] obtain dt acceleration P PO SolP where
    e: "calculate_dt (butlast v_prof) (tl v_prof) segment_array = Inr dt"
    "np_div (map (\<lambda>(s, e). e - s) (zip (butlast v_prof) (tl v_prof))) dt = Inr acceleration"
    "calculate_power cfg (map (\<lambda>(s, e). (s + e) / 2) (zip (butlast v_prof) (tl v_prof)))
       acceleration slope_array = Some (Inr (P, PO))"
    "calculate_incident_solarpower cfg (cumsum dt) latitude_array longitude_array = Inr SolP"
    and l: "length dt = length segment_array"
    and b: "b = Min (set (battery_trajectory cfg P SolP dt)) - SafeBatteryLevel cfg"
    by blast
  have step: "battery_trajectory cfg P SolP dt ! Suc k =
          battery_trajectory cfg P SolP dt ! k - (P ! Suc k - SolP ! Suc k) * dt ! Suc k / 3600 \<and>
        (battery_trajectory cfg P SolP dt ! Suc k \<le> battery_trajectory cfg P SolP dt ! k
           \<longleftrightarrow> SolP ! Suc k * dt ! Suc k \<le> P ! Suc k * dt ! Suc k)"
    if "Suc k < length segment_array" for k
  proof -
    have s: "battery_trajectory cfg P SolP dt ! Suc k =
          battery_trajectory cfg P SolP dt ! k - (P ! Suc k - SolP ! Suc k) * dt ! Suc k / 3600"
      by (rule battery_trajectory_step) (simp add: l that)
    have "(battery_trajectory cfg P SolP dt ! Suc k \<le> battery_trajectory cfg P SolP dt ! k)
        \<longleftrightarrow> 0 \<le> (P ! Suc k - SolP ! Suc k) * dt ! Suc k"
      unfolding s by simp
    also have "\<dots> \<longleftrightarrow> SolP ! Suc k * dt ! Suc k \<le> P ! Suc k * dt ! Suc k"
      by (simp add: algebra_simps)
    finally show ?thesis using s by blast
  qed
  show ?thesis using e b step by blast
qed

theorem C4_witness:
  "\<exists>b a. battery_acc_constraint_func default_config [0, 10, 0] [100, 100] [0, 0] [0, 0] [0, 0]
      = Some (Inr (b, a)) \<and>
   (\<exists>dt acceleration P PO SolP.
     calculate_dt (butlast [0, 10, 0]) (tl [0, 10, 0]) [100, 100] = Inr dt \<and>
     np_div (map (\<lambda>(s, e). e - s) (zip (butlast [0, 10, 0]) (tl [0, 10, 0]))) dt = Inr acceleration \<and>
     calculate_power default_config (map (\<lambda>(s, e). (s + e) / 2) (zip (butlast [0, 10, 0]) (tl [0, 10, 0])))
       acceleration [0, 0] = Some (Inr (P, PO)) \<and>
     calculate_incident_solarpower default_config (cumsum dt) [0, 0] [0, 0] = Inr SolP \<and>
     b = Min (set (battery_trajectory default_config P SolP dt)) - SafeBatteryLevel default_config \<and>
     battery_trajectory default_config P SolP dt ! Suc 0 =
          battery_trajectory default_config P SolP dt ! 0 - (P ! Suc 0 - SolP ! Suc 0) * dt ! Suc 0 / 3600 \<and>
     (battery_trajectory default_config P SolP dt ! Suc 0 \<le> battery_trajectory default_config P SolP dt ! 0
           \<longleftrightarrow> SolP ! Suc 0 * dt ! Suc 0 \<le> P ! Suc 0 * dt ! Suc 0))"
proof -
  from profile_A_returns obtain b a where
    res: "battery_acc_constraint_func default_config [0, 10, 0] [100, 100] [0, 0] [0, 0] [0, 0]
      = Some (Inr (b, a))" by blast
  have s: "Suc 0 < length [100, 100::real]" by simp
  from C4_trajectory_step[OF res profile_A(1,2)] obtain dt acceleration P PO SolP where
    f: "calculate_dt (butlast [0, 10, 0]) (tl [0, 10, 0]) [100, 100] = Inr dt"
     "np_div (map (\<lambda>(s, e). e - s) (zip (butlast [0, 10, 0]) (tl [0, 10, 0]))) dt = Inr acceleration"
     "calculate_power default_config (map (\<lambda>(s, e). (s + e) / 2) (zip (butlast [0, 10, 0]) (tl [0, 10, 0])))
       acceleration [0, 0] = Some (Inr (P, PO))"
     "calculate_incident_solarpower default_config (cumsum dt) [0, 0] [0, 0] = Inr SolP"
     "b = Min (set (battery_trajectory default_config P SolP dt)) - SafeBatteryLevel default_config"
    and g: "\<forall>k. Suc k < length [100, 100::real] \<longrightarrow>
        battery_trajectory default_config P SolP dt ! Suc k =
          battery_trajectory default_config P SolP dt ! k - (P ! Suc k - SolP ! Suc k) * dt ! Suc k / 3600 \<and>
        (battery_trajectory default_config P SolP dt ! Suc k \<le> battery_trajectory default_config P SolP dt ! k
           \<longleftrightarrow> SolP ! Suc k * dt ! Suc k \<le> P ! Suc k * dt ! Suc k)"
    by blast
  from g s have "battery_trajectory default_config P SolP dt ! Suc 0 =
          battery_trajectory default_config P SolP dt ! 0 - (P ! Suc 0 - SolP ! Suc 0) * dt ! Suc 0 / 3600 \<and>
        (battery_trajectory default_config P SolP dt ! Suc 0 \<le> battery_trajectory default_config P SolP dt ! 0
           \<longleftrightarrow> SolP ! Suc 0 * dt ! Suc 0 \<le> P ! Suc 0 * dt ! Suc 0)"
    by blast
  with res f show ?thesis by blast
qed

text \<open>
  C5, as claimed: whenever \<open>InitialBatteryCapacity < SafeBatteryLevel\<close>, the battery margin
  returned by \<open>battery_acc_constraint_func\<close> is strictly negative for every velocity
  profile and every route. The trajectory of the function starts after the first segment
  and includes the solar gain: with config.py's initial charge lowered to 19 percent of
  the capacity (580.45 Wh, below the safe level of 611 Wh), the profile \<open>[1, 0]\<close> on one
  flat segment of 2000 m gains more solar energy than it spends and the margin returned is
  positive.
\<close>

theorem C5_counterexample:
  "InitialBatteryCapacity low_battery_config < SafeBatteryLevel low_battery_config \<and>
   (\<exists>b a. battery_acc_constraint_func low_battery_config [1, 0] [2000] [0] [0] [0] = Some (Inr (b, a))
      \<and> 0 < b)"
proof -
  have dt0: "DT low_battery_config \<noteq> 0" by (simp add: low_battery_values)
  from battery_acc_returns[OF low_battery_values(1) dt0 profile_B(1,2,3,4,5,6,7), of "[0]" "[0]"]
  obtain b a where
    res: "battery_acc_constraint_func low_battery_config [1, 0] [2000] [0] [0] [0] = Some (Inr (b, a))"
    by blast
  from constraint_arrays_in_range[OF res profile_B(1,2) low_battery_values(1) profile_B(6)]
  obtain dt P SolP Pc Pe where
    l: "length dt = length [2000::real]"
    and dt: "\<forall>k<length [2000::real]. dt ! k = seg_dt [1, 0] [2000] k"
    and sol: "\<forall>k<length [2000::real]. SolP ! k = solar_power low_battery_config [1, 0] [2000] k"
    and P: "\<forall>k<length [2000::real]. P ! k = net_power_of low_battery_config (seg_avg [1, 0] k)
          (seg_acc [1, 0] [2000] k) ([0] ! k) (Pc ! k) (Pe ! k)
        \<and> 0 \<le> Pc ! k \<and> Pc ! k \<le> 53 \<and> 0 \<le> Pe ! k \<and> Pe ! k \<le> 5"
    and b: "b = Min (set (battery_trajectory low_battery_config P SolP dt))
              - SafeBatteryLevel low_battery_config"
    by blast
  have d: "3999 \<le> dt ! 0" using dt profile_B(9) by simp
  have s: "107 \<le> SolP ! 0" using sol solar_power_B by simp
  have "P ! 0 = net_power_of low_battery_config 0.5 (seg_acc [1, 0] [2000] 0) 0 (Pc ! 0) (Pe ! 0)"
    "Pc ! 0 \<le> 53" "Pe ! 0 \<le> 5"
    using P by (simp_all add: profile_B(8))
  then have p: "P ! 0 \<le> 64"
    using net_power_coasting[OF low_battery_values(1) _ _ profile_B(11)] by simp
  have "(P ! 0 - SolP ! 0) * dt ! 0 \<le> (- 43) * dt ! 0"
    using p s d by (intro mult_right_mono) simp_all
  also have "\<dots> \<le> (- 43) * 3999" using d by simp
  finally have e: "(P ! 0 - SolP ! 0) * dt ! 0 \<le> - 171957" by simp
  have "b = 580.45 - (P ! 0 - SolP ! 0) * dt ! 0 / 3600 - 611"
    unfolding b using l by (simp add: battery_trajectory_single low_battery_values)
  then have "0 < b" using e by simp
  moreover have "InitialBatteryCapacity low_battery_config < SafeBatteryLevel low_battery_config"
    by (simp add: low_battery_values)
  ultimately show ?thesis using res by blast
qed

text \<open>
  C5, amended: let \<open>InitialBatteryCapacity < SafeBatteryLevel\<close> and let the function return
  the battery margin \<open>b\<close>, computed from the arrays \<open>dt\<close>, \<open>P\<close> and \<open>SolP\<close> of
  \<open>calculate_dt\<close>, \<open>calculate_power\<close> and \<open>calculate_incident_solarpower\<close>. If after some
  segment \<open>k\<close> the energy drawn so far is at least the solar energy collected so far, that
  is \<open>0 \<le> (\<Sum>j\<le>k. (P j - SolP j) * dt j)\<close>, then \<open>b < 0\<close>.
\<close>

theorem C5_low_initial_charge:
  assumes res: "battery_acc_constraint_func cfg velocity_profile segment_array slope_array lattitude_array
                  longitude_array = Some (Inr (b, a))"
    and len: "length velocity_profile = Suc (length segment_array)"
             "length slope_array = length segment_array"
    and low: "InitialBatteryCapacity cfg < SafeBatteryLevel cfg"
    and dt: "calculate_dt (butlast velocity_profile) (tl velocity_profile) segment_array = Inr dt"
    and acc: "np_div (map (\<lambda>(s, e). e - s) (zip (butlast velocity_profile) (tl velocity_profile))) dt
                = Inr acceleration"
    and P: "calculate_power cfg
              (map (\<lambda>(s, e). (s + e) / 2) (zip (butlast velocity_profile) (tl velocity_profile)))
              acceleration slope_array = Some (Inr (P, PO))"
    and SolP: "calculate_incident_solarpower cfg (cumsum dt) lattitude_array longitude_array = Inr SolP"
    and k: "k < length segment_array"
    and drawn: "0 \<le> (\<Sum>j<Suc k. (P ! j - SolP ! j) * dt ! j)"
  shows "b < 0"
proof -
  from constraint_arrays[OF res len] obtain dt' acceleration' P' PO' SolP' where
    e: "calculate_dt (butlast velocity_profile) (tl velocity_profile) segment_array = Inr dt'"
    "np_div (map (\<lambda>(s, e). e - s) (zip (butlast velocity_profile) (tl velocity_profile))) dt'
       = Inr acceleration'"
    "calculate_power cfg
       (map (\<lambda>(s, e). (s + e) / 2) (zip (butlast velocity_profile) (tl velocity_profile)))
       acceleration' slope_array = Some (Inr (P', PO'))"
    "calculate_incident_solarpower cfg (cumsum dt') lattitude_array longitude_array = Inr SolP'"
    and l: "length dt' = length segment_array"
    and b: "b = Min (set (battery_trajectory cfg P' SolP' dt')) - SafeBatteryLevel cfg"
    by blast
  have 1: "dt' = dt" using e(1) dt by simp
  have 2: "acceleration' = acceleration" using e(2) acc unfolding 1 by simp
  have 3: "P' = P" using e(3) P unfolding 2 by simp
  have 4: "SolP' = SolP" using e(4) SolP unfolding 1 by simp
  have kl: "k < length (battery_trajectory cfg P SolP dt)"
    using k l unfolding 1 by (simp add: battery_trajectory_def)
  have "battery_trajectory cfg P SolP dt ! k
      = InitialBatteryCapacity cfg - (\<Sum>j<Suc k. (P ! j - SolP ! j) * dt ! j) / 3600"
    using k l unfolding 1 by (simp add: battery_trajectory_def)
  then have "battery_trajectory cfg P SolP dt ! k \<le> InitialBatteryCapacity cfg"
    using drawn by simp
  moreover have "Min (set (battery_trajectory cfg P SolP dt)) \<le> battery_trajectory cfg P SolP dt ! k"
    using kl by (intro Min_le) simp_all
  ultimately show ?thesis using low unfolding b 3 4 1 by linarith
qed

theorem C5_witness:
  "InitialBatteryCapacity low_battery_config < SafeBatteryLevel low_battery_config \<and>
   (\<exists>b a. battery_acc_constraint_func low_battery_config [0, 20, 0] [100, 100] [0, 0] [0, 0] [0, 0]
            = Some (Inr (b, a)) \<and> b < 0)"
proof -
  have dt0: "DT low_battery_config \<noteq> 0" by (simp add: low_battery_values)
  have low: "InitialBatteryCapacity low_battery_config < SafeBatteryLevel low_battery_config"
    by (simp add: low_battery_values)
  from battery_acc_returns[OF low_battery_values(1) dt0 profile_C(1,2,3,4,5,6,7), of "[0, 0]" "[0, 0]"]
  obtain b a where
    res: "battery_acc_constraint_func low_battery_config [0, 20, 0] [100, 100] [0, 0] [0, 0] [0, 0]
            = Some (Inr (b, a))"
    by blast
  from constraint_arrays_in_range[OF res profile_C(1,2) low_battery_values(1) profile_C(6)]
  obtain dt acceleration P PO SolP Pc Pe where
    e: "calculate_dt (butlast [0, 20, 0]) (tl [0, 20, 0]) [100, 100] = Inr dt"
    "np_div (map (\<lambda>(s, e). e - s) (zip (butlast [0, 20, 0]) (tl [0, 20, 0]))) dt = Inr acceleration"
    "calculate_power low_battery_config
       (map (\<lambda>(s, e). (s + e) / 2) (zip (butlast [0, 20, 0]) (tl [0, 20, 0]))) acceleration [0, 0]
       = Some (Inr (P, PO))"
    "calculate_incident_solarpower low_battery_config (cumsum dt) [0, 0] [0, 0] = Inr SolP"
    and dt: "\<forall>k<length [100, 100::real]. dt ! k = seg_dt [0, 20, 0] [100, 100] k"
    and sol: "\<forall>k<length [100, 100::real]. SolP ! k = solar_power low_battery_config [0, 20, 0] [100, 100] k"
    and Pk: "\<forall>k<length [100, 100::real]. P ! k = net_power_of low_battery_config (seg_avg [0, 20, 0] k)
          (seg_acc [0, 20, 0] [100, 100] k) ([0, 0] ! k) (Pc ! k) (Pe ! k)
        \<and> 0 \<le> Pc ! k \<and> Pc ! k \<le> 53 \<and> 0 \<le> Pe ! k \<and> Pe ! k \<le> 5"
    by blast
  have d: "0 < dt ! 0" using dt profile_C(9) by simp
  have "SolP ! 0 = solar_power low_battery_config [0, 20, 0] [100, 100] 0" using sol by simp
  then have s: "SolP ! 0 \<le> 1224" using solar_power_upper[OF low_battery_values(6)] by simp
  have "P ! 0 = net_power_of low_battery_config 10 (seg_acc [0, 20, 0] [100, 100] 0) 0 (Pc ! 0) (Pe ! 0)"
    "0 \<le> Pc ! 0" "0 \<le> Pe ! 0"
    using Pk by (simp_all add: profile_C(8))
  then have p: "5200 \<le> P ! 0"
    using net_power_accelerating[OF low_battery_values(1) _ _ profile_C(10)] by simp
  have "0 \<le> (P ! 0 - SolP ! 0) * dt ! 0" using p s d by (intro mult_nonneg_nonneg) simp_all
  then have drawn: "0 \<le> (\<Sum>j<Suc 0. (P ! j - SolP ! j) * dt ! j)" by simp
  have k: "0 < length [100, 100::real]" by simp
  have "b < 0" by (rule C5_low_initial_charge[OF res profile_C(1,2) low e k drawn])
  then show ?thesis using low res by blast
qed

text \<open>
  C10, as claimed: the divisor \<open>Mass * avg_speed\<close> is strictly positive on every segment
  if and only if no two adjacent nodes of the velocity profile are both zero. The function
  accepts any array of node speeds and the optimiser may hand it nodes outside the bounds:
  for the profile \<open>[1, -1]\<close> no node is zero, and yet the average speed and the divisor of
  the only segment are zero, and the function yields no finite margin.
\<close>

theorem C10_counterexample:
  "\<not> (\<exists>k<length [100::real]. [1, - 1::real] ! k = 0 \<and> [1, - 1::real] ! Suc k = 0) \<and>
   acceleration_divisor default_config [1, - 1] = [0] \<and>
   battery_acc_constraint_func default_config [1, - 1] [100] [0] [0] [0] = Some (Inl NonFinite)"
proof -
  have "battery_acc_constraint_func default_config [1, - 1] [100] [0] [0] [0] = Some (Inl NonFinite)"
    by (rule battery_acc_zero_divisor[OF car_default])
       (simp_all add: default_values seg_dt_def seg_avg_def EPSILON_def)
  moreover have "acceleration_divisor default_config [1, - 1] = [0]"
    by (simp add: acceleration_divisor_def)
  ultimately show ?thesis by simp
qed

text \<open>
  C10, amended: let the mass be positive and the profile have one node more than the route
  has segments. (1) If every node is non-negative, the divisor \<open>Mass * avg_speed\<close> is
  strictly positive on every segment if and only if no two adjacent nodes are both zero.
  (2) For a profile within \<open>get_bounds\<close> on a route of at least two segments the divisor is
  strictly positive on every segment. (3) For a profile within \<open>get_bounds\<close> on a route of
  one segment the divisor is \<open>[0]\<close>. (4) Whenever two adjacent nodes are both zero, the
  divisor of that segment is zero and the function does not return a pair of margins:
  there is no \<open>\<epsilon>\<close> in this division.
\<close>

theorem C10_divisor_positive:
  assumes mass: "0 < Mass cfg"
    and len: "length v_prof = Suc (length segment_array)" "length slope_array = length segment_array"
  shows "((\<forall>x\<in>set v_prof. 0 \<le> x) \<longrightarrow>
            ((\<forall>k<length segment_array. 0 < acceleration_divisor cfg v_prof ! k) \<longleftrightarrow>
             \<not> (\<exists>k<length segment_array. v_prof ! k = 0 \<and> v_prof ! Suc k = 0))) \<and>
         (within_bounds (get_bounds cfg (int (length v_prof))) v_prof \<and> 2 \<le> length segment_array \<longrightarrow>
            (\<forall>k<length segment_array. 0 < acceleration_divisor cfg v_prof ! k)) \<and>
         (within_bounds (get_bounds cfg (int (length v_prof))) v_prof \<and> length segment_array = 1 \<longrightarrow>
            acceleration_divisor cfg v_prof = [0]) \<and>
         (\<forall>k<length segment_array. v_prof ! k = 0 \<and> v_prof ! Suc k = 0 \<longrightarrow>
            acceleration_divisor cfg v_prof ! k = 0 \<and>
            (\<forall>b a. battery_acc_constraint_func cfg v_prof segment_array slope_array latitude_array
                      longitude_array \<noteq> Some (Inr (b, a))))"
proof (intro conjI impI allI)
  note d = acceleration_divisor_nth[OF len(1), where cfg = cfg]
  {
    assume nn: "\<forall>x\<in>set v_prof. 0 \<le> x"
    have pos: "0 < acceleration_divisor cfg v_prof ! k \<longleftrightarrow> \<not> (v_prof ! k = 0 \<and> v_prof ! Suc k = 0)"
      if k: "k < length segment_array" for k
    proof -
      have "0 \<le> v_prof ! k" "0 \<le> v_prof ! Suc k" using nn k len(1) by simp_all
      then have "0 < v_prof ! k + v_prof ! Suc k \<longleftrightarrow> \<not> (v_prof ! k = 0 \<and> v_prof ! Suc k = 0)"
        by linarith
      then show ?thesis unfolding d(2)[OF k] seg_avg_def using mass by (simp add: zero_less_mult_iff)
    qed
    show "(\<forall>k<length segment_array. 0 < acceleration_divisor cfg v_prof ! k) \<longleftrightarrow>
             \<not> (\<exists>k<length segment_array. v_prof ! k = 0 \<and> v_prof ! Suc k = 0)"
      using pos by blast
  }
  {
    fix k
    assume a: "within_bounds (get_bounds cfg (int (length v_prof))) v_prof \<and> 2 \<le> length segment_array"
      and k: "k < length segment_array"
    from a have w: "within_bounds (get_bounds cfg (int (length v_prof))) v_prof" by (rule conjunct1)
    have n: "2 \<le> length v_prof" using a len(1) by simp
    have k1: "k < length v_prof" "Suc k < length v_prof" using k len(1) by simp_all
    note lo = within_bounds_nth(1)[OF w n]
    have "0.01 \<le> v_prof ! k + v_prof ! Suc k"
    proof (cases k)
      case 0
      have "0.01 \<le> v_prof ! Suc k" using a len(1) 0 by (intro within_bounds_nth(3)[OF w n k1(2)]) simp_all
      then show ?thesis using lo[OF k1(1)] by linarith
    next
      case (Suc j)
      have "0.01 \<le> v_prof ! k" using k len(1) Suc by (intro within_bounds_nth(3)[OF w n k1(1)]) simp_all
      then show ?thesis using lo[OF k1(2)] by linarith
    qed
    moreover have "(0::real) < 0.01" by simp
    ultimately have "0 < v_prof ! k + v_prof ! Suc k" by (rule less_le_trans[rotated])
    then show "0 < acceleration_divisor cfg v_prof ! k"
      unfolding d(2)[OF k] seg_avg_def using mass by (simp add: zero_less_mult_iff)
  }
  {
    assume a: "within_bounds (get_bounds cfg (int (length v_prof))) v_prof \<and> length segment_array = 1"
    then have w: "within_bounds (get_bounds cfg (int (length v_prof))) v_prof" by (rule conjunct1)
    have n: "2 \<le> length v_prof" and l: "length v_prof = 2" using a len(1) by simp_all
    have "v_prof ! 0 = 0" "v_prof ! 1 = 0"
      using l by (simp_all add: within_bounds_nth(2)[OF w n])
    then have "acceleration_divisor cfg v_prof ! 0 = 0" using d(2)[of 0] a by (simp add: seg_avg_def)
    moreover have "length (acceleration_divisor cfg v_prof) = 1" using d(1) a by simp
    ultimately show "acceleration_divisor cfg v_prof = [0]"
      by (cases "acceleration_divisor cfg v_prof") simp_all
  }
  {
    fix k
    assume k: "k < length segment_array" and z: "v_prof ! k = 0 \<and> v_prof ! Suc k = 0"
    then show z': "acceleration_divisor cfg v_prof ! k = 0" using d(2)[OF k] by (simp add: seg_avg_def)
    fix b a
    show "battery_acc_constraint_func cfg v_prof segment_array slope_array latitude_array longitude_array
            \<noteq> Some (Inr (b, a))"
    proof
      assume res: "battery_acc_constraint_func cfg v_prof segment_array slope_array latitude_array
                     longitude_array = Some (Inr (b, a))"
      from battery_acc_result[OF res len] have "\<forall>k<length segment_array. Mass cfg * seg_avg v_prof k \<noteq> 0"
        by blast
      then show False using z' k d(2)[OF k] by simp
    qed
  }
qed

theorem C10_witness:
  "0 < acceleration_divisor default_config [0, 10, 0] ! 0 \<and>
   0 < acceleration_divisor default_config [0, 10, 0] ! 1 \<and>
   \<not> (\<exists>k<length [100, 100::real]. [0, 10, 0::real] ! k = 0 \<and> [0, 10, 0::real] ! Suc k = 0) \<and>
   acceleration_divisor default_config [0, 0] = [0] \<and>
   \<not> (\<exists>b a. battery_acc_constraint_func default_config [0, 0] [100] [0] [0] [0] = Some (Inr (b, a)))"
proof -
  have mass: "0 < Mass default_config" by (simp add: default_values)
  have g3: "get_bounds default_config (int (length [0, 10, 0::real])) = [(0, 0), (0.01, 35), (0, 0)]"
    by (simp add: get_bounds_def default_values)
  have w3: "within_bounds (get_bounds default_config (int (length [0, 10, 0::real]))) [0, 10, 0]"
    unfolding g3 by (simp add: within_bounds_def)
  have g2: "get_bounds default_config (int (length [0, 0::real])) = [(0, 0), (0, 0)]"
    by (simp add: get_bounds_def)
  have w2: "within_bounds (get_bounds default_config (int (length [0, 0::real]))) [0, 0]"
    unfolding g2 by (simp add: within_bounds_def)
  have nn: "\<forall>x\<in>set [0, 10, 0::real]. 0 \<le> x" by simp
  have l3: "length [0, 10, 0::real] = Suc (length [100, 100::real])"
    "length [0, 0::real] = length [100, 100::real]" by simp_all
  have l2: "length [0, 0::real] = Suc (length [100::real])"
    "length [0::real] = length [100::real]" by simp_all
  note A = C10_divisor_positive[OF mass l3, where latitude_array = "[0, 0]" and longitude_array = "[0, 0]"]
  note B = C10_divisor_positive[OF mass l2, where latitude_array = "[0]" and longitude_array = "[0]"]
  from A w3 have p: "\<forall>k<length [100, 100::real]. 0 < acceleration_divisor default_config [0, 10, 0] ! k"
    by simp
  then have p0: "0 < acceleration_divisor default_config [0, 10, 0] ! 0"
    and p1: "0 < acceleration_divisor default_config [0, 10, 0] ! 1" by simp_all
  from A nn p have na:
    "\<not> (\<exists>k<length [100, 100::real]. [0, 10, 0::real] ! k = 0 \<and> [0, 10, 0::real] ! Suc k = 0)"
    by blast
  from B w2 have z: "acceleration_divisor default_config [0, 0] = [0]" by simp
  from B have "\<forall>k<length [100::real]. [0, 0::real] ! k = 0 \<and> [0, 0::real] ! Suc k = 0 \<longrightarrow>
      (\<forall>b a. battery_acc_constraint_func default_config [0, 0] [100] [0] [0] [0] \<noteq> Some (Inr (b, a)))"
    by blast
  then have nr: "\<not> (\<exists>b a. battery_acc_constraint_func default_config [0, 0] [100] [0] [0] [0] = Some (Inr (b, a)))"
    by simp
  show ?thesis using p0 p1 na z nr by blast
qed

end
